(* ===== verification/Prelude.thy ===== *)
theory Prelude
  imports Main "HOL-Library.Word"
begin

text \<open>
  Shared vocabulary of the development: machine integers and object handles, the C++ exceptions
  the code throws, a state-and-exception effect type, the containers of the standard library
  (\<^verbatim>\<open>std::map\<close> as a key-sorted association list, \<^verbatim>\<open>std::set\<close> as a sorted list,
  \<^verbatim>\<open>erase(remove_if(...))\<close> on vectors of callbacks), \<^verbatim>\<open>std::to_string\<close>, and the
  lemmas about them that the components use.
\<close>

named_theorems handler_defs "the definitions of event handlers, unfolded in invariant proofs"

section \<open>Machine types and handles\<close>

type_synonym u32 = "32 word"

text \<open>
  A pointer to a Wayland proxy object: \<open>None\<close> is \<^verbatim>\<open>nullptr\<close>, \<open>Some a\<close> an object with
  identity \<open>a\<close>. The code never does arithmetic on them, it only compares them.
\<close>

type_synonym handle = "nat option"

abbreviation nullptr :: handle where
  "nullptr \<equiv> None"

section \<open>Exceptions and effects\<close>

text \<open>
  Every exception class the code throws is a constructor. \<open>Undefined_behaviour\<close> is not an
  exception: it marks the points at which the C++ program has no defined behaviour (a stale
  iterator, a read past the end, signed overflow), so that a theorem can say they are reached
  or not reached.
\<close>

datatype exn =
    Runtime_error string
  | Logic_error string
  | System_error int string
  | Out_of_range string
  | Bad_optional_access
  | Protocol_error "(string \<times> u32) option" u32
  | Extension_expectedly_not_supported string string
  | Timeout string
  | Shim_not_implemented string
  | Undefined_behaviour string

type_synonym 'a result = "exn + 'a"

text \<open>A computation that changes a state and may throw; what it changed before throwing stays.\<close>

type_synonym ('s, 'a) eff = "'s \<Rightarrow> 'a result \<times> 's"

definition retE :: "'a \<Rightarrow> ('s, 'a) eff" where
  "retE x s = (Inr x, s)"

definition throwE :: "exn \<Rightarrow> ('s, 'a) eff" where
  "throwE e s = (Inl e, s)"

definition bindE :: "('s, 'a) eff \<Rightarrow> ('a \<Rightarrow> ('s, 'b) eff) \<Rightarrow> ('s, 'b) eff" where
  "bindE m f s = (case m s of (Inl e, t) \<Rightarrow> (Inl e, t) | (Inr x, t) \<Rightarrow> f x t)"

lemma bindE_ret [simp]: "bindE (retE x) f = f x"
  by (rule ext) (simp add: bindE_def retE_def)

lemma bindE_throw [simp]: "bindE (throwE e) f = throwE e"
  by (rule ext) (simp add: bindE_def throwE_def)

lemma bindE_assoc: "bindE (bindE m f) g = bindE m (\<lambda>x. bindE (f x) g)"
  by (rule ext) (simp add: bindE_def split: prod.split sum.split)

lemma bindE_InrE:
  assumes "bindE m f s = (Inr y, u)"
  obtains x t where "m s = (Inr x, t)" and "f x t = (Inr y, u)"
  using assms by (auto simp: bindE_def split: prod.splits sum.splits)

section \<open>\<^verbatim>\<open>std::to_string\<close>\<close>

fun nat_to_string :: "nat \<Rightarrow> string" where
  "nat_to_string n =
     (if n < 10 then [''0123456789'' ! n]
      else nat_to_string (n div 10) @ [''0123456789'' ! (n mod 10)])"

declare nat_to_string.simps [simp del]

definition u32_to_string :: "u32 \<Rightarrow> string" where
  "u32_to_string w = nat_to_string (unat w)"

definition int_to_string :: "int \<Rightarrow> string" where
  "int_to_string z =
     (if z < 0 then CHR ''-'' # nat_to_string (nat (- z)) else nat_to_string (nat z))"

text \<open>Reading the digits back gives the number, so the decimal notation is injective.\<close>

definition digit_val :: "char \<Rightarrow> nat" where
  "digit_val c = of_char c - 48"

definition read_nat :: "string \<Rightarrow> nat" where
  "read_nat = foldl (\<lambda>acc c. 10 * acc + digit_val c) 0"

lemma digit_val_nth: "d < 10 \<Longrightarrow> digit_val (''0123456789'' ! d) = d"
proof -
  assume "d < 10"
  then have "d \<in> set [0 ..< 10]" by simp
  then show ?thesis by (auto simp: upt_rec digit_val_def)
qed

lemma read_nat_to_string [simp]: "read_nat (nat_to_string n) = n"
proof (induction n rule: nat_to_string.induct)
  case (1 n)
  show ?case
  proof (cases "n < 10")
    case True
    then show ?thesis
      by (subst nat_to_string.simps) (simp add: read_nat_def digit_val_nth)
  next
    case False
    then have "foldl (\<lambda>acc c. 10 * acc + digit_val c) 0 (nat_to_string (n div 10)) = n div 10"
      using "1.IH" by (simp add: read_nat_def)
    with False show ?thesis
      by (subst nat_to_string.simps) (simp add: read_nat_def digit_val_nth)
  qed
qed

lemma nat_to_string_inject [simp]: "nat_to_string m = nat_to_string n \<longleftrightarrow> m = n"
  by (metis read_nat_to_string)

lemma u32_to_string_inject [simp]: "u32_to_string v = u32_to_string w \<longleftrightarrow> v = w"
  by (simp add: u32_to_string_def word_unat_eq_iff)

section \<open>\<^verbatim>\<open>std::map\<close> and \<^verbatim>\<open>std::set\<close>\<close>

text \<open>
  A \<^verbatim>\<open>std::map\<close> is the list of its entries in iteration order, which is the order of the
  keys. \<open>map_put\<close> is \<^verbatim>\<open>m[k] = v\<close>, \<open>map_erase\<close> is \<^verbatim>\<open>m.erase(k)\<close> and \<open>map_of\<close> is
  \<^verbatim>\<open>m.find(k)\<close>.
\<close>

fun map_put :: "'k::linorder \<Rightarrow> 'v \<Rightarrow> ('k \<times> 'v) list \<Rightarrow> ('k \<times> 'v) list" where
  "map_put k v [] = [(k, v)]"
| "map_put k v ((k', v') # m) =
     (if k < k' then (k, v) # (k', v') # m
      else if k = k' then (k, v) # m
      else (k', v') # map_put k v m)"

definition map_erase :: "'k \<Rightarrow> ('k \<times> 'v) list \<Rightarrow> ('k \<times> 'v) list" where
  "map_erase k m = filter (\<lambda>p. fst p \<noteq> k) m"

definition key_sorted :: "('k::linorder \<times> 'v) list \<Rightarrow> bool" where
  "key_sorted m \<longleftrightarrow> sorted_wrt (<) (map fst m)"

text \<open>\<^verbatim>\<open>std::set::insert\<close> on a set kept as the sorted list of its elements.\<close>

fun set_put :: "'k::linorder \<Rightarrow> 'k list \<Rightarrow> 'k list" where
  "set_put k [] = [k]"
| "set_put k (k' # s) =
     (if k < k' then k # k' # s else if k = k' then k' # s else k' # set_put k s)"

lemma map_of_put [simp]: "map_of (map_put k v m) = (map_of m)(k \<mapsto> v)"
  by (induction k v m rule: map_put.induct) (auto simp: fun_eq_iff)

lemma map_of_erase [simp]: "map_of (map_erase k m) = (map_of m)(k := None)"
  by (induction m) (auto simp: map_erase_def fun_eq_iff)

lemma set_keys_put: "fst ` set (map_put k v m) = insert k (fst ` set m)"
  by (induction k v m rule: map_put.induct) (auto simp: rev_image_eqI)

lemma key_sorted_Nil [simp]: "key_sorted []"
  by (simp add: key_sorted_def)

lemma key_sorted_put [simp]: "key_sorted m \<Longrightarrow> key_sorted (map_put k v m)"
proof (induction k v m rule: map_put.induct)
  case (2 k v k' v' m)
  have "fst ` set (map_put k v m) = insert k (fst ` set m)" by (rule set_keys_put)
  with 2 show ?case by (auto simp: key_sorted_def)
qed (simp add: key_sorted_def)

lemma key_sorted_erase [simp]: "key_sorted m \<Longrightarrow> key_sorted (map_erase k m)"
  by (induction m) (auto simp: key_sorted_def map_erase_def)

lemma key_sorted_distinct: "key_sorted m \<Longrightarrow> distinct (map fst m)"
  by (simp add: key_sorted_def strict_sorted_iff)

lemma set_set_put [simp]: "set (set_put k s) = insert k (set s)"
  by (induction k s rule: set_put.induct) auto

lemma map_put_neq_Nil [simp]: "map_put k v m \<noteq> []"
  by (induction k v m rule: map_put.induct) auto

subsection \<open>The contract of \<^verbatim>\<open>std::map\<close>\<close>

text \<open>
  What the clients of a map rely on, and the two loops over a map they run: storing every entry
  of another map, and erasing every key of a set.
\<close>

locale std_map =
  fixes put :: "'k \<Rightarrow> 'v \<Rightarrow> 'm \<Rightarrow> 'm"
    and erase :: "'k \<Rightarrow> 'm \<Rightarrow> 'm"
    and find :: "'m \<Rightarrow> 'k \<Rightarrow> 'v option"
    and ok :: "'m \<Rightarrow> bool"
  assumes find_put: "find (put k v m) = (find m)(k \<mapsto> v)"
    and find_erase: "find (erase k m) = (find m)(k := None)"
    and ok_put: "ok m \<Longrightarrow> ok (put k v m)"
    and ok_erase: "ok m \<Longrightarrow> ok (erase k m)"
begin

lemma find_put_all: "find (fold (\<lambda>(k, v). put k v) kvs m) = find m ++ map_of (rev kvs)"
proof (induction kvs arbitrary: m)
  case (Cons kv kvs)
  then show ?case
    by (cases kv) (simp add: find_put map_add_def fun_eq_iff split: option.split)
qed simp

lemma find_erase_all: "find (fold erase ks m) = find m |` (- set ks)"
  by (induction ks arbitrary: m)
     (auto simp: find_erase restrict_map_def fun_eq_iff)

lemma ok_put_all: "ok m \<Longrightarrow> ok (fold (\<lambda>(k, v). put k v) kvs m)"
  by (induction kvs arbitrary: m) (auto simp: ok_put)

lemma ok_erase_all: "ok m \<Longrightarrow> ok (fold erase ks m)"
  by (induction ks arbitrary: m) (auto simp: ok_erase)

end

interpretation smap: std_map map_put map_erase map_of key_sorted
  by unfold_locales auto

lemma map_of_rev_distinct: "distinct (map fst m) \<Longrightarrow> map_of (rev m) = map_of m"
  by (rule map_of_eqI) (auto simp: map_of_eq_Some_iff rev_map [symmetric])

section \<open>Vectors of callbacks\<close>

text \<open>
  A callback is a closure of the test program: called with its arguments it may change the
  test's own state \<open>'w\<close> and returns whether it wants to be called again.
  \<open>erase_remove_if\<close> is \<^verbatim>\<open>v.erase(std::remove_if(..., !notifier(args)), v.end())\<close>: every
  callback is called once, in order, and those that return \<^verbatim>\<open>false\<close> are removed.
\<close>

type_synonym ('a, 'w) notifier = "'a \<Rightarrow> 'w \<Rightarrow> bool \<times> 'w"

fun erase_remove_if :: "('a, 'w) notifier list \<Rightarrow> 'a \<Rightarrow> 'w \<Rightarrow> ('a, 'w) notifier list \<times> 'w" where
  "erase_remove_if [] a w = ([], w)"
| "erase_remove_if (n # ns) a w =
     (let (keep, w1) = n a w; (ns', w2) = erase_remove_if ns a w1
      in (if keep then n # ns' else ns', w2))"

lemma erase_remove_if_Cons:
  "erase_remove_if (n # ns) a w =
     ((if fst (n a w) then [n] else []) @ fst (erase_remove_if ns a (snd (n a w))),
      snd (erase_remove_if ns a (snd (n a w))))"
  by (simp add: case_prod_beta Let_def)

lemma erase_remove_if_world:
  "snd (erase_remove_if ns a w) = fold (\<lambda>n w. snd (n a w)) ns w"
  by (induction ns arbitrary: w) (simp_all add: erase_remove_if_Cons del: erase_remove_if.simps(2))

lemma erase_remove_if_subset: "set (fst (erase_remove_if ns a w)) \<subseteq> set ns"
proof (induction ns arbitrary: w)
  case (Cons n ns)
  then have "set (fst (erase_remove_if ns a (snd (n a w)))) \<subseteq> set ns" .
  then show ?case by (auto simp: erase_remove_if_Cons simp del: erase_remove_if.simps(2))
qed simp

lemma erase_remove_if_all_keep:
  "(\<And>n w. n \<in> set ns \<Longrightarrow> fst (n a w)) \<Longrightarrow> fst (erase_remove_if ns a w) = ns"
  by (induction ns arbitrary: w) (simp_all add: erase_remove_if_Cons del: erase_remove_if.simps(2))

end
