(* ===== verification/Client_Input.thy ===== *)
theory Client_Input
  imports Prelude
begin

text \<open>
  The input side of \<^verbatim>\<open>wlcs::Client::Impl\<close> (\<^verbatim>\<open>src/in_process_server.cpp\<close>): the handlers of
  \<^verbatim>\<open>wl_keyboard\<close>, \<^verbatim>\<open>wl_pointer\<close> and \<^verbatim>\<open>wl_touch\<close> events, the pending state they
  accumulate until the next \<^verbatim>\<open>frame\<close> event, the notifiers tests register, and the accessors
  tests read. A googletest \<^verbatim>\<open>FAIL()\<close> inside a handler records a failure of the running test
  and returns from the handler; the model records it in \<open>failures\<close>.
\<close>

section \<open>State\<close>

record surface_location =
  loc_surface :: handle
  loc_coordinates :: "int \<times> int"

record key_event =
  scancode :: u32
  key_is_down :: bool
  key_serial :: u32
  key_time :: u32

datatype input_failure =
    Entered_without_leaving handle handle
  | Leave_not_on_surface
  | Leave_of_other_surface handle handle
  | Motion_not_on_surface
  | Frame_leave_not_on_surface
  | Touch_down_already_down int
  | Touch_up_unknown_id int

text \<open>
  The fields have the names of the source's members; \<open>failures\<close> is the list of failures the
  handlers recorded, \<open>closed_fds\<close> the descriptors they closed, and \<open>world\<close> the state of the test
  program that its notifiers read and change.
\<close>

record 'w client_input =
  keyboard_focused_surface :: handle
  current_pointer_location :: "surface_location option"
  pending_pointer_location :: "surface_location option"
  pending_pointer_leave :: bool
  pending_buttons :: "(u32 \<times> (u32 \<times> bool)) list"
  current_touches :: "(int \<times> surface_location) list"
  pending_touches :: "(int \<times> surface_location) list"
  pending_up_touches :: "int list"
  latest_serial :: "u32 option"
  last_key_event :: "key_event option"
  enter_notifiers :: "(handle \<times> int \<times> int, 'w) notifier list"
  leave_notifiers :: "(handle, 'w) notifier list"
  motion_notifiers :: "(int \<times> int, 'w) notifier list"
  button_notifiers :: "(u32 \<times> u32 \<times> bool, 'w) notifier list"
  failures :: "input_failure list"
  closed_fds :: "int list"
  world :: 'w

definition initial_input :: "'w \<Rightarrow> 'w client_input" where
  "initial_input w =
     \<lparr>keyboard_focused_surface = nullptr,
      current_pointer_location = None, pending_pointer_location = None,
      pending_pointer_leave = False, pending_buttons = [],
      current_touches = [], pending_touches = [], pending_up_touches = [],
      latest_serial = None, last_key_event = None,
      enter_notifiers = [], leave_notifiers = [], motion_notifiers = [], button_notifiers = [],
      failures = [], closed_fds = [], world = w\<rparr>"

text \<open>\<^verbatim>\<open>FAIL()\<close> in a handler.\<close>

definition gtest_fail :: "input_failure \<Rightarrow> 'w client_input \<Rightarrow> 'w client_input" where
  "gtest_fail f me = me\<lparr>failures := failures me @ [f]\<rparr>"

section \<open>Keyboard handlers\<close>

definition keyboard_keymap :: "u32 \<Rightarrow> int \<Rightarrow> u32 \<Rightarrow> 'w client_input \<Rightarrow> 'w client_input" where
  "keyboard_keymap fmt fd sz me = me\<lparr>closed_fds := closed_fds me @ [fd]\<rparr>"

definition keyboard_enter :: "u32 \<Rightarrow> handle \<Rightarrow> 'w client_input \<Rightarrow> 'w client_input" where
  "keyboard_enter serial surf me =
     me\<lparr>keyboard_focused_surface := surf, latest_serial := Some serial\<rparr>"

definition keyboard_leave :: "u32 \<Rightarrow> handle \<Rightarrow> 'w client_input \<Rightarrow> 'w client_input" where
  "keyboard_leave serial surf me =
     (let me = (if keyboard_focused_surface me = surf
                then me\<lparr>keyboard_focused_surface := nullptr\<rparr> else me)
      in me\<lparr>latest_serial := Some serial\<rparr>)"

text \<open>\<^verbatim>\<open>WL_KEYBOARD_KEY_STATE_PRESSED\<close> and \<^verbatim>\<open>WL_POINTER_BUTTON_STATE_PRESSED\<close> are both 1.\<close>

definition keyboard_key :: "u32 \<Rightarrow> u32 \<Rightarrow> u32 \<Rightarrow> u32 \<Rightarrow> 'w client_input \<Rightarrow> 'w client_input" where
  "keyboard_key serial time key state me =
     me\<lparr>latest_serial := Some serial,
        last_key_event := Some \<lparr>scancode = key, key_is_down = (state = 1),
                                key_serial = serial, key_time = time\<rparr>\<rparr>"

section \<open>Pointer handlers\<close>

definition pointer_enter :: "u32 \<Rightarrow> handle \<Rightarrow> int \<Rightarrow> int \<Rightarrow> 'w client_input \<Rightarrow> 'w client_input" where
  "pointer_enter serial surf x y me =
     (let me = me\<lparr>latest_serial := Some serial\<rparr> in
      case current_pointer_location me of
        Some l \<Rightarrow>
          if \<not> pending_pointer_leave me
          then gtest_fail (Entered_without_leaving surf (loc_surface l)) me
          else me\<lparr>pending_pointer_location :=
                    Some \<lparr>loc_surface = surf, loc_coordinates = (x, y)\<rparr>\<rparr>
      | None \<Rightarrow> me\<lparr>pending_pointer_location :=
                    Some \<lparr>loc_surface = surf, loc_coordinates = (x, y)\<rparr>\<rparr>)"

definition pointer_leave :: "u32 \<Rightarrow> handle \<Rightarrow> 'w client_input \<Rightarrow> 'w client_input" where
  "pointer_leave serial surf me =
     (let me = me\<lparr>latest_serial := Some serial\<rparr> in
      case current_pointer_location me of
        None \<Rightarrow> gtest_fail Leave_not_on_surface me
      | Some l \<Rightarrow>
          if surf \<noteq> nullptr \<and> surf \<noteq> loc_surface l
          then gtest_fail (Leave_of_other_surface surf (loc_surface l)) me
          else me\<lparr>pending_pointer_location := None, pending_pointer_leave := True\<rparr>)"

definition pointer_motion :: "u32 \<Rightarrow> int \<Rightarrow> int \<Rightarrow> 'w client_input \<Rightarrow> 'w client_input" where
  "pointer_motion time x y me =
     (if current_pointer_location me = None \<and> pending_pointer_location me = None
      then gtest_fail Motion_not_on_surface me
      else
        let me = (if pending_pointer_location me = None
                  then me\<lparr>pending_pointer_location := current_pointer_location me\<rparr> else me)
        in me\<lparr>pending_pointer_location :=
                map_option (\<lambda>l. l\<lparr>loc_coordinates := (x, y)\<rparr>) (pending_pointer_location me)\<rparr>)"

definition pointer_button :: "u32 \<Rightarrow> u32 \<Rightarrow> u32 \<Rightarrow> u32 \<Rightarrow> 'w client_input \<Rightarrow> 'w client_input" where
  "pointer_button serial time button state me =
     (let me = me\<lparr>latest_serial := Some serial\<rparr> in
      me\<lparr>pending_buttons := map_put button (serial, state = 1) (pending_buttons me)\<rparr>)"

subsection \<open>Notification\<close>

definition notify_of_pointer_enter :: "handle \<Rightarrow> int \<times> int \<Rightarrow> 'w client_input \<Rightarrow> 'w client_input" where
  "notify_of_pointer_enter surf position me =
     (case erase_remove_if (enter_notifiers me) (surf, fst position, snd position) (world me) of
        (ns, w) \<Rightarrow> me\<lparr>enter_notifiers := ns, world := w\<rparr>)"

definition notify_of_pointer_leave :: "handle \<Rightarrow> 'w client_input \<Rightarrow> 'w client_input" where
  "notify_of_pointer_leave surf me =
     (case erase_remove_if (leave_notifiers me) surf (world me) of
        (ns, w) \<Rightarrow> me\<lparr>leave_notifiers := ns, world := w\<rparr>)"

definition notify_of_pointer_motion :: "int \<times> int \<Rightarrow> 'w client_input \<Rightarrow> 'w client_input" where
  "notify_of_pointer_motion position me =
     (case erase_remove_if (motion_notifiers me) position (world me) of
        (ns, w) \<Rightarrow> me\<lparr>motion_notifiers := ns, world := w\<rparr>)"

definition notify_of_pointer_button :: "u32 \<times> (u32 \<times> bool) \<Rightarrow> 'w client_input \<Rightarrow> 'w client_input" where
  "notify_of_pointer_button button me =
     (case erase_remove_if (button_notifiers me)
             (fst (snd button), fst button, snd (snd button)) (world me) of
        (ns, w) \<Rightarrow> me\<lparr>button_notifiers := ns, world := w\<rparr>)"

definition notify_of_pointer_buttons ::
    "(u32 \<times> (u32 \<times> bool)) list \<Rightarrow> 'w client_input \<Rightarrow> 'w client_input" where
  "notify_of_pointer_buttons buttons me = fold notify_of_pointer_button buttons me"

subsection \<open>The frame event\<close>

text \<open>The three \<^verbatim>\<open>if\<close> statements of \<^verbatim>\<open>pointer_frame\<close>; only the first can return early.\<close>

definition frame_location :: "'w client_input \<Rightarrow> 'w client_input" where
  "frame_location me =
     (case pending_pointer_location me of
        None \<Rightarrow> me
      | Some l \<Rightarrow>
          let old_pointer_location = current_pointer_location me;
              me = me\<lparr>current_pointer_location := Some l, pending_pointer_location := None\<rparr>
          in if old_pointer_location = None
             then notify_of_pointer_enter (loc_surface l) (loc_coordinates l) me
             else notify_of_pointer_motion (loc_coordinates l) me)"

definition frame_buttons :: "'w client_input \<Rightarrow> 'w client_input" where
  "frame_buttons me =
     (if pending_buttons me \<noteq> []
      then (notify_of_pointer_buttons (pending_buttons me) me)\<lparr>pending_buttons := []\<rparr>
      else me)"

definition pointer_frame :: "'w client_input \<Rightarrow> 'w client_input" where
  "pointer_frame me =
     (if pending_pointer_leave me then
        (case current_pointer_location me of
           None \<Rightarrow> gtest_fail Frame_leave_not_on_surface me
         | Some l \<Rightarrow>
             frame_buttons (frame_location
               (notify_of_pointer_leave (loc_surface l)
                  (me\<lparr>current_pointer_location := None, pending_pointer_leave := False\<rparr>))))
      else frame_buttons (frame_location me))"

section \<open>Touch handlers\<close>

definition touch_down :: "u32 \<Rightarrow> u32 \<Rightarrow> handle \<Rightarrow> int \<Rightarrow> int \<Rightarrow> int \<Rightarrow> 'w client_input \<Rightarrow> 'w client_input" where
  "touch_down serial time surf touch_id x y me =
     (let me = me\<lparr>latest_serial := Some serial\<rparr> in
      if map_of (current_touches me) touch_id \<noteq> None
      then gtest_fail (Touch_down_already_down touch_id) me
      else me\<lparr>pending_touches :=
                map_put touch_id \<lparr>loc_surface = surf, loc_coordinates = (x, y)\<rparr>
                  (pending_touches me)\<rparr>)"

definition touch_up :: "u32 \<Rightarrow> u32 \<Rightarrow> int \<Rightarrow> 'w client_input \<Rightarrow> 'w client_input" where
  "touch_up serial time touch_id me =
     (let me = me\<lparr>latest_serial := Some serial\<rparr> in
      if map_of (current_touches me) touch_id = None
      then gtest_fail (Touch_up_unknown_id touch_id) me
      else me\<lparr>pending_up_touches := set_put touch_id (pending_up_touches me)\<rparr>)"

text \<open>The failure message of \<^verbatim>\<open>touch_motion\<close> is the one of \<^verbatim>\<open>touch_up\<close>.\<close>

definition touch_motion :: "u32 \<Rightarrow> int \<Rightarrow> int \<Rightarrow> int \<Rightarrow> 'w client_input \<Rightarrow> 'w client_input" where
  "touch_motion time touch_id x y me =
     (case map_of (current_touches me) touch_id of
        None \<Rightarrow> gtest_fail (Touch_up_unknown_id touch_id) me
      | Some touch \<Rightarrow>
          me\<lparr>pending_touches :=
               map_put touch_id \<lparr>loc_surface = loc_surface touch, loc_coordinates = (x, y)\<rparr>
                 (pending_touches me)\<rparr>)"

definition touch_frame :: "'w client_input \<Rightarrow> 'w client_input" where
  "touch_frame me =
     (let me = me\<lparr>current_touches := fold map_erase (pending_up_touches me) (current_touches me)\<rparr>;
          me = me\<lparr>current_touches :=
                    fold (\<lambda>(i, l). map_put i l) (pending_touches me) (current_touches me)\<rparr>
      in me\<lparr>pending_up_touches := [], pending_touches := []\<rparr>)"

section \<open>Accessors\<close>

definition keyboard_focused_window :: "'w client_input \<Rightarrow> handle" where
  "keyboard_focused_window me = keyboard_focused_surface me"

definition window_under_cursor :: "'w client_input \<Rightarrow> handle" where
  "window_under_cursor me =
     (case current_pointer_location me of Some l \<Rightarrow> loc_surface l | None \<Rightarrow> nullptr)"

fun touched_window_from :: "handle \<Rightarrow> (int \<times> surface_location) list \<Rightarrow> handle result" where
  "touched_window_from surf [] = Inr surf"
| "touched_window_from surf (touch # touches) =
     (if surf \<noteq> nullptr \<and> loc_surface (snd touch) \<noteq> surf
      then Inl (Runtime_error ''Multiple surfaces have active touches'')
      else touched_window_from (loc_surface (snd touch)) touches)"

definition touched_window :: "'w client_input \<Rightarrow> handle result" where
  "touched_window me = touched_window_from nullptr (current_touches me)"

definition pointer_position :: "'w client_input \<Rightarrow> (int \<times> int) result" where
  "pointer_position me =
     (case current_pointer_location me of
        Some l \<Rightarrow> Inr (loc_coordinates l) | None \<Rightarrow> Inl Bad_optional_access)"

definition touch_position :: "'w client_input \<Rightarrow> (int \<times> int) result" where
  "touch_position me =
     (case current_touches me of
        [] \<Rightarrow> Inl (Runtime_error ''No touches'')
      | [touch] \<Rightarrow> Inr (loc_coordinates (snd touch))
      | _ \<Rightarrow> Inl (Runtime_error ''More than one touches''))"

definition pointer_events_pending :: "'w client_input \<Rightarrow> bool" where
  "pointer_events_pending me \<longleftrightarrow>
     pending_buttons me \<noteq> [] \<or> pending_pointer_location me \<noteq> None"

definition touch_events_pending :: "'w client_input \<Rightarrow> bool" where
  "touch_events_pending me \<longleftrightarrow> pending_touches me \<noteq> [] \<or> pending_up_touches me \<noteq> []"

definition add_pointer_enter_notification ::
    "(handle \<times> int \<times> int, 'w) notifier \<Rightarrow> 'w client_input \<Rightarrow> 'w client_input" where
  "add_pointer_enter_notification on_enter me =
     me\<lparr>enter_notifiers := enter_notifiers me @ [on_enter]\<rparr>"

definition add_pointer_leave_notification ::
    "(handle, 'w) notifier \<Rightarrow> 'w client_input \<Rightarrow> 'w client_input" where
  "add_pointer_leave_notification on_leave me =
     me\<lparr>leave_notifiers := leave_notifiers me @ [on_leave]\<rparr>"

definition add_pointer_motion_notification ::
    "(int \<times> int, 'w) notifier \<Rightarrow> 'w client_input \<Rightarrow> 'w client_input" where
  "add_pointer_motion_notification on_motion me =
     me\<lparr>motion_notifiers := motion_notifiers me @ [on_motion]\<rparr>"

definition add_pointer_button_notification ::
    "(u32 \<times> u32 \<times> bool, 'w) notifier \<Rightarrow> 'w client_input \<Rightarrow> 'w client_input" where
  "add_pointer_button_notification on_button me =
     me\<lparr>button_notifiers := button_notifiers me @ [on_button]\<rparr>"

section \<open>Events and the listener tables\<close>

datatype keyboard_event =
    Keyboard_keymap u32 int u32
  | Keyboard_enter u32 handle
  | Keyboard_leave u32 handle
  | Keyboard_key u32 u32 u32 u32
  | Keyboard_modifiers
  | Keyboard_repeat_info

datatype pointer_event =
    Pointer_enter u32 handle int int
  | Pointer_leave u32 handle
  | Pointer_motion u32 int int
  | Pointer_button u32 u32 u32 u32
  | Pointer_frame
  | Pointer_axis_event

datatype touch_event =
    Touch_down u32 u32 handle int int int
  | Touch_up u32 u32 int
  | Touch_motion u32 int int int
  | Touch_frame
  | Touch_cancel
  | Touch_shape
  | Touch_orientation

fun keyboard_listener :: "keyboard_event \<Rightarrow> 'w client_input \<Rightarrow> 'w client_input" where
  "keyboard_listener (Keyboard_keymap fmt fd sz) me = keyboard_keymap fmt fd sz me"
| "keyboard_listener (Keyboard_enter serial surf) me = keyboard_enter serial surf me"
| "keyboard_listener (Keyboard_leave serial surf) me = keyboard_leave serial surf me"
| "keyboard_listener (Keyboard_key serial time key state) me = keyboard_key serial time key state me"
| "keyboard_listener Keyboard_modifiers me = me"
| "keyboard_listener Keyboard_repeat_info me = me"

fun pointer_listener :: "pointer_event \<Rightarrow> 'w client_input \<Rightarrow> 'w client_input" where
  "pointer_listener (Pointer_enter serial surf x y) me = pointer_enter serial surf x y me"
| "pointer_listener (Pointer_leave serial surf) me = pointer_leave serial surf me"
| "pointer_listener (Pointer_motion time x y) me = pointer_motion time x y me"
| "pointer_listener (Pointer_button serial time button state) me =
     pointer_button serial time button state me"
| "pointer_listener Pointer_frame me = pointer_frame me"
| "pointer_listener Pointer_axis_event me = me"

text \<open>
  The \<^verbatim>\<open>cancel\<close>, \<^verbatim>\<open>shape\<close> and \<^verbatim>\<open>orientation\<close> entries of the touch listener are
  \<^verbatim>\<open>nullptr\<close>: there is no handler to run, and \<open>None\<close> says so.
\<close>

fun touch_listener :: "touch_event \<Rightarrow> ('w client_input \<Rightarrow> 'w client_input) option" where
  "touch_listener (Touch_down serial time surf i x y) = Some (touch_down serial time surf i x y)"
| "touch_listener (Touch_up serial time i) = Some (touch_up serial time i)"
| "touch_listener (Touch_motion time i x y) = Some (touch_motion time i x y)"
| "touch_listener Touch_frame = Some touch_frame"
| "touch_listener Touch_cancel = None"
| "touch_listener Touch_shape = None"
| "touch_listener Touch_orientation = None"

datatype input_event =
    Keyboard_event keyboard_event
  | Pointer_event pointer_event
  | Touch_event touch_event

text \<open>Dispatching one event; \<open>None\<close> when the listener has no handler for it.\<close>

fun dispatch_input :: "input_event \<Rightarrow> 'w client_input \<Rightarrow> 'w client_input option" where
  "dispatch_input (Keyboard_event e) me = Some (keyboard_listener e me)"
| "dispatch_input (Pointer_event e) me = Some (pointer_listener e me)"
| "dispatch_input (Touch_event e) me = map_option (\<lambda>h. h me) (touch_listener e)"

text \<open>The states a client can be in after any sequence of events and registrations.\<close>

inductive input_reachable :: "'w client_input \<Rightarrow> bool" where
  start: "input_reachable (initial_input w)"
| event: "input_reachable me \<Longrightarrow> dispatch_input e me = Some me' \<Longrightarrow> input_reachable me'"
| add_enter: "input_reachable me \<Longrightarrow> input_reachable (add_pointer_enter_notification n1 me)"
| add_leave: "input_reachable me \<Longrightarrow> input_reachable (add_pointer_leave_notification n2 me)"
| add_motion: "input_reachable me \<Longrightarrow> input_reachable (add_pointer_motion_notification n3 me)"
| add_button: "input_reachable me \<Longrightarrow> input_reachable (add_pointer_button_notification n4 me)"

section \<open>Specifications\<close>

text \<open>A moved touch stays on the surface it went down on.\<close>

definition same_surface ::
    "(int \<Rightarrow> surface_location option) \<Rightarrow> (int \<Rightarrow> surface_location option) \<Rightarrow> bool" where
  "same_surface m n \<longleftrightarrow>
     (\<forall>i. m i = None \<or> n i = None \<or>
          map_option loc_surface (n i) = map_option loc_surface (m i))"

text \<open>
  What the fields always satisfy: a leave is only pending while the pointer is on a surface, the
  containers are ordered, only touches that are down can be pending an up, a pending motion does
  not change the touched surface, and the failure
  \<^verbatim>\<open>"Pointer tried to leave when it was not on a surface"\<close> of \<^verbatim>\<open>pointer_frame\<close> has never
  been recorded.
\<close>

definition input_ok :: "'w client_input \<Rightarrow> bool" where
  "input_ok me \<longleftrightarrow>
     (pending_pointer_leave me \<longrightarrow> current_pointer_location me \<noteq> None) \<and>
     key_sorted (pending_buttons me) \<and>
     key_sorted (current_touches me) \<and> key_sorted (pending_touches me) \<and>
     set (pending_up_touches me) \<subseteq> dom (map_of (current_touches me)) \<and>
     same_surface (map_of (current_touches me)) (map_of (pending_touches me)) \<and>
     Frame_leave_not_on_surface \<notin> set (failures me)"

text \<open>
  The meaning of the pointer protocol without frames: where the pointer is after each event.
\<close>

fun pointer_spec :: "pointer_event \<Rightarrow> surface_location option \<Rightarrow> surface_location option" where
  "pointer_spec (Pointer_enter serial surf x y) p =
     Some \<lparr>loc_surface = surf, loc_coordinates = (x, y)\<rparr>"
| "pointer_spec (Pointer_leave serial surf) p = None"
| "pointer_spec (Pointer_motion time x y) p = map_option (\<lambda>l. l\<lparr>loc_coordinates := (x, y)\<rparr>) p"
| "pointer_spec (Pointer_button serial time button state) p = p"
| "pointer_spec Pointer_frame p = p"
| "pointer_spec Pointer_axis_event p = p"

text \<open>Where the pointer is, counting what is still pending.\<close>

definition pointer_abs :: "'w client_input \<Rightarrow> surface_location option" where
  "pointer_abs me =
     (case pending_pointer_location me of
        Some l \<Rightarrow> Some l
      | None \<Rightarrow> if pending_pointer_leave me then None else current_pointer_location me)"

text \<open>A motion between a leave and the enter or frame that follows it.\<close>

fun motion_after_leave :: "pointer_event \<Rightarrow> 'w client_input \<Rightarrow> bool" where
  "motion_after_leave (Pointer_motion time x y) me \<longleftrightarrow>
     pending_pointer_leave me \<and> pending_pointer_location me = None"
| "motion_after_leave _ me \<longleftrightarrow> False"

fun pointer_run :: "pointer_event list \<Rightarrow> 'w client_input \<Rightarrow> 'w client_input" where
  "pointer_run [] me = me"
| "pointer_run (e # es) me = pointer_run es (pointer_listener e me)"

fun no_motion_after_leave :: "pointer_event list \<Rightarrow> 'w client_input \<Rightarrow> bool" where
  "no_motion_after_leave [] me \<longleftrightarrow> True"
| "no_motion_after_leave (e # es) me \<longleftrightarrow>
     \<not> motion_after_leave e me \<and> no_motion_after_leave es (pointer_listener e me)"

text \<open>The meaning of the touch protocol without frames, on the map of touches that are down.\<close>

fun touch_spec ::
    "touch_event \<Rightarrow> (int \<Rightarrow> surface_location option) \<Rightarrow> int \<Rightarrow> surface_location option" where
  "touch_spec (Touch_down serial time surf i x y) m =
     m(i \<mapsto> \<lparr>loc_surface = surf, loc_coordinates = (x, y)\<rparr>)"
| "touch_spec (Touch_up serial time i) m = m(i := None)"
| "touch_spec (Touch_motion time i x y) m =
     m(i := map_option (\<lambda>l. l\<lparr>loc_coordinates := (x, y)\<rparr>) (m i))"
| "touch_spec _ m = m"

text \<open>A touch moved and lifted between the same two frames, in either order.\<close>

fun moved_and_lifted :: "touch_event \<Rightarrow> 'w client_input \<Rightarrow> bool" where
  "moved_and_lifted (Touch_motion time i x y) me \<longleftrightarrow> i \<in> set (pending_up_touches me)"
| "moved_and_lifted (Touch_up serial time i) me \<longleftrightarrow> i \<in> dom (map_of (pending_touches me))"
| "moved_and_lifted _ me \<longleftrightarrow> False"

text \<open>The touches that will be down after the next frame.\<close>

definition touch_abs :: "'w client_input \<Rightarrow> int \<Rightarrow> surface_location option" where
  "touch_abs me =
     (map_of (current_touches me) |` (- set (pending_up_touches me))) ++ map_of (pending_touches me)"

section \<open>Lemmas\<close>

lemma notify_of_pointer_enter_eq [handler_defs]:
  "notify_of_pointer_enter surf pos me =
     me\<lparr>enter_notifiers := fst (erase_remove_if (enter_notifiers me) (surf, fst pos, snd pos) (world me)),
        world := snd (erase_remove_if (enter_notifiers me) (surf, fst pos, snd pos) (world me))\<rparr>"
  by (simp add: notify_of_pointer_enter_def case_prod_beta)

lemma notify_of_pointer_leave_eq [handler_defs]:
  "notify_of_pointer_leave surf me =
     me\<lparr>leave_notifiers := fst (erase_remove_if (leave_notifiers me) surf (world me)),
        world := snd (erase_remove_if (leave_notifiers me) surf (world me))\<rparr>"
  by (simp add: notify_of_pointer_leave_def case_prod_beta)

lemma notify_of_pointer_motion_eq [handler_defs]:
  "notify_of_pointer_motion pos me =
     me\<lparr>motion_notifiers := fst (erase_remove_if (motion_notifiers me) pos (world me)),
        world := snd (erase_remove_if (motion_notifiers me) pos (world me))\<rparr>"
  by (simp add: notify_of_pointer_motion_def case_prod_beta)

lemma notify_of_pointer_buttons_frame:
  "\<exists>ns w. notify_of_pointer_buttons bs me = me\<lparr>button_notifiers := ns, world := w\<rparr>"
proof (induction bs arbitrary: me)
  case Nil
  have "notify_of_pointer_buttons [] me =
      me\<lparr>button_notifiers := button_notifiers me, world := world me\<rparr>"
    by (simp add: notify_of_pointer_buttons_def)
  then show ?case by blast
next
  case (Cons b bs)
  from Cons.IH [of "notify_of_pointer_button b me"] show ?case
    by (auto simp: notify_of_pointer_buttons_def notify_of_pointer_button_def case_prod_beta)
qed

lemma frame_buttons_fields [simp]:
  "current_pointer_location (frame_buttons me) = current_pointer_location me"
  "pending_pointer_location (frame_buttons me) = pending_pointer_location me"
  "pending_pointer_leave (frame_buttons me) = pending_pointer_leave me"
  "pending_buttons (frame_buttons me) = []"
  "current_touches (frame_buttons me) = current_touches me"
  "pending_touches (frame_buttons me) = pending_touches me"
  "pending_up_touches (frame_buttons me) = pending_up_touches me"
  "failures (frame_buttons me) = failures me"
  using notify_of_pointer_buttons_frame [of "pending_buttons me" me]
  by (auto simp: frame_buttons_def)

lemmas pointer_handler_defs =
  pointer_enter_def pointer_leave_def pointer_motion_def pointer_button_def
  pointer_frame_def frame_location_def

lemmas touch_handler_defs = touch_down_def touch_up_def touch_motion_def touch_frame_def

lemmas keyboard_handler_defs =
  keyboard_keymap_def keyboard_enter_def keyboard_leave_def keyboard_key_def

lemma keyboard_listener_ok: "input_ok me \<Longrightarrow> input_ok (keyboard_listener e me)"
  by (cases e) (auto simp: input_ok_def keyboard_handler_defs Let_def)

lemma pointer_listener_ok: "input_ok me \<Longrightarrow> input_ok (pointer_listener e me)"
  by (cases e)
     (auto simp: input_ok_def pointer_handler_defs handler_defs gtest_fail_def Let_def
        split: option.splits)

lemma touch_frame_current:
  "map_of (current_touches (touch_frame me)) =
     (map_of (current_touches me) |` (- set (pending_up_touches me)))
       ++ map_of (rev (pending_touches me))"
  by (simp add: touch_frame_def smap.find_put_all smap.find_erase_all)

lemma touch_frame_sorted:
  "key_sorted (current_touches me) \<Longrightarrow> key_sorted (current_touches (touch_frame me))"
  by (simp add: touch_frame_def smap.ok_put_all smap.ok_erase_all)

lemma same_surface_empty [simp]: "same_surface m Map.empty"
  by (simp add: same_surface_def)

lemma same_surface_put_new:
  "same_surface m n \<Longrightarrow> m i = None \<Longrightarrow> same_surface m (n(i \<mapsto> l))"
  by (simp add: same_surface_def)

lemma same_surface_put_moved:
  "same_surface m n \<Longrightarrow> m i = Some l \<Longrightarrow> loc_surface l' = loc_surface l \<Longrightarrow>
   same_surface m (n(i \<mapsto> l'))"
  by (simp add: same_surface_def)

lemma touch_frame_ok:
  assumes "input_ok me"
  shows "input_ok (touch_frame me)"
  using assms touch_frame_sorted [of me] by (simp add: input_ok_def touch_frame_def)

lemma touch_down_ok: "input_ok me \<Longrightarrow> input_ok (touch_down serial time surf i x y me)"
  by (cases "map_of (current_touches me) i")
     (simp_all add: input_ok_def same_surface_put_new touch_down_def gtest_fail_def Let_def)

lemma touch_up_ok: "input_ok me \<Longrightarrow> input_ok (touch_up serial time i me)"
  by (cases "map_of (current_touches me) i")
     (simp_all add: input_ok_def touch_up_def gtest_fail_def Let_def domIff)

lemma touch_motion_ok: "input_ok me \<Longrightarrow> input_ok (touch_motion time i x y me)"
  by (cases "map_of (current_touches me) i")
     (simp_all add: input_ok_def same_surface_put_moved touch_motion_def gtest_fail_def)

lemma touch_listener_ok:
  "input_ok me \<Longrightarrow> touch_listener e = Some h \<Longrightarrow> input_ok (h me)"
  by (cases e) (auto simp: touch_down_ok touch_up_ok touch_motion_ok touch_frame_ok)

lemma dispatch_input_ok:
  "input_ok me \<Longrightarrow> dispatch_input e me = Some me' \<Longrightarrow> input_ok me'"
  by (cases e) (auto simp: keyboard_listener_ok pointer_listener_ok touch_listener_ok)

lemma initial_input_ok: "input_ok (initial_input w)"
  by (simp add: input_ok_def same_surface_def initial_input_def)

lemma input_ok_reachable: "input_reachable me \<Longrightarrow> input_ok me"
proof (induction rule: input_reachable.induct)
  case (event me e me')
  then show ?case by (blast intro: dispatch_input_ok)
next
  case (start w)
  show ?case by (rule initial_input_ok)
qed (simp_all add: input_ok_def add_pointer_enter_notification_def
       add_pointer_leave_notification_def add_pointer_motion_notification_def
       add_pointer_button_notification_def)

lemma pointer_listener_failures:
  "\<exists>fs. failures (pointer_listener e me) = failures me @ fs"
  by (cases e)
     (auto simp: pointer_handler_defs handler_defs gtest_fail_def Let_def split: option.splits)

lemma pointer_run_failures: "\<exists>fs. failures (pointer_run es me) = failures me @ fs"
proof (induction es arbitrary: me)
  case (Cons e es)
  obtain fs where fs: "failures (pointer_listener e me) = failures me @ fs"
    using pointer_listener_failures by blast
  obtain gs where "failures (pointer_run es (pointer_listener e me)) =
      failures (pointer_listener e me) @ gs"
    using Cons.IH by blast
  with fs show ?case by simp
qed simp

lemma pointer_run_no_failure:
  assumes "failures (pointer_run (e # es) me) = failures me"
  shows "failures (pointer_listener e me) = failures me"
    and "failures (pointer_run es (pointer_listener e me)) = failures (pointer_listener e me)"
proof -
  obtain fs where fs: "failures (pointer_listener e me) = failures me @ fs"
    using pointer_listener_failures by blast
  obtain gs where gs: "failures (pointer_run es (pointer_listener e me)) =
      failures (pointer_listener e me) @ gs"
    using pointer_run_failures by blast
  from assms fs gs have "fs = [] \<and> gs = []" by simp
  with fs gs show "failures (pointer_listener e me) = failures me"
    and "failures (pointer_run es (pointer_listener e me)) = failures (pointer_listener e me)"
    by simp_all
qed

lemma pointer_run_append: "pointer_run (es @ es') me = pointer_run es' (pointer_run es me)"
  by (induction es arbitrary: me) auto

lemma pointer_run_ok: "input_ok me \<Longrightarrow> input_ok (pointer_run es me)"
  by (induction es arbitrary: me) (auto simp: pointer_listener_ok)

lemma pointer_frame_abs:
  assumes "input_ok me"
  shows "current_pointer_location (pointer_frame me) = pointer_abs me"
    and "pending_pointer_location (pointer_frame me) = None"
    and "\<not> pending_pointer_leave (pointer_frame me)"
  using assms
  by (auto simp: input_ok_def pointer_frame_def frame_location_def handler_defs pointer_abs_def
        Let_def split: option.split)

lemma pointer_frame_failures: "input_ok me \<Longrightarrow> failures (pointer_frame me) = failures me"
  by (auto simp: input_ok_def pointer_frame_def frame_location_def handler_defs Let_def
        split: option.split)

lemma pointer_listener_refines:
  assumes "input_ok me" and "failures (pointer_listener e me) = failures me"
    and "\<not> motion_after_leave e me"
  shows "pointer_abs (pointer_listener e me) = pointer_spec e (pointer_abs me)"
proof (cases e)
  case Pointer_frame
  then show ?thesis using pointer_frame_abs [OF assms(1)] by (simp add: pointer_abs_def)
qed (use assms in \<open>auto simp: pointer_abs_def pointer_enter_def pointer_leave_def pointer_motion_def
       pointer_button_def gtest_fail_def Let_def split: option.splits if_splits\<close>)

lemma pointer_run_refines:
  assumes "input_ok me" and "failures (pointer_run es me) = failures me"
    and "no_motion_after_leave es me"
  shows "pointer_abs (pointer_run es me) = fold pointer_spec es (pointer_abs me)"
  using assms
proof (induction es arbitrary: me)
  case (Cons e es)
  note nf = pointer_run_no_failure [OF Cons.prems(2)]
  have "pointer_abs (pointer_listener e me) = pointer_spec e (pointer_abs me)"
    using Cons.prems nf by (intro pointer_listener_refines) auto
  with Cons.IH [OF pointer_listener_ok [OF Cons.prems(1)] nf(2)] Cons.prems(3) show ?case by simp
qed simp

lemma touch_frame_abs:
  "input_ok me \<Longrightarrow> map_of (current_touches (touch_frame me)) = touch_abs me"
  by (simp add: touch_frame_current touch_abs_def input_ok_def map_of_rev_distinct key_sorted_distinct)

lemma touched_window_from_same:
  assumes "\<And>t. t \<in> set ts \<Longrightarrow> loc_surface (snd t) \<noteq> nullptr" and "surf \<noteq> nullptr"
  shows "touched_window_from surf ts =
    (if \<forall>t \<in> set ts. loc_surface (snd t) = surf then Inr surf
     else Inl (Runtime_error ''Multiple surfaces have active touches''))"
  using assms by (induction ts arbitrary: surf) auto

lemma touch_down_refines:
  assumes "failures (touch_down s t surf i x y me) = failures me"
  shows "touch_abs (touch_down s t surf i x y me) = touch_spec (Touch_down s t surf i x y) (touch_abs me)"
proof (cases "map_of (current_touches me) i")
  case None
  then show ?thesis by (simp add: touch_down_def touch_abs_def Let_def)
next
  case (Some l)
  with assms show ?thesis by (simp add: touch_down_def gtest_fail_def Let_def)
qed

lemma touch_up_refines:
  assumes "failures (touch_up s t i me) = failures me" and "map_of (pending_touches me) i = None"
  shows "touch_abs (touch_up s t i me) = touch_spec (Touch_up s t i) (touch_abs me)"
proof (cases "map_of (current_touches me) i")
  case None
  with assms show ?thesis by (simp add: touch_up_def gtest_fail_def Let_def)
next
  case (Some l)
  then have "touch_abs (touch_up s t i me) =
      (map_of (current_touches me) |` (- insert i (set (pending_up_touches me))))
        ++ map_of (pending_touches me)"
    by (simp add: touch_up_def touch_abs_def Let_def)
  then show ?thesis using assms(2)
    by (auto simp: touch_abs_def fun_eq_iff map_add_def restrict_map_def split: option.split)
qed

lemma touch_motion_refines:
  assumes ok: "input_ok me" and nf: "failures (touch_motion t i x y me) = failures me"
    and down: "i \<notin> set (pending_up_touches me)"
  shows "touch_abs (touch_motion t i x y me) = touch_spec (Touch_motion t i x y) (touch_abs me)"
proof (cases "map_of (current_touches me) i")
  case None
  with nf show ?thesis by (simp add: touch_motion_def gtest_fail_def)
next
  case (Some l)
  have same: "map_of (pending_touches me) i = None \<or>
      map_option loc_surface (map_of (pending_touches me) i) = Some (loc_surface l)"
    using ok Some by (auto simp: input_ok_def same_surface_def dest!: spec [where x = i])
  have "map_option loc_surface (touch_abs me i) = Some (loc_surface l)"
    using same down Some by (auto simp: touch_abs_def map_add_def split: option.split)
  then have "map_option (\<lambda>l. l\<lparr>loc_coordinates := (x, y)\<rparr>) (touch_abs me i) =
      Some \<lparr>loc_surface = loc_surface l, loc_coordinates = (x, y)\<rparr>"
    by auto
  moreover have "touch_abs (touch_motion t i x y me) =
      (touch_abs me)(i \<mapsto> \<lparr>loc_surface = loc_surface l, loc_coordinates = (x, y)\<rparr>)"
    using Some by (simp add: touch_motion_def touch_abs_def)
  ultimately show ?thesis by (simp only: touch_spec.simps)
qed

lemma touch_spec_refines:
  assumes ok: "input_ok me" and h: "touch_listener e = Some h"
    and nf: "failures (h me) = failures me" and clean: "\<not> moved_and_lifted e me"
  shows "touch_abs (h me) = touch_spec e (touch_abs me)"
proof (cases e)
  case (Touch_down serial time surf i x y)
  with h have "h = touch_down serial time surf i x y" by simp
  with Touch_down nf show ?thesis by (simp only: touch_down_refines)
next
  case (Touch_up serial time i)
  with h have "h = touch_up serial time i" by simp
  with Touch_up nf clean show ?thesis
    by (simp only: touch_up_refines moved_and_lifted.simps domIff not_not)
next
  case (Touch_motion time i x y)
  with h have "h = touch_motion time i x y" by simp
  with Touch_motion ok nf clean show ?thesis
    by (simp only: touch_motion_refines moved_and_lifted.simps not_False_eq_True)
next
  case Touch_frame
  with h have "h me = touch_frame me" by simp
  with touch_frame_abs [OF ok] show ?thesis using Touch_frame
    by (simp add: touch_abs_def touch_frame_def restrict_map_def)
qed (use h in simp_all)

lemma pointer_buttons_run:
  "map_of (pending_buttons (pointer_run (map (\<lambda>(s, t, b, st). Pointer_button s t b st) bs) me)) =
     map_of (pending_buttons me) ++ map_of (rev (map (\<lambda>(s, t, b, st). (b, (s, st = 1))) bs))"
proof (induction bs arbitrary: me)
  case (Cons b bs)
  then show ?case
    by (cases b) (simp add: pointer_button_def Let_def map_add_def fun_eq_iff split: option.split)
qed simp

section \<open>Properties\<close>

text \<open>
  Claim C10. Whatever events the compositor sends and whatever notifiers the tests register, the
  input state stays well-formed; in particular a leave is pending only while the pointer is on a
  surface, so the failure branch of \<^verbatim>\<open>pointer_frame\<close> ("Pointer tried to leave when it was not
  on a surface") is never taken, and only touches that are down are waiting to be lifted.
\<close>

theorem input_state_invariant: "input_reachable me \<Longrightarrow> input_ok me"
  by (rule input_ok_reachable)

theorem input_state_invariant_witness:
  "input_ok (pointer_frame (pointer_enter 7 (Some 3) 10 20 (initial_input ())))"
proof (rule input_state_invariant)
  have "input_reachable (pointer_enter 7 (Some 3) 10 20 (initial_input ()))"
    by (rule input_reachable.event [OF input_reachable.start,
          of "Pointer_event (Pointer_enter 7 (Some 3) 10 20)"]) simp
  then show "input_reachable (pointer_frame (pointer_enter 7 (Some 3) 10 20 (initial_input ())))"
    by (rule input_reachable.event [of _ "Pointer_event Pointer_frame"]) simp
qed

text \<open>
  Claim C1. Buffering pointer events until the frame implements the pointer protocol: after any
  sequence of pointer events in which the client flags no failure and no motion follows a leave
  inside a frame, the location the client reports after the next frame is the one obtained by
  applying the events one by one, and nothing is left pending.
\<close>

theorem pointer_frames_refine_protocol:
  assumes "input_reachable me"
    and "failures (pointer_run es me) = failures me"
    and "no_motion_after_leave es me"
  shows "current_pointer_location (pointer_run (es @ [Pointer_frame]) me) =
           fold pointer_spec es (pointer_abs me) \<and>
         \<not> pointer_events_pending (pointer_run (es @ [Pointer_frame]) me) \<and>
         failures (pointer_run (es @ [Pointer_frame]) me) = failures me"
proof -
  have ok: "input_ok me" using assms(1) by (rule input_ok_reachable)
  then have ok': "input_ok (pointer_run es me)" by (rule pointer_run_ok)
  have "pending_buttons (pointer_frame (pointer_run es me)) = []"
    using ok' by (auto simp: input_ok_def pointer_frame_def split: option.split)
  with pointer_frame_abs [OF ok'] pointer_frame_failures [OF ok']
    pointer_run_refines [OF ok assms(2,3)] assms(2)
  show ?thesis by (simp add: pointer_run_append pointer_events_pending_def)
qed

theorem pointer_frames_refine_protocol_witness:
  "current_pointer_location
     (pointer_run ([Pointer_enter 7 (Some 3) 10 20, Pointer_frame, Pointer_motion 5 11 21,
        Pointer_leave 8 (Some 3), Pointer_enter 9 (Some 4) 1 2] @ [Pointer_frame]) (initial_input ())) =
   Some \<lparr>loc_surface = Some 4, loc_coordinates = (1, 2)\<rparr>"
  using pointer_frames_refine_protocol [of "initial_input ()"
    "[Pointer_enter 7 (Some 3) 10 20, Pointer_frame, Pointer_motion 5 11 21,
      Pointer_leave 8 (Some 3), Pointer_enter 9 (Some 4) 1 2]", OF input_reachable.start]
  by (simp add: initial_input_def pointer_handler_defs frame_buttons_def handler_defs)

text \<open>
  A motion that follows a leave within one frame is accepted without a failure and puts
  the pointer back on the surface it had left, although the protocol has it on no surface.
\<close>

theorem motion_after_leave_reenters:
  assumes "current_pointer_location me = Some l"
    and "pending_pointer_location me = None" and "\<not> pending_pointer_leave me"
  shows "let me' = pointer_run [Pointer_leave s (loc_surface l), Pointer_motion t x y, Pointer_frame] me
         in failures me' = failures me \<and>
            current_pointer_location me' = Some (l\<lparr>loc_coordinates := (x, y)\<rparr>) \<and>
            pointer_spec (Pointer_motion t x y)
              (pointer_spec (Pointer_leave s (loc_surface l)) (pointer_abs me)) = None"
  using assms by (simp add: pointer_handler_defs handler_defs)

theorem motion_after_leave_reenters_witness:
  "let me = pointer_run [Pointer_enter 7 (Some 3) 10 20, Pointer_frame] (initial_input ());
       me' = pointer_run [Pointer_leave 8 (Some 3), Pointer_motion 0 1 2, Pointer_frame] me
   in current_pointer_location me' = Some \<lparr>loc_surface = Some 3, loc_coordinates = (1, 2)\<rparr>"
  using motion_after_leave_reenters [of
    "pointer_run [Pointer_enter 7 (Some 3) 10 20, Pointer_frame] (initial_input ())"
    "\<lparr>loc_surface = Some 3, loc_coordinates = (10, 20)\<rparr>" 8 0 1 2]
  by (simp add: initial_input_def pointer_handler_defs handler_defs Let_def)

text \<open>
  When the pointer crosses from one surface to another, the frame calls every leave
  notifier with the old surface before it calls every enter notifier with the new surface and
  position, calls no motion notifier, and reports the new surface as the one under the cursor.
\<close>

theorem frame_crossing_notifies:
  assumes "pending_pointer_leave me" and "current_pointer_location me = Some l"
    and "pending_pointer_location me = Some l'" and "pending_buttons me = []"
  shows "world (pointer_frame me) =
           fold (\<lambda>n w. snd (n (loc_surface l', fst (loc_coordinates l'), snd (loc_coordinates l')) w))
             (enter_notifiers me)
             (fold (\<lambda>n w. snd (n (loc_surface l) w)) (leave_notifiers me) (world me)) \<and>
         motion_notifiers (pointer_frame me) = motion_notifiers me \<and>
         window_under_cursor (pointer_frame me) = loc_surface l'"
  using assms
  by (simp add: pointer_frame_def frame_location_def frame_buttons_def handler_defs
        erase_remove_if_world window_under_cursor_def)

theorem frame_crossing_notifies_witness:
  "let note = (\<lambda>a w. (True, w @ [a]));
       me = (initial_input [])\<lparr>current_pointer_location := Some \<lparr>loc_surface = Some 1, loc_coordinates = (0, 0)\<rparr>,
              pending_pointer_location := Some \<lparr>loc_surface = Some 2, loc_coordinates = (5, 6)\<rparr>,
              pending_pointer_leave := True,
              leave_notifiers := [\<lambda>surf. note (Inl surf)], enter_notifiers := [\<lambda>a. note (Inr a)]\<rparr>
   in world (pointer_frame me) = [Inl (Some 1), Inr (Some 2, 5, 6)]"
  using frame_crossing_notifies [of
    "(initial_input [])\<lparr>current_pointer_location := Some \<lparr>loc_surface = Some 1, loc_coordinates = (0, 0)\<rparr>,
       pending_pointer_location := Some \<lparr>loc_surface = Some 2, loc_coordinates = (5, 6)\<rparr>,
       pending_pointer_leave := True,
       leave_notifiers := [\<lambda>surf w. (True, w @ [Inl surf])],
       enter_notifiers := [\<lambda>a w. (True, w @ [Inr a])]\<rparr>"
    "\<lparr>loc_surface = Some 1, loc_coordinates = (0, 0)\<rparr>"
    "\<lparr>loc_surface = Some 2, loc_coordinates = (5, 6)\<rparr>"]
  by (simp add: initial_input_def Let_def)

text \<open>
  Between two frames the client keeps one entry per button, the last one, so a press
  followed by a release of the same button in one frame is reported to the button notifiers as
  the release only; the entries are kept in ascending order of the button code.
\<close>

theorem buttons_coalesce:
  "input_ok me \<Longrightarrow>
   let me' = pointer_run (map (\<lambda>(s, t, b, st). Pointer_button s t b st) bs) me in
     map_of (pending_buttons me') =
       map_of (pending_buttons me) ++ map_of (rev (map (\<lambda>(s, t, b, st). (b, (s, st = 1))) bs)) \<and>
     sorted_wrt (<) (map fst (pending_buttons me'))"
  using pointer_run_ok [of me "map (\<lambda>(s, t, b, st). Pointer_button s t b st) bs"]
  by (simp add: pointer_buttons_run input_ok_def key_sorted_def)

theorem buttons_coalesce_witness:
  "map_of (pending_buttons (pointer_run
     (map (\<lambda>(s, t, b, st). Pointer_button s t b st) [(1, 0, 272, 1), (2, 0, 272, 0)])
     (initial_input ()))) 272 = Some (2, False)"
  using buttons_coalesce [OF initial_input_ok [of "()"], of "[(1, 0, 272, 1), (2, 0, 272, 0)]"]
  by (simp add: initial_input_def Let_def)

text \<open>
  Claim C3. Buffering touch events until the frame implements the touch protocol: an event that the
  client handles without recording a failure changes the touches that will be down after the next
  frame exactly as the protocol says, provided no touch is both moved and lifted between the same
  two frames; and the frame makes these the current touches.
\<close>

theorem touch_frames_refine_protocol:
  assumes "input_reachable me" and "touch_listener e = Some h"
    and "failures (h me) = failures me" and "\<not> moved_and_lifted e me"
  shows "touch_abs (h me) = touch_spec e (touch_abs me) \<and>
         map_of (current_touches (touch_frame (h me))) = touch_abs (h me) \<and>
         \<not> touch_events_pending (touch_frame (h me))"
proof -
  have ok: "input_ok me" using assms(1) by (rule input_ok_reachable)
  then have "input_ok (h me)" using assms(2) by (rule touch_listener_ok)
  then show ?thesis using touch_spec_refines [OF ok assms(2-4)]
    by (simp add: touch_frame_abs) (simp add: touch_events_pending_def touch_frame_def)
qed

theorem touch_frames_refine_protocol_witness:
  "map_of (current_touches (touch_frame (touch_down 1 0 (Some 4) 9 30 40 (initial_input ())))) 9 =
     Some \<lparr>loc_surface = Some 4, loc_coordinates = (30, 40)\<rparr>"
  using touch_frames_refine_protocol [of "initial_input ()" "Touch_down 1 0 (Some 4) 9 30 40",
    OF input_reachable.start touch_listener.simps(1)]
  by (simp add: touch_down_def initial_input_def touch_abs_def)

text \<open>
  A touch that is moved and lifted in the same frame stays down: \<^verbatim>\<open>touch_frame\<close>
  erases the lifted touches first and then stores the moved ones again. No failure is recorded.
\<close>

theorem moved_then_lifted_touch_stays_down:
  assumes "input_reachable me" and "map_of (current_touches me) i = Some l"
  shows "let me' = touch_frame (touch_up s t i (touch_motion t' i x y me)) in
           failures me' = failures me \<and>
           map_of (current_touches me') i =
             Some \<lparr>loc_surface = loc_surface l, loc_coordinates = (x, y)\<rparr>"
proof -
  let ?me = "touch_up s t i (touch_motion t' i x y me)"
  have "input_ok ?me"
    using assms(1) by (simp add: input_ok_reachable touch_up_ok touch_motion_ok)
  then show ?thesis using assms(2)
    by (simp add: Let_def touch_frame_abs)
       (simp add: touch_abs_def touch_up_def touch_motion_def touch_frame_def)
qed

theorem moved_then_lifted_touch_stays_down_witness:
  "let me = touch_frame (touch_down 1 0 (Some 4) 9 30 40 (initial_input ()));
       me' = touch_frame (touch_up 2 0 9 (touch_motion 0 9 31 41 me))
   in map_of (current_touches me') 9 = Some \<lparr>loc_surface = Some 4, loc_coordinates = (31, 41)\<rparr>"
proof -
  have "input_reachable (touch_down 1 0 (Some 4) 9 30 40 (initial_input ()))"
    by (rule input_reachable.event [OF input_reachable.start,
          of "Touch_event (Touch_down 1 0 (Some 4) 9 30 40)"]) simp
  then have "input_reachable (touch_frame (touch_down 1 0 (Some 4) 9 30 40 (initial_input ())))"
    by (rule input_reachable.event [of _ "Touch_event Touch_frame"]) simp
  then show ?thesis
    using moved_then_lifted_touch_stays_down [of
      "touch_frame (touch_down 1 0 (Some 4) 9 30 40 (initial_input ()))" 9
      "\<lparr>loc_surface = Some 4, loc_coordinates = (30, 40)\<rparr>" 2 0 0 31 41]
    by (simp add: Let_def touch_down_def initial_input_def touch_frame_def)
qed

text \<open>
  \<^verbatim>\<open>touched_window\<close> returns the one surface every active touch is on, the null
  surface when there is no touch, and throws exactly when two touches are on different surfaces
  (for touches on live surfaces).
\<close>

theorem touched_window_correct:
  assumes "\<And>t. t \<in> set (current_touches me) \<Longrightarrow> loc_surface (snd t) \<noteq> nullptr"
  shows "touched_window me =
    (case current_touches me of
       [] \<Rightarrow> Inr nullptr
     | t # ts \<Rightarrow>
         if \<forall>t' \<in> set (t # ts). loc_surface (snd t') = loc_surface (snd t)
         then Inr (loc_surface (snd t))
         else Inl (Runtime_error ''Multiple surfaces have active touches''))"
proof (cases "current_touches me")
  case (Cons t ts)
  with assms have "\<And>t'. t' \<in> set ts \<Longrightarrow> loc_surface (snd t') \<noteq> nullptr" "loc_surface (snd t) \<noteq> nullptr"
    by simp_all
  then show ?thesis
    by (simp add: Cons touched_window_def touched_window_from_same del: not_None_eq)
qed (simp add: touched_window_def)

theorem touched_window_correct_witness:
  "touched_window ((initial_input ())\<lparr>current_touches :=
     [(1, \<lparr>loc_surface = Some 4, loc_coordinates = (0, 0)\<rparr>),
      (2, \<lparr>loc_surface = Some 5, loc_coordinates = (0, 0)\<rparr>)]\<rparr>) =
   Inl (Runtime_error ''Multiple surfaces have active touches'')"
  by (subst touched_window_correct) auto

end
