(* ===== verification/Thread_Proxy.thy ===== *)
theory Thread_Proxy
  imports Prelude
begin

text \<open>
  \<^verbatim>\<open>src/thread_proxy.h\<close>: calling functions of the display server on the thread that runs its
  event loop. Arguments are copied byte by byte into a message, the message goes through a
  \<^verbatim>\<open>SOCK_SEQPACKET\<close> socket pair, the event loop reads it, copies the arguments out, runs the
  registered handler and sends its result back. \<^verbatim>\<open>NullProxy\<close> of
  \<^verbatim>\<open>src/in_process_server.cpp\<close> calls the function directly.

  The socket calls of the operating system are parameters (\<open>os\<close>); \<open>reliable\<close> is the documented
  behaviour the proofs need: a packet socket whose queue is empty takes a whole message, and
  receiving from a non-empty queue does not fail.
\<close>

section \<open>Bytes and object representations\<close>

type_synonym byte = "8 word"

text \<open>The object representation of a trivially copyable value: its bytes in memory.\<close>

type_synonym obj = "byte list"

text \<open>
  The representation of an unsigned integer of \<open>k\<close> bytes. Both ends of the socket are in the
  same process, so only the round trip matters and not the byte order.
\<close>

fun le_bytes :: "nat \<Rightarrow> nat \<Rightarrow> obj" where
  "le_bytes 0 n = []"
| "le_bytes (Suc k) n = of_nat (n mod 256) # le_bytes k (n div 256)"

fun le_value :: "obj \<Rightarrow> nat" where
  "le_value [] = 0"
| "le_value (b # bs) = unat b + 256 * le_value bs"

definition int_obj :: "int \<Rightarrow> obj" where
  "int_obj z = le_bytes 4 (nat (z mod 2 ^ 32))"

definition int_of_obj :: "obj \<Rightarrow> int" where
  "int_of_obj bs =
     (let n = int (le_value bs) in if n < 2 ^ 31 then n else n - 2 ^ 32)"

text \<open>\<^verbatim>\<open>memcpy\<close> into and out of a buffer of known length.\<close>

definition memcpy_to :: "byte list \<Rightarrow> nat \<Rightarrow> obj \<Rightarrow> byte list result" where
  "memcpy_to buffer offset src =
     (if offset + length src \<le> length buffer
      then Inr (take offset buffer @ src @ drop (offset + length src) buffer)
      else Inl (Undefined_behaviour ''memcpy past the end of the buffer''))"

definition memcpy_from :: "byte list \<Rightarrow> nat \<Rightarrow> obj result" where
  "memcpy_from buffer n =
     (if n \<le> length buffer then Inr (take n buffer)
      else Inl (Undefined_behaviour ''memcpy past the end of the buffer''))"

section \<open>Packing and unpacking arguments\<close>

fun arguments_size :: "obj list \<Rightarrow> nat" where
  "arguments_size [] = 0"
| "arguments_size (head # tail) = length head + arguments_size tail"

fun pack_buffer :: "byte list \<Rightarrow> nat \<Rightarrow> obj list \<Rightarrow> byte list result" where
  "pack_buffer buffer offset [] = Inr buffer"
| "pack_buffer buffer offset (arg # args) =
     (case memcpy_to buffer offset arg of
        Inl e \<Rightarrow> Inl e
      | Inr buffer' \<Rightarrow> pack_buffer buffer' (offset + length arg) args)"

text \<open>The argument types of a callable matter only through their sizes.\<close>

fun tuple_from_buffer :: "byte list \<Rightarrow> nat list \<Rightarrow> obj list result" where
  "tuple_from_buffer buffer [] = Inr []"
| "tuple_from_buffer buffer (size_head # size_tail) =
     (case memcpy_from buffer size_head of
        Inl e \<Rightarrow> Inl e
      | Inr arg \<Rightarrow>
          (case tuple_from_buffer (drop size_head buffer) size_tail of
             Inl e \<Rightarrow> Inl e
           | Inr args \<Rightarrow> Inr (arg # args)))"

section \<open>The proxy\<close>

definition max_arguments_size :: nat where
  "max_arguments_size = 1024"

definition max_message_size :: nat where
  "max_message_size = max_arguments_size + 4"

text \<open>Which thread runs an operation: the one that asked for it or the server's event loop.\<close>

datatype thread = Caller | Event_loop

type_synonym 's op = "thread \<Rightarrow> obj list \<Rightarrow> 's \<Rightarrow> obj \<times> 's"

text \<open>
  An entry of the \<^verbatim>\<open>handlers\<close> vector: the destructor's entry removes the event source; every
  other entry has the sizes of its arguments, the size of its result (\<open>None\<close> for
  \<^verbatim>\<open>void\<close>) and the callable.
\<close>

datatype (dead 's) handler =
    Remove_source
  | Op "nat list" "nat option" "'s op"

record 's thread_proxy =
  handlers :: "'s handler list"
  to_wayland :: "byte list list"
  to_client :: "byte list list"
  source_active :: bool
  fds_open :: bool

record os =
  os_send :: "byte list list \<Rightarrow> byte list \<Rightarrow> int + nat"
  os_recv :: "byte list list \<Rightarrow> int option"

definition thread_proxy_init :: "'s thread_proxy" where
  "thread_proxy_init =
     \<lparr>handlers = [Remove_source], to_wayland = [], to_client = [],
      source_active = True, fds_open = True\<rparr>"

text \<open>
  The \<^verbatim>\<open>static_assert\<close>s of \<^verbatim>\<open>register_op\<close>, in the form they have for the sizes: a
  \<^verbatim>\<open>std::tuple\<close> is at least as large as the sum of its parts.
\<close>

definition static_asserts :: "nat list \<Rightarrow> nat option \<Rightarrow> bool" where
  "static_asserts sizes ret \<longleftrightarrow>
     sum_list sizes < max_arguments_size \<and>
     (case ret of None \<Rightarrow> True | Some n \<Rightarrow> n < max_message_size)"

definition register_op ::
    "nat list \<Rightarrow> nat option \<Rightarrow> 's op \<Rightarrow> 's thread_proxy \<Rightarrow> nat \<times> 's thread_proxy" where
  "register_op sizes ret h tp =
     (length (handlers tp), tp\<lparr>handlers := handlers tp @ [Op sizes ret h]\<rparr>)"

text \<open>\<open>junk\<close> is the content of the uninitialised buffer on the stack.\<close>

definition send_message ::
    "os \<Rightarrow> byte list \<Rightarrow> nat \<Rightarrow> obj list \<Rightarrow> ('s thread_proxy, unit) eff" where
  "send_message os junk opcode args tp =
     (let message_size = 4 + arguments_size args in
      case memcpy_to junk 0 (le_bytes 4 opcode) of
        Inl e \<Rightarrow> (Inl e, tp)
      | Inr buffer \<Rightarrow>
          (case pack_buffer buffer 4 args of
             Inl e \<Rightarrow> (Inl e, tp)
           | Inr buffer \<Rightarrow>
               (case os_send os (to_wayland tp) (take message_size buffer) of
                  Inl errno \<Rightarrow>
                    (Inl (System_error errno ''Failed to send message to Wayland thread''), tp)
                | Inr written \<Rightarrow>
                    let tp = tp\<lparr>to_wayland :=
                               to_wayland tp @ [take written (take message_size buffer)]\<rparr> in
                    if written < message_size
                    then (Inl (Runtime_error ''Failed to send whole message to Wayland thread''), tp)
                    else (Inr (), tp))))"

text \<open>The outer \<open>None\<close> means that \<^verbatim>\<open>recv\<close> is still blocked.\<close>

definition wait_for_reply ::
    "os \<Rightarrow> nat \<Rightarrow> 's thread_proxy \<Rightarrow> (obj result \<times> 's thread_proxy) option" where
  "wait_for_reply os n tp =
     (case to_client tp of
        [] \<Rightarrow> None
      | reply # rest \<Rightarrow>
          Some (case os_recv os (to_client tp) of
             Some errno \<Rightarrow>
               (Inl (System_error errno ''Failed to receive reply from Wayland thread''), tp)
           | None \<Rightarrow>
               let tp = tp\<lparr>to_client := rest\<rparr>; buffer = take n reply in
               if length buffer < n
               then (Inl (Runtime_error ''Received short reply from Wayland thread''), tp)
               else (Inr buffer, tp)))"

text \<open>Sending the reply; the result of this \<^verbatim>\<open>send\<close> is not looked at.\<close>

definition send_reply :: "os \<Rightarrow> obj \<Rightarrow> 's thread_proxy \<Rightarrow> 's thread_proxy" where
  "send_reply os reply tp =
     (case os_send os (to_client tp) reply of
        Inl errno \<Rightarrow> tp
      | Inr written \<Rightarrow> tp\<lparr>to_client := to_client tp @ [take written reply]\<rparr>)"

fun recv_functor :: "os \<Rightarrow> 's handler \<Rightarrow> byte list \<Rightarrow> ('s thread_proxy \<times> 's, unit) eff" where
  "recv_functor os Remove_source data (tp, s) = (Inr (), (tp\<lparr>source_active := False\<rparr>, s))"
| "recv_functor os (Op sizes ret h) data (tp, s) =
     (case tuple_from_buffer data sizes of
        Inl e \<Rightarrow> (Inl e, (tp, s))
      | Inr args \<Rightarrow>
          (case h Event_loop args s of
             (v, s') \<Rightarrow>
               (Inr (), (send_reply os (case ret of None \<Rightarrow> [0] | Some n \<Rightarrow> v) tp, s'))))"

text \<open>The result of \<^verbatim>\<open>recv\<close> is not looked at: after an error the buffer holds whatever it held.\<close>

definition socket_readable :: "os \<Rightarrow> byte list \<Rightarrow> ('s thread_proxy \<times> 's, unit) eff" where
  "socket_readable os junk st =
     (case st of (tp, s) \<Rightarrow>
       (case to_wayland tp of
          [] \<Rightarrow> (Inr (), st)
        | message # rest \<Rightarrow>
            let (received, tp) =
                  (case os_recv os (to_wayland tp) of
                     Some errno \<Rightarrow> ([], tp)
                   | None \<Rightarrow> (take max_message_size message, tp\<lparr>to_wayland := rest\<rparr>));
                buffer = received @ drop (length received) junk;
                opcode = le_value (take 4 buffer)
            in if opcode < length (handlers tp)
               then recv_functor os (handlers tp ! opcode) (drop 4 buffer) (tp, s)
               else (Inl (Undefined_behaviour ''handlers[opcode] out of range''), (tp, s))))"

text \<open>
  The function \<^verbatim>\<open>register_op\<close> returns, run to completion: send, the event loop turns once, wait
  for the reply (one byte for a \<^verbatim>\<open>void\<close> operation).
\<close>

definition proxied_call ::
    "os \<Rightarrow> byte list \<Rightarrow> nat option \<Rightarrow> nat \<Rightarrow> obj list \<Rightarrow> 's thread_proxy \<times> 's \<Rightarrow>
     (obj result \<times> ('s thread_proxy \<times> 's)) option" where
  "proxied_call os junk ret opcode args st =
     (case st of (tp, s) \<Rightarrow>
       (case send_message os junk opcode args tp of
          (Inl e, tp) \<Rightarrow> Some (Inl e, (tp, s))
        | (Inr _, tp) \<Rightarrow>
            (case socket_readable os junk (tp, s) of
               (Inl e, st) \<Rightarrow> Some (Inl e, st)
             | (Inr _, (tp, s)) \<Rightarrow>
                 map_option (\<lambda>(r, tp). (r, (tp, s)))
                   (wait_for_reply os (case ret of None \<Rightarrow> 1 | Some n \<Rightarrow> n) tp))))"

text \<open>The destructor: ask for the event source to be removed, wait for nothing, close both ends.\<close>

definition thread_proxy_destructor ::
    "os \<Rightarrow> byte list \<Rightarrow> ('s thread_proxy, unit) eff" where
  "thread_proxy_destructor os junk =
     bindE (send_message os junk 0 []) (\<lambda>_ tp. (Inr (), tp\<lparr>fds_open := False\<rparr>))"

section \<open>Proxies as a family of operations\<close>

text \<open>
  What \<^verbatim>\<open>Pointer\<close>, \<^verbatim>\<open>Touch\<close>, \<^verbatim>\<open>Keyboard\<close> and \<^verbatim>\<open>Server\<close> use of a proxy: they are
  templates over it. A thunk is what \<^verbatim>\<open>register_op\<close> returns; calling it with the proxy state
  and the server state gives the result and the new states, or \<open>None\<close> when it blocks for ever.
\<close>

record ('p, 't, 's) proxy_ops =
  proxy_register :: "nat list \<Rightarrow> nat option \<Rightarrow> 's op \<Rightarrow> 'p \<Rightarrow> 't \<times> 'p"
  proxy_call :: "'t \<Rightarrow> obj list \<Rightarrow> 'p \<times> 's \<Rightarrow> (obj result \<times> ('p \<times> 's)) option"

definition NullProxy :: "(unit, 's op, 's) proxy_ops" where
  "NullProxy =
     \<lparr>proxy_register = (\<lambda>sizes ret h p. (h, p)),
      proxy_call = (\<lambda>h args (p, s). case h Caller args s of (v, s') \<Rightarrow> Some (Inr v, (p, s')))\<rparr>"

text \<open>A thread proxy whose thunk carries the opcode and the reply size.\<close>

definition ThreadProxy ::
    "os \<Rightarrow> byte list \<Rightarrow> ('s thread_proxy, nat \<times> nat option, 's) proxy_ops" where
  "ThreadProxy os junk =
     \<lparr>proxy_register = (\<lambda>sizes ret h p.
        case register_op sizes ret h p of (opcode, p) \<Rightarrow> ((opcode, ret), p)),
      proxy_call = (\<lambda>(opcode, ret) args st. proxied_call os junk ret opcode args st)\<rparr>"

section \<open>Several client threads\<close>

text \<open>
  Calls from several threads, interleaved. A call takes the mutex \<^verbatim>\<open>message_serialiser\<close>
  and sends its message, the event loop serves it, the caller receives the reply and releases the
  mutex. A step is one of these, by any thread.
\<close>

datatype call_pc =
    Idle
  | Want nat "obj list"
  | In_flight nat "obj list"
  | Returned nat "obj list" "obj result"

record 's proxy_sys =
  proxy :: "'s thread_proxy"
  server_state :: 's
  serialiser_holder :: "nat option"
  pcs :: "nat \<Rightarrow> call_pc"

definition reply_size :: "nat option \<Rightarrow> nat" where
  "reply_size ret = (case ret of None \<Rightarrow> 1 | Some n \<Rightarrow> n)"

text \<open>A call of a registered operation with arguments of its types, as the type system ensures.\<close>

definition good_call :: "'s handler list \<Rightarrow> nat \<Rightarrow> obj list \<Rightarrow> bool" where
  "good_call hs opcode args \<longleftrightarrow>
     opcode < length hs \<and> opcode < 2 ^ 32 \<and>
     (case hs ! opcode of
        Remove_source \<Rightarrow> False
      | Op sizes ret h \<Rightarrow>
          map length args = sizes \<and> static_asserts sizes ret \<and>
          (\<forall>n s. ret = Some n \<longrightarrow> length (fst (h Event_loop args s)) = n))"

definition op_ret :: "'s handler list \<Rightarrow> nat \<Rightarrow> nat option" where
  "op_ret hs opcode = (case hs ! opcode of Remove_source \<Rightarrow> None | Op sizes ret h \<Rightarrow> ret)"

inductive proxy_step :: "os \<Rightarrow> byte list \<Rightarrow> 's proxy_sys \<Rightarrow> 's proxy_sys \<Rightarrow> bool" for os junk where
  request: "pcs st i = Idle \<Longrightarrow> good_call (handlers (proxy st)) opcode args \<Longrightarrow>
     proxy_step os junk st (st\<lparr>pcs := (pcs st)(i := Want opcode args)\<rparr>)"
| send_ok: "pcs st i = Want opcode args \<Longrightarrow> serialiser_holder st = None \<Longrightarrow>
     send_message os junk opcode args (proxy st) = (Inr (), tp) \<Longrightarrow>
     proxy_step os junk st
       (st\<lparr>proxy := tp, serialiser_holder := Some i, pcs := (pcs st)(i := In_flight opcode args)\<rparr>)"
| send_throws: "pcs st i = Want opcode args \<Longrightarrow> serialiser_holder st = None \<Longrightarrow>
     send_message os junk opcode args (proxy st) = (Inl e, tp) \<Longrightarrow>
     proxy_step os junk st
       (st\<lparr>proxy := tp, pcs := (pcs st)(i := Returned opcode args (Inl e))\<rparr>)"
| serve: "to_wayland (proxy st) \<noteq> [] \<Longrightarrow>
     socket_readable os junk (proxy st, server_state st) = (Inr (), (tp, s)) \<Longrightarrow>
     proxy_step os junk st (st\<lparr>proxy := tp, server_state := s\<rparr>)"
| reply: "pcs st i = In_flight opcode args \<Longrightarrow> serialiser_holder st = Some i \<Longrightarrow>
     wait_for_reply os (reply_size (op_ret (handlers (proxy st)) opcode)) (proxy st) = Some (r, tp) \<Longrightarrow>
     proxy_step os junk st
       (st\<lparr>proxy := tp, serialiser_holder := None,
           pcs := (pcs st)(i := Returned opcode args r)\<rparr>)"
| collect: "pcs st i = Returned opcode args r \<Longrightarrow>
     proxy_step os junk st (st\<lparr>pcs := (pcs st)(i := Idle)\<rparr>)"

inductive proxy_reachable ::
    "os \<Rightarrow> byte list \<Rightarrow> 's handler list \<Rightarrow> 's \<Rightarrow> 's proxy_sys \<Rightarrow> bool" for os junk hs s0 where
  start: "proxy_reachable os junk hs s0
     \<lparr>proxy = thread_proxy_init\<lparr>handlers := hs\<rparr>, server_state = s0,
      serialiser_holder = None, pcs = (\<lambda>_. Idle)\<rparr>"
| step: "proxy_reachable os junk hs s0 st \<Longrightarrow> proxy_step os junk st st' \<Longrightarrow>
     proxy_reachable os junk hs s0 st'"

text \<open>
  The specification: every call is one atomic execution of its operation on the event loop thread.
\<close>

definition reply_of :: "nat option \<Rightarrow> obj \<Rightarrow> obj" where
  "reply_of ret v = (case ret of None \<Rightarrow> [0] | Some n \<Rightarrow> v)"

inductive atomic_reachable ::
    "'s handler list \<Rightarrow> 's \<Rightarrow> (nat \<Rightarrow> call_pc) \<Rightarrow> 's \<Rightarrow> bool" for hs s0 where
  start: "atomic_reachable hs s0 (\<lambda>_. Idle) s0"
| request: "atomic_reachable hs s0 pc s \<Longrightarrow> pc i = Idle \<Longrightarrow> good_call hs opcode args \<Longrightarrow>
     atomic_reachable hs s0 (pc(i := Want opcode args)) s"
| execute: "atomic_reachable hs s0 pc s \<Longrightarrow> pc i = Want opcode args \<Longrightarrow>
     hs ! opcode = Op sizes ret h \<Longrightarrow> h Event_loop args s = (v, s') \<Longrightarrow>
     atomic_reachable hs s0 (pc(i := Returned opcode args (Inr (reply_of ret v)))) s'"
| collect: "atomic_reachable hs s0 pc s \<Longrightarrow> pc i = Returned opcode args r \<Longrightarrow>
     atomic_reachable hs s0 (pc(i := Idle)) s"

text \<open>The operating system's part of the contract.\<close>

definition reliable :: "os \<Rightarrow> bool" where
  "reliable os \<longleftrightarrow>
     (\<forall>m. length m \<le> max_message_size \<longrightarrow> os_send os [] m = Inr (length m)) \<and>
     (\<forall>q. q \<noteq> [] \<longrightarrow> os_recv os q = None)"

text \<open>A concrete reliable system, for the witnesses.\<close>

definition perfect_os :: os where
  "perfect_os = \<lparr>os_send = (\<lambda>q m. Inr (length m)), os_recv = (\<lambda>q. None)\<rparr>"

text \<open>The atomic view of a state: a call in flight has happened once its reply is there.\<close>

definition atomic_pcs :: "'s proxy_sys \<Rightarrow> nat \<Rightarrow> call_pc" where
  "atomic_pcs st i =
     (case pcs st i of
        In_flight opcode args \<Rightarrow>
          (case to_client (proxy st) of
             [] \<Rightarrow> Want opcode args
           | r # _ \<Rightarrow> Returned opcode args (Inr r))
      | pc \<Rightarrow> pc)"

section \<open>Lemmas: bytes and messages\<close>

lemma length_le_bytes [simp]: "length (le_bytes k n) = k"
  by (induction k n rule: le_bytes.induct) auto

lemma le_value_le_bytes: "le_value (le_bytes k n) = n mod 256 ^ k"
proof (induction k n rule: le_bytes.induct)
  case (2 k n)
  have "n mod 256 + 256 * (n div 256 mod 256 ^ k) = n mod (256 * 256 ^ k)"
    by (metis mod_mult2_eq add.commute)
  moreover have "unat (of_nat (n mod 256) :: byte) = n mod 256"
    by (simp add: unat_of_nat)
  ultimately show ?case using 2 by simp
qed simp

lemma int_obj_round_trip:
  assumes "- (2 ^ 31) \<le> z" "z < 2 ^ 31"
  shows "int_of_obj (int_obj z) = z"
proof (cases "0 \<le> z")
  case True
  with assms show ?thesis by (simp add: int_of_obj_def int_obj_def le_value_le_bytes)
next
  case False
  have "z mod 2 ^ 32 = (z + 2 ^ 32) mod 2 ^ 32" by simp
  also have "\<dots> = z + 2 ^ 32" using False assms by (intro mod_pos_pos_trivial) auto
  finally have "z mod 2 ^ 32 = z + 2 ^ 32" .
  with False assms show ?thesis by (simp add: int_of_obj_def int_obj_def le_value_le_bytes)
qed

lemma arguments_size_eq: "arguments_size args = length (concat args)"
  by (induction args) auto

lemma arguments_size_sizes: "arguments_size args = sum_list (map length args)"
  by (induction args) auto

lemma pack_buffer_eq:
  "offset + arguments_size args \<le> length buffer \<Longrightarrow>
   pack_buffer buffer offset args =
     Inr (take offset buffer @ concat args @ drop (offset + arguments_size args) buffer)"
proof (induction args arbitrary: buffer offset)
  case (Cons arg args)
  let ?b = "take offset buffer @ arg @ drop (offset + length arg) buffer"
  have "length ?b = length buffer" using Cons.prems by simp
  moreover have "take (offset + length arg) ?b = take offset buffer @ arg"
    using Cons.prems by simp
  moreover have "drop (offset + length arg + arguments_size args) ?b =
      drop (offset + length arg + arguments_size args) buffer"
    using Cons.prems by (simp add: min_absorb2 ac_simps)
  ultimately show ?case
    using Cons.prems Cons.IH [of "offset + length arg" ?b] by (simp add: memcpy_to_def add.assoc)
qed simp

lemma tuple_from_buffer_concat:
  "tuple_from_buffer (concat args @ rest) (map length args) = Inr args"
  by (induction args) (auto simp: memcpy_from_def)

section \<open>Lemmas: one call\<close>

abbreviation message :: "nat \<Rightarrow> obj list \<Rightarrow> byte list" where
  "message opcode args \<equiv> le_bytes 4 opcode @ concat args"

lemma perfect_os_reliable: "reliable perfect_os"
  by (simp add: reliable_def perfect_os_def)

lemma reliable_send: "reliable os \<Longrightarrow> length m \<le> max_message_size \<Longrightarrow> os_send os [] m = Inr (length m)"
  by (simp add: reliable_def)

lemma reliable_recv: "reliable os \<Longrightarrow> os_recv os (m # q) = None"
  by (simp add: reliable_def)

lemma good_callE:
  assumes "good_call hs opcode args"
  obtains sizes ret h where "hs ! opcode = Op sizes ret h" and "map length args = sizes"
    and "static_asserts sizes ret" and "opcode < length hs" and "opcode < 2 ^ 32"
    and "\<And>n s. ret = Some n \<Longrightarrow> length (fst (h Event_loop args s)) = n"
  using assms by (cases "hs ! opcode") (auto simp: good_call_def)

lemma good_call_size: "good_call hs opcode args \<Longrightarrow> arguments_size args < max_arguments_size"
  by (erule good_callE) (simp add: static_asserts_def arguments_size_sizes)

lemma send_message_ok:
  assumes "reliable os" and "length junk = max_message_size"
    and "arguments_size args < max_arguments_size" and "to_wayland tp = []"
  shows "send_message os junk opcode args tp = (Inr (), tp\<lparr>to_wayland := [message opcode args]\<rparr>)"
proof -
  let ?b = "le_bytes 4 opcode @ drop 4 junk"
  have len: "4 + arguments_size args \<le> length junk"
    using assms(2,3) by (simp add: max_message_size_def)
  have m: "memcpy_to junk 0 (le_bytes 4 opcode) = Inr ?b"
    using len by (simp add: memcpy_to_def)
  have p: "pack_buffer ?b 4 args = Inr (message opcode args @ drop (4 + arguments_size args) ?b)"
    using len pack_buffer_eq [of 4 args ?b] by simp
  have t: "take (4 + arguments_size args) (message opcode args @ drop (4 + arguments_size args) ?b) =
      message opcode args"
    by (simp add: arguments_size_eq)
  have "os_send os [] (message opcode args) = Inr (4 + arguments_size args)"
    using assms(1) len assms(2) by (simp add: reliable_send arguments_size_eq)
  with t show ?thesis
    by (simp add: send_message_def m p assms(4) arguments_size_eq)
qed

lemma length_reply_of:
  assumes "good_call hs opcode args" and "hs ! opcode = Op sizes ret h" and "h Event_loop args s = (v, s')"
  shows "length (reply_of ret v) = reply_size ret" and "reply_size ret < max_message_size"
proof -
  have ret: "ret = Some n \<Longrightarrow> length v = n" for n
    using assms by (metis good_callE fst_conv handler.inject)
  then show "length (reply_of ret v) = reply_size ret"
    by (auto simp: reply_of_def reply_size_def split: option.split)
  show "reply_size ret < max_message_size"
    using assms(1,2) by (auto elim!: good_callE simp: static_asserts_def reply_size_def max_message_size_def
        split: option.splits)
qed

lemma socket_readable_ok:
  assumes "reliable os" and "to_wayland tp = [message opcode args]"
    and "to_client tp = []" and "good_call (handlers tp) opcode args"
    and "handlers tp ! opcode = Op sizes ret h" and "h Event_loop args s = (v, s')"
  shows "socket_readable os junk (tp, s) =
    (Inr (), (tp\<lparr>to_wayland := [], to_client := [reply_of ret v]\<rparr>, s'))"
proof -
  have small: "length (message opcode args) \<le> max_message_size"
    using good_call_size [OF assms(4)] by (simp add: arguments_size_eq max_message_size_def)
  then have r: "take max_message_size (message opcode args) = message opcode args" by simp
  have opc: "le_value (le_bytes 4 opcode) = opcode" and lt: "opcode < length (handlers tp)"
    and sz: "map length args = sizes"
    using assms(4,5) by (auto elim!: good_callE simp: le_value_le_bytes)
  have reply: "os_send os [] (reply_of ret v) = Inr (length (reply_of ret v))"
    using length_reply_of [OF assms(4-6)] assms(1) by (simp add: reliable_send)
  have unpack: "tuple_from_buffer (concat args @ rest) sizes = Inr args" for rest
    using tuple_from_buffer_concat [of args rest] sz by simp
  have sent: "send_reply os (reply_of ret v) (tp\<lparr>to_wayland := []\<rparr>) =
      tp\<lparr>to_wayland := [], to_client := [reply_of ret v]\<rparr>"
    using reply by (simp add: send_reply_def assms(3))
  have run: "recv_functor os (Op sizes ret h) (concat args @ rest) (tp\<lparr>to_wayland := []\<rparr>, s) =
      (Inr (), (tp\<lparr>to_wayland := [], to_client := [reply_of ret v]\<rparr>, s'))" for rest
    using sent by (simp add: unpack assms(6) reply_of_def)
  have head: "le_value (take 4 (message opcode args @ rest)) = opcode"
    and tail: "drop 4 (message opcode args @ rest) = concat args @ rest" for rest
    by (simp_all add: opc)
  show ?thesis
    unfolding socket_readable_def
    by (simp only: assms(2) prod.case list.case reliable_recv [OF assms(1)] option.case r Let_def head tail) (simp add: lt assms(5) run del: recv_functor.simps)
qed

lemma wait_for_reply_ok:
  "reliable os \<Longrightarrow> to_client tp = [r] \<Longrightarrow> length r = n \<Longrightarrow>
   wait_for_reply os n tp = Some (Inr r, tp\<lparr>to_client := []\<rparr>)"
  by (simp add: wait_for_reply_def reliable_recv)

lemma proxied_call_ok:
  assumes "reliable os" and "length junk = max_message_size"
    and "to_wayland tp = []" and "to_client tp = []" and "good_call (handlers tp) opcode args"
    and "handlers tp ! opcode = Op sizes ret h" and "h Event_loop args s = (v, s')"
  shows "proxied_call os junk ret opcode args (tp, s) = Some (Inr (reply_of ret v), (tp, s'))"
proof -
  have send: "send_message os junk opcode args tp = (Inr (), tp\<lparr>to_wayland := [message opcode args]\<rparr>)"
    using assms by (intro send_message_ok good_call_size) auto
  have serve: "socket_readable os junk (tp\<lparr>to_wayland := [message opcode args]\<rparr>, s) =
      (Inr (), (tp\<lparr>to_wayland := [], to_client := [reply_of ret v]\<rparr>, s'))"
    using socket_readable_ok [of os "tp\<lparr>to_wayland := [message opcode args]\<rparr>"] assms by simp
  have wait: "wait_for_reply os (reply_size ret) (tp\<lparr>to_wayland := [], to_client := [reply_of ret v]\<rparr>) =
      Some (Inr (reply_of ret v), tp)"
    using wait_for_reply_ok [of os "tp\<lparr>to_wayland := [], to_client := [reply_of ret v]\<rparr>"]
      length_reply_of [OF assms(5-7)] assms(1,3,4) by simp
  show ?thesis
    using wait by (simp add: proxied_call_def send serve reply_size_def del: split_paired_All)
qed

section \<open>Lemmas: interleaved calls\<close>

text \<open>
  The invariant: calls waiting or in flight are calls of registered operations; only the holder of
  the mutex is in flight, and then either its message or its reply is the only packet in the
  sockets; without a holder the sockets are empty.
\<close>

definition proxy_inv :: "'s handler list \<Rightarrow> 's proxy_sys \<Rightarrow> bool" where
  "proxy_inv hs st \<longleftrightarrow>
     handlers (proxy st) = hs \<and>
     (\<forall>i opcode args. pcs st i = Want opcode args \<longrightarrow> good_call hs opcode args) \<and>
     (\<forall>i opcode args. pcs st i = In_flight opcode args \<longrightarrow> serialiser_holder st = Some i) \<and>
     (case serialiser_holder st of
        None \<Rightarrow> to_wayland (proxy st) = [] \<and> to_client (proxy st) = []
      | Some i \<Rightarrow>
          \<exists>opcode args. pcs st i = In_flight opcode args \<and> good_call hs opcode args \<and>
            (to_wayland (proxy st) = [message opcode args] \<and> to_client (proxy st) = [] \<or>
             to_wayland (proxy st) = [] \<and>
             (\<exists>r. to_client (proxy st) = [r] \<and> length r = reply_size (op_ret hs opcode))))"

lemma proxy_inv_handlers: "proxy_inv hs st \<Longrightarrow> handlers (proxy st) = hs"
  by (simp add: proxy_inv_def)

lemma proxy_inv_want: "proxy_inv hs st \<Longrightarrow> pcs st i = Want opcode args \<Longrightarrow> good_call hs opcode args"
  by (simp add: proxy_inv_def)

lemma proxy_inv_free:
  "proxy_inv hs st \<Longrightarrow> serialiser_holder st = None \<Longrightarrow>
   to_wayland (proxy st) = [] \<and> to_client (proxy st) = [] \<and> (\<forall>i opc args. pcs st i \<noteq> In_flight opc args)"
  by (auto simp: proxy_inv_def)

lemma proxy_inv_only:
  assumes "proxy_inv hs st" and "serialiser_holder st = Some i" and "pcs st j = In_flight opc as"
  shows "j = i"
proof -
  have "serialiser_holder st = Some j" using assms(1,3) unfolding proxy_inv_def by blast
  with assms(2) show ?thesis by simp
qed

lemma proxy_inv_heldE:
  assumes "proxy_inv hs st" and "serialiser_holder st = Some i"
  obtains opcode args where "pcs st i = In_flight opcode args" and "good_call hs opcode args"
    and "to_wayland (proxy st) = [message opcode args]" and "to_client (proxy st) = []"
  | opcode args r where "pcs st i = In_flight opcode args" and "good_call hs opcode args"
    and "to_wayland (proxy st) = []" and "to_client (proxy st) = [r]"
    and "length r = reply_size (op_ret hs opcode)"
  using assms by (auto simp: proxy_inv_def)

lemma proxy_inv_wayland:
  "proxy_inv hs st \<Longrightarrow> to_wayland (proxy st) \<noteq> [] \<Longrightarrow> \<exists>i. serialiser_holder st = Some i"
  using proxy_inv_free by (cases "serialiser_holder st") blast+

text \<open>What each step does under the invariant, in terms of the atomic view.\<close>

lemma step_send:
  assumes "reliable os" "length junk = max_message_size" "proxy_inv hs st"
    and "pcs st i = Want opcode args" "serialiser_holder st = None"
  shows "send_message os junk opcode args (proxy st) =
    (Inr (), (proxy st)\<lparr>to_wayland := [message opcode args]\<rparr>)"
  using assms proxy_inv_free [OF assms(3,5)] proxy_inv_want [OF assms(3,4)]
  by (intro send_message_ok) (auto intro: good_call_size)

lemma step_serve:
  assumes rel: "reliable os" and inv: "proxy_inv hs st" and ne: "to_wayland (proxy st) \<noteq> []"
  obtains i opcode args sizes ret h v s' where
    "serialiser_holder st = Some i" "pcs st i = In_flight opcode args" "good_call hs opcode args"
    "to_client (proxy st) = []" "hs ! opcode = Op sizes ret h"
    "h Event_loop args (server_state st) = (v, s')"
    "socket_readable os junk (proxy st, server_state st) =
       (Inr (), ((proxy st)\<lparr>to_wayland := [], to_client := [reply_of ret v]\<rparr>, s'))"
proof -
  obtain i where i: "serialiser_holder st = Some i"
    using proxy_inv_wayland [OF inv ne] by blast
  from inv i obtain opcode args where pc: "pcs st i = In_flight opcode args"
    and good: "good_call hs opcode args" and w: "to_wayland (proxy st) = [message opcode args]"
    and c: "to_client (proxy st) = []"
    by (rule proxy_inv_heldE) (use ne in auto)
  from good obtain sizes ret h where h: "hs ! opcode = Op sizes ret h" by (rule good_callE)
  obtain v s' where v: "h Event_loop args (server_state st) = (v, s')" by (cases "h Event_loop args (server_state st)")
  have "good_call (handlers (proxy st)) opcode args" "handlers (proxy st) ! opcode = Op sizes ret h"
    using good h by (simp_all add: proxy_inv_handlers [OF inv])
  then have "socket_readable os junk (proxy st, server_state st) =
       (Inr (), ((proxy st)\<lparr>to_wayland := [], to_client := [reply_of ret v]\<rparr>, s'))"
    using v by (rule socket_readable_ok [OF rel w c])
  with that i pc good c h v show ?thesis by blast
qed

lemma step_reply:
  assumes rel: "reliable os" and inv: "proxy_inv hs st"
    and "pcs st i = In_flight opcode args" "serialiser_holder st = Some i"
    and w: "wait_for_reply os (reply_size (op_ret hs opcode)) (proxy st) = Some (r, tp)"
  obtains b where "to_client (proxy st) = [b]" "to_wayland (proxy st) = []" "r = Inr b"
    "tp = (proxy st)\<lparr>to_client := []\<rparr>"
  using inv assms(4)
proof (rule proxy_inv_heldE)
  fix opcode' args' assume "to_client (proxy st) = []"
  with w show thesis by (simp add: wait_for_reply_def)
next
  fix opcode' args' b
  assume "pcs st i = In_flight opcode' args'" "to_wayland (proxy st) = []"
    "to_client (proxy st) = [b]" "length b = reply_size (op_ret hs opcode')"
  with assms(3) that w wait_for_reply_ok [OF rel, of "proxy st" b] show thesis by auto
qed

lemma proxy_inv_step:
  assumes rel: "reliable os" and junk: "length junk = max_message_size"
    and st: "proxy_step os junk st st'" and inv: "proxy_inv hs st"
  shows "proxy_inv hs st'"
  using st
proof cases
  case (request i opcode args)
  then show ?thesis using inv
    by (auto simp: proxy_inv_def split: option.splits)
next
  case (send_ok i opcode args tp)
  have tp: "tp = (proxy st)\<lparr>to_wayland := [message opcode args]\<rparr>"
    using step_send [OF rel junk inv send_ok(2,3)] send_ok(4) by simp
  show ?thesis
    using inv proxy_inv_free [OF inv send_ok(3)] proxy_inv_want [OF inv send_ok(2)]
    unfolding send_ok(1) tp by (simp add: proxy_inv_def)
next
  case (send_throws i opcode args e tp)
  then show ?thesis using step_send [OF rel junk inv send_throws(2,3)] by simp
next
  case (serve tp s)
  obtain i opcode args sizes ret h v s' where
    *: "serialiser_holder st = Some i" "pcs st i = In_flight opcode args" "good_call hs opcode args"
      "to_client (proxy st) = []" "hs ! opcode = Op sizes ret h"
      "h Event_loop args (server_state st) = (v, s')"
      "socket_readable os junk (proxy st, server_state st) =
         (Inr (), ((proxy st)\<lparr>to_wayland := [], to_client := [reply_of ret v]\<rparr>, s'))"
    by (rule step_serve [OF rel inv serve(2)])
  have "length (reply_of ret v) = reply_size (op_ret hs opcode)"
    using length_reply_of(1) [OF *(3,5,6)] *(5) by (simp add: op_ret_def)
  with serve * inv show ?thesis by (auto simp: proxy_inv_def)
next
  case (reply i opcode args r tp)
  obtain b where b: "to_wayland (proxy st) = []" "tp = (proxy st)\<lparr>to_client := []\<rparr>"
    using step_reply [OF rel inv reply(2,3)] reply(4) proxy_inv_handlers [OF inv] by blast
  show ?thesis
    using inv b proxy_inv_only [OF inv reply(3)] unfolding reply(1) b(2)
    by (simp add: proxy_inv_def) blast
next
  case (collect i opcode args r)
  then show ?thesis using inv
    by (auto simp: proxy_inv_def split: option.splits)
qed

lemma proxy_inv_reachable:
  assumes "reliable os" and "length junk = max_message_size" and "proxy_reachable os junk hs s0 st"
  shows "proxy_inv hs st"
  using assms(3)
proof (induction rule: proxy_reachable.induct)
  case start
  show ?case by (simp add: proxy_inv_def thread_proxy_init_def)
next
  case (step st st')
  then show ?case using proxy_inv_step [OF assms(1,2)] by blast
qed

lemma atomic_pcs_update:
  assumes "\<And>opc as. pc \<noteq> In_flight opc as" and "pcs st' = (pcs st)(i := pc)"
    and "to_client (proxy st') = to_client (proxy st)"
  shows "atomic_pcs st' = (atomic_pcs st)(i := pc)"
  using assms by (auto simp: fun_eq_iff atomic_pcs_def split: call_pc.splits)

lemma atomic_pcs_only:
  assumes same: "\<And>j. j \<noteq> i \<Longrightarrow> pcs st' j = pcs st j"
    and only: "\<And>j opc as. pcs st j = In_flight opc as \<Longrightarrow> j = i"
  shows "atomic_pcs st' = (atomic_pcs st)(i := atomic_pcs st' i)"
proof
  fix j
  show "atomic_pcs st' j = ((atomic_pcs st)(i := atomic_pcs st' i)) j"
  proof (cases "j = i")
    case False
    with only have "pcs st j \<noteq> In_flight opc as" for opc as by blast
    with False same [of j] show ?thesis by (simp add: atomic_pcs_def split: call_pc.split)
  qed simp
qed

lemma atomic_step:
  assumes rel: "reliable os" and junk: "length junk = max_message_size"
    and st: "proxy_step os junk st st'" and inv: "proxy_inv hs st"
    and at: "atomic_reachable hs s0 (atomic_pcs st) (server_state st)"
  shows "atomic_reachable hs s0 (atomic_pcs st') (server_state st')"
  using st
proof cases
  case (request i opcode args)
  have "atomic_pcs st' = (atomic_pcs st)(i := Want opcode args)"
    by (rule atomic_pcs_update) (simp_all add: request)
  moreover have "atomic_pcs st i = Idle" using request(2) by (simp add: atomic_pcs_def)
  ultimately show ?thesis
    using atomic_reachable.request [OF at] request proxy_inv_handlers [OF inv] by simp
next
  case (send_ok i opcode args tp)
  have tp: "tp = (proxy st)\<lparr>to_wayland := [message opcode args]\<rparr>"
    using step_send [OF rel junk inv send_ok(2,3)] send_ok(4) by simp
  have "atomic_pcs st' = atomic_pcs st"
    using send_ok(2) proxy_inv_free [OF inv send_ok(3)]
    by (auto simp: send_ok(1) tp fun_eq_iff atomic_pcs_def split: call_pc.split)
  with at show ?thesis by (simp add: send_ok(1))
next
  case (send_throws i opcode args e tp)
  then show ?thesis using step_send [OF rel junk inv send_throws(2,3)] by simp
next
  case (serve tp s)
  obtain i opcode args sizes ret h v s' where
    *: "serialiser_holder st = Some i" "pcs st i = In_flight opcode args" "good_call hs opcode args"
      "to_client (proxy st) = []" "hs ! opcode = Op sizes ret h"
      "h Event_loop args (server_state st) = (v, s')"
      "socket_readable os junk (proxy st, server_state st) =
         (Inr (), ((proxy st)\<lparr>to_wayland := [], to_client := [reply_of ret v]\<rparr>, s'))"
    by (rule step_serve [OF rel inv serve(2)])
  note only = proxy_inv_only [OF inv *(1)]
  have tp: "tp = (proxy st)\<lparr>to_wayland := [], to_client := [reply_of ret v]\<rparr>"
    using serve(3) *(7) by simp
  have "atomic_pcs st' = (atomic_pcs st)(i := atomic_pcs st' i)"
    by (rule atomic_pcs_only [OF _ only]) (simp_all add: serve(1))
  moreover have "atomic_pcs st' i = Returned opcode args (Inr (reply_of ret v))"
    using *(2) by (simp add: serve(1) tp atomic_pcs_def)
  moreover have "atomic_pcs st i = Want opcode args" using *(2,4) by (simp add: atomic_pcs_def)
  moreover have "server_state st' = s'" using serve(1,3) *(7) by simp
  ultimately show ?thesis using atomic_reachable.execute [OF at _ *(5,6), of i] by simp
next
  case (reply i opcode args r tp)
  obtain b where b: "to_client (proxy st) = [b]" "r = Inr b" "tp = (proxy st)\<lparr>to_client := []\<rparr>"
    using step_reply [OF rel inv reply(2,3)] reply(4) proxy_inv_handlers [OF inv] by blast
  note only = proxy_inv_only [OF inv reply(3)]
  have "atomic_pcs st' = (atomic_pcs st)(i := atomic_pcs st' i)"
    by (rule atomic_pcs_only [OF _ only]) (simp_all add: reply(1))
  moreover have "atomic_pcs st' i = atomic_pcs st i"
    using reply(2) b(1,2) by (simp add: reply(1) atomic_pcs_def)
  ultimately have "atomic_pcs st' = atomic_pcs st" by simp
  with at show ?thesis by (simp add: reply(1))
next
  case (collect i opcode args r)
  have "atomic_pcs st' = (atomic_pcs st)(i := Idle)"
    by (rule atomic_pcs_update) (simp_all add: collect)
  moreover have "atomic_pcs st i = Returned opcode args r" using collect(2) by (simp add: atomic_pcs_def)
  ultimately show ?thesis using atomic_reachable.collect [OF at] collect by simp
qed

section \<open>The contract of a proxy\<close>

text \<open>
  What the users of a proxy rely on. \<open>room p k\<close>: no call is in progress and \<open>k\<close> more operations
  can be registered. \<open>has p t sizes ret h\<close>: the thunk \<open>t\<close> calls \<open>h\<close>. \<open>runs_on\<close> is the
  thread the operations run on.
\<close>

locale proxy_contract =
  fixes ops :: "('p, 't, 's) proxy_ops"
    and runs_on :: thread
    and room :: "'p \<Rightarrow> nat \<Rightarrow> bool"
    and has :: "'p \<Rightarrow> 't \<Rightarrow> nat list \<Rightarrow> nat option \<Rightarrow> 's op \<Rightarrow> bool"
  assumes room_Suc: "room p (Suc k) \<Longrightarrow> room p k"
    and register_has: "room p (Suc k) \<Longrightarrow> static_asserts sizes ret \<Longrightarrow>
      proxy_register ops sizes ret h p = (t, p') \<Longrightarrow> has p' t sizes ret h \<and> room p' k"
    and register_keeps: "has p t sizes ret h \<Longrightarrow>
      proxy_register ops sizes' ret' h' p = (t', p') \<Longrightarrow> has p' t sizes ret h"
    and call_runs: "room p k \<Longrightarrow> has p t sizes ret h \<Longrightarrow> map length args = sizes \<Longrightarrow>
      (\<And>n s. ret = Some n \<Longrightarrow> length (fst (h runs_on args s)) = n) \<Longrightarrow>
      \<exists>r. proxy_call ops t args (p, s) = Some (Inr r, (p, snd (h runs_on args s))) \<and>
          (ret \<noteq> None \<longrightarrow> r = fst (h runs_on args s))"
begin

lemma void_call_runs:
  assumes "room p k" and "has p t sizes None h" and "map length args = sizes"
  obtains r where "proxy_call ops t args (p, s) = Some (Inr r, (p, snd (h runs_on args s)))"
  using call_runs [OF assms] by blast

lemma value_call_runs:
  assumes "room p k" and "has p t sizes (Some n) h" and "map length args = sizes"
    and "\<And>s. length (fst (h runs_on args s)) = n"
  shows "proxy_call ops t args (p, s) =
    Some (Inr (fst (h runs_on args s)), (p, snd (h runs_on args s)))"
  using call_runs [OF assms(1-3)] assms(4) by fastforce

end

interpretation null_proxy: proxy_contract NullProxy Caller "\<lambda>p k. True" "\<lambda>p t sizes ret h. t = h"
  by unfold_locales (auto simp: NullProxy_def case_prod_beta)

definition thread_room :: "'s thread_proxy \<Rightarrow> nat \<Rightarrow> bool" where
  "thread_room tp k \<longleftrightarrow>
     to_wayland tp = [] \<and> to_client tp = [] \<and> length (handlers tp) + k \<le> 2 ^ 32"

definition thread_has ::
    "'s thread_proxy \<Rightarrow> nat \<times> nat option \<Rightarrow> nat list \<Rightarrow> nat option \<Rightarrow> 's op \<Rightarrow> bool" where
  "thread_has tp t sizes ret h \<longleftrightarrow>
     snd t = ret \<and> fst t < length (handlers tp) \<and> fst t < 2 ^ 32 \<and>
     handlers tp ! fst t = Op sizes ret h \<and> static_asserts sizes ret"

lemma thread_has_good_call:
  assumes "thread_has tp t sizes ret h" and "map length args = sizes"
    and "\<And>n s. ret = Some n \<Longrightarrow> length (fst (h Event_loop args s)) = n"
  shows "good_call (handlers tp) (fst t) args"
  using assms by (auto simp: thread_has_def good_call_def)

locale reliable_thread_proxy =
  fixes os :: os and junk :: "byte list"
  assumes os_reliable: "reliable os" and junk_size: "length junk = max_message_size"

sublocale reliable_thread_proxy \<subseteq> threaded: proxy_contract "ThreadProxy os junk" Event_loop thread_room thread_has
proof
  fix p :: "'s thread_proxy" and k
  show "thread_room p (Suc k) \<Longrightarrow> thread_room p k" by (simp add: thread_room_def)
next
  fix p p' :: "'s thread_proxy" and k sizes ret h t
  assume "thread_room p (Suc k)" "static_asserts sizes ret"
    "proxy_register (ThreadProxy os junk) sizes ret h p = (t, p')"
  then show "thread_has p' t sizes ret h \<and> thread_room p' k"
    by (auto simp: ThreadProxy_def register_op_def thread_room_def thread_has_def)
next
  fix p p' :: "'s thread_proxy" and t t' sizes ret h sizes' ret' h'
  assume "thread_has p t sizes ret h"
    "proxy_register (ThreadProxy os junk) sizes' ret' h' p = (t', p')"
  then show "thread_has p' t sizes ret h"
    by (auto simp: ThreadProxy_def register_op_def thread_has_def nth_append)
next
  fix p :: "'s thread_proxy" and k t sizes ret h args s
  assume room: "thread_room p k" and has: "thread_has p t sizes ret h"
    and sz: "map length args = sizes"
    and len: "\<And>n s. ret = Some n \<Longrightarrow> length (fst (h Event_loop args s)) = n"
  have "proxied_call os junk ret (fst t) args (p, s) =
      Some (Inr (reply_of ret (fst (h Event_loop args s))), (p, snd (h Event_loop args s)))"
    using room has thread_has_good_call [OF has sz len]
    by (intro proxied_call_ok [OF os_reliable junk_size]) (auto simp: thread_room_def thread_has_def)
  then show "\<exists>r. proxy_call (ThreadProxy os junk) t args (p, s) =
        Some (Inr r, (p, snd (h Event_loop args s))) \<and> (ret \<noteq> None \<longrightarrow> r = fst (h Event_loop args s))"
    using has by (cases t) (auto simp: ThreadProxy_def thread_has_def reply_of_def)
qed

interpretation perfect: reliable_thread_proxy perfect_os "replicate max_message_size 0"
  by unfold_locales (simp_all add: perfect_os_reliable)

section \<open>Properties\<close>

text \<open>
  Claim C4. Linearizability: under a reliable packet socket, whatever way calls of several client
  threads, the event loop and the replies interleave, the states of the callers and of the display
  server are those of an execution in which every call is a single atomic execution of its
  operation on the event loop thread, with exactly the arguments it was given, and returns that
  execution's result.
\<close>

theorem proxy_calls_linearizable:
  assumes "reliable os" and "length junk = max_message_size" and "proxy_reachable os junk hs s0 st"
  shows "atomic_reachable hs s0 (atomic_pcs st) (server_state st)"
  using assms(3)
proof (induction rule: proxy_reachable.induct)
  case start
  have "atomic_pcs \<lparr>proxy = thread_proxy_init\<lparr>handlers := hs\<rparr>, server_state = s0,
      serialiser_holder = None, pcs = (\<lambda>_. Idle)\<rparr> = (\<lambda>_. Idle)"
    by (simp add: fun_eq_iff atomic_pcs_def)
  then show ?case by (simp add: atomic_reachable.start)
next
  case (step st st')
  then show ?case
    using atomic_step [OF assms(1,2) step(2)] proxy_inv_reachable [OF assms(1,2) step(1)] by blast
qed

text \<open>Two operations on a counter: add an \<^verbatim>\<open>int\<close>, and read the counter.\<close>

definition counter_ops :: "int handler list" where
  "counter_ops =
     [Remove_source,
      Op [4] None (\<lambda>th args s. ([], s + int_of_obj (hd args))),
      Op [] (Some 4) (\<lambda>th args s. (int_obj s, s))]"

lemma counter_good_call: "good_call counter_ops (Suc 0) [int_obj 7]"
  by (simp add: good_call_def counter_ops_def int_obj_def static_asserts_def max_arguments_size_def)

lemma counter_requested:
  "proxy_reachable perfect_os (replicate max_message_size 0) counter_ops 0
     \<lparr>proxy = thread_proxy_init\<lparr>handlers := counter_ops\<rparr>, server_state = 0,
      serialiser_holder = None, pcs = (\<lambda>_. Idle)(3 := Want (Suc 0) [int_obj 7])\<rparr>"
proof -
  have "proxy_step perfect_os (replicate max_message_size 0)
     \<lparr>proxy = thread_proxy_init\<lparr>handlers := counter_ops\<rparr>, server_state = 0,
      serialiser_holder = None, pcs = (\<lambda>_. Idle)\<rparr>
     \<lparr>proxy = thread_proxy_init\<lparr>handlers := counter_ops\<rparr>, server_state = 0,
      serialiser_holder = None, pcs = (\<lambda>_. Idle)(3 := Want (Suc 0) [int_obj 7])\<rparr>"
    using proxy_step.request [where i = 3 and opcode = "Suc 0" and args = "[int_obj 7]" and
        st = "\<lparr>proxy = thread_proxy_init\<lparr>handlers := counter_ops\<rparr>, server_state = 0,
          serialiser_holder = None, pcs = (\<lambda>_. Idle)\<rparr>"] counter_good_call
    by simp
  with proxy_reachable.start show ?thesis by (rule proxy_reachable.step)
qed

lemma counter_sent:
  "proxy_reachable perfect_os (replicate max_message_size 0) counter_ops 0
     \<lparr>proxy = thread_proxy_init\<lparr>handlers := counter_ops, to_wayland := [message (Suc 0) [int_obj 7]]\<rparr>,
      server_state = 0, serialiser_holder = Some 3,
      pcs = (\<lambda>_. Idle)(3 := In_flight (Suc 0) [int_obj 7])\<rparr>"
proof -
  have "send_message perfect_os (replicate max_message_size 0) (Suc 0) [int_obj 7]
      (thread_proxy_init\<lparr>handlers := counter_ops\<rparr>) =
    (Inr (), thread_proxy_init\<lparr>handlers := counter_ops, to_wayland := [message (Suc 0) [int_obj 7]]\<rparr>)"
    by (subst send_message_ok)
       (simp_all add: perfect_os_reliable thread_proxy_init_def int_obj_def max_arguments_size_def)
  then show ?thesis
    using proxy_reachable.step [OF counter_requested proxy_step.send_ok, of 3 "Suc 0" "[int_obj 7]"] by simp
qed

theorem proxy_calls_linearizable_witness:
  "atomic_reachable counter_ops 0
     (atomic_pcs \<lparr>proxy = thread_proxy_init\<lparr>handlers := counter_ops, to_wayland := [message (Suc 0) [int_obj 7]]\<rparr>,
      server_state = 0, serialiser_holder = Some 3,
      pcs = (\<lambda>_. Idle)(3 := In_flight (Suc 0) [int_obj 7])\<rparr>) 0"
  using proxy_calls_linearizable [OF perfect_os_reliable _ counter_sent] by simp

text \<open>
  Claim C16. Deadlock freedom: in every reachable state in which a thread holds the message mutex,
  that thread is in a call, and either the event loop can serve its message (without undefined
  behaviour: the opcode is in range and no \<^verbatim>\<open>memcpy\<close> leaves its buffer) or the reply is there and
  \<^verbatim>\<open>wait_for_reply\<close> returns it. So a call never waits for a reply that is lost, and the mutex
  is always released.
\<close>

theorem proxy_calls_progress:
  assumes "reliable os" and "length junk = max_message_size" and "proxy_reachable os junk hs s0 st"
    and "serialiser_holder st = Some i"
  shows "\<exists>opcode args. pcs st i = In_flight opcode args \<and>
    ((\<exists>tp s r. socket_readable os junk (proxy st, server_state st) = (Inr (), (tp, s)) \<and>
        to_client tp = [r] \<and> length r = reply_size (op_ret hs opcode)) \<or>
     (\<exists>r tp. wait_for_reply os (reply_size (op_ret hs opcode)) (proxy st) = Some (Inr r, tp)))"
proof -
  have inv: "proxy_inv hs st" using assms(1-3) by (rule proxy_inv_reachable)
  from inv assms(4) show ?thesis
  proof (rule proxy_inv_heldE)
    fix opcode args
    assume pc: "pcs st i = In_flight opcode args" and "to_wayland (proxy st) = [message opcode args]"
    then have "to_wayland (proxy st) \<noteq> []" by simp
    from assms(1) inv this obtain i' opcode' args' sizes ret h v s' where
      *: "serialiser_holder st = Some i'" "pcs st i' = In_flight opcode' args'"
        "good_call hs opcode' args'" "hs ! opcode' = Op sizes ret h"
        "h Event_loop args' (server_state st) = (v, s')"
        "socket_readable os junk (proxy st, server_state st) =
           (Inr (), ((proxy st)\<lparr>to_wayland := [], to_client := [reply_of ret v]\<rparr>, s'))"
      by (rule step_serve)
    have "length (reply_of ret v) = reply_size (op_ret hs opcode')"
      using length_reply_of(1) [OF *(3-5)] *(4) by (simp add: op_ret_def)
    with * pc assms(4) show ?thesis by simp
  next
    fix opcode args r
    assume "pcs st i = In_flight opcode args" "to_client (proxy st) = [r]"
      "length r = reply_size (op_ret hs opcode)"
    then show ?thesis using wait_for_reply_ok [OF assms(1)] by blast
  qed
qed

theorem proxy_calls_progress_witness:
  "\<exists>opcode args. ((\<lambda>_. Idle)(3 := In_flight (Suc 0) [int_obj 7])) (3::nat) = In_flight opcode args"
  using proxy_calls_progress [OF perfect_os_reliable _ counter_sent, of 3] by auto

text \<open>
  Claim C17. Calling the functor \<^verbatim>\<open>register_op\<close> returned is calling the operation on the event
  loop: the call returns (it neither blocks nor throws), the result and the new server state are
  those of the registered callable applied to the caller's arguments, and the proxy is left as it
  was, ready for the next call, with every operation registered before still registered.
\<close>

theorem registered_call_is_operation:
  assumes "reliable os" and "length junk = max_message_size" and "thread_room tp (Suc k)"
    and "static_asserts (map length args) ret" and "register_op (map length args) ret h tp = (opcode, tp')"
    and "\<And>n s. ret = Some n \<Longrightarrow> length (fst (h Event_loop args s)) = n"
  shows "proxied_call os junk ret opcode args (tp', s) =
      Some (Inr (reply_of ret (fst (h Event_loop args s))), (tp', snd (h Event_loop args s))) \<and>
    take (length (handlers tp)) (handlers tp') = handlers tp"
proof
  have has: "thread_has tp' (opcode, ret) (map length args) ret h" and "thread_room tp' k"
    using assms(3-5) by (auto simp: thread_room_def thread_has_def register_op_def)
  then show "proxied_call os junk ret opcode args (tp', s) =
      Some (Inr (reply_of ret (fst (h Event_loop args s))), (tp', snd (h Event_loop args s)))"
    using thread_has_good_call [OF has refl assms(6)]
    by (intro proxied_call_ok [OF assms(1,2)]) (auto simp: thread_room_def thread_has_def)
  show "take (length (handlers tp)) (handlers tp') = handlers tp"
    using assms(5) by (auto simp: register_op_def)
qed

theorem registered_call_is_operation_witness:
  "proxied_call perfect_os (replicate max_message_size 0) (Some 4) 1 []
     (snd (register_op [] (Some 4) (\<lambda>th args s. (int_obj s, s)) thread_proxy_init), - 5) =
   Some (Inr (int_obj (- 5)),
     (snd (register_op [] (Some 4) (\<lambda>th args s. (int_obj s, s)) thread_proxy_init), - 5))"
  using registered_call_is_operation
    [OF perfect_os_reliable, of "replicate max_message_size 0" thread_proxy_init 0 "[]" "Some 4"
      "\<lambda>th args s. (int_obj s, s)" 1 "snd (register_op [] (Some 4) (\<lambda>th args s. (int_obj s, s)) thread_proxy_init)" "- 5"]
  by (simp add: thread_room_def thread_proxy_init_def static_asserts_def max_arguments_size_def
      max_message_size_def register_op_def int_obj_def reply_of_def)

text \<open>
  Claim C34. Marshalling: every argument list that passes the size check is packed without writing
  outside the buffer, changes nothing outside its slots, and is unpacked to the same arguments
  whatever follows it in the buffer.
\<close>

theorem pack_unpack_round_trip:
  assumes "offset + arguments_size args \<le> length buffer"
  shows "\<exists>packed. pack_buffer buffer offset args = Inr packed \<and> length packed = length buffer \<and>
    take offset packed = take offset buffer \<and>
    drop (offset + arguments_size args) packed = drop (offset + arguments_size args) buffer \<and>
    tuple_from_buffer (drop offset packed) (map length args) = Inr args"
proof -
  let ?p = "take offset buffer @ concat args @ drop (offset + arguments_size args) buffer"
  have off: "length (take offset buffer) = offset" using assms by simp
  then have "drop offset ?p = concat args @ drop (offset + arguments_size args) buffer"
    by (metis append_eq_conv_conj)
  moreover have "drop (offset + arguments_size args) ?p = drop (offset + arguments_size args) buffer"
    using off by (simp add: arguments_size_eq)
  ultimately show ?thesis
    using assms off by (auto simp: pack_buffer_eq tuple_from_buffer_concat arguments_size_eq)
qed

theorem pack_unpack_round_trip_witness:
  "\<exists>packed. pack_buffer (replicate 16 9) 4 [int_obj 3, int_obj (- 1)] = Inr packed \<and>
    tuple_from_buffer (drop 4 packed) [4, 4] = Inr [int_obj 3, int_obj (- 1)]"
  using pack_unpack_round_trip [of 4 "[int_obj 3, int_obj (- 1)]" "replicate 16 9"]
  by (auto simp: int_obj_def)

text \<open>
  The destructor posts the message that asks the event loop to remove the event source
  and then closes both ends of the socket without waiting: when it returns, the request is still
  unread and the source is still registered on descriptors that are closed.
\<close>

theorem destructor_leaves_request_unread:
  assumes "reliable os" and "length junk = max_message_size" and "to_wayland tp = []"
  shows "thread_proxy_destructor os junk tp =
    (Inr (), tp\<lparr>to_wayland := [le_bytes 4 0], fds_open := False\<rparr>)"
  using assms send_message_ok [of os junk "[]" tp 0]
  by (simp add: thread_proxy_destructor_def bindE_def max_arguments_size_def)

theorem destructor_leaves_request_unread_witness:
  "source_active (snd (thread_proxy_destructor perfect_os (replicate max_message_size 0) (thread_proxy_init :: int thread_proxy)))"
  using destructor_leaves_request_unread [OF perfect_os_reliable, of "replicate max_message_size 0" "thread_proxy_init :: int thread_proxy"]
  by (simp add: thread_proxy_init_def del: replicate.simps)

end
