(* ===== verification/Devices.thy ===== *)
theory Devices
  imports Thread_Proxy
begin

text \<open>
  \<^verbatim>\<open>Pointer\<close>, \<^verbatim>\<open>Touch\<close> and \<^verbatim>\<open>Keyboard\<close> of \<^verbatim>\<open>src/in_process_server.cpp\<close>: the handles
  through which a test moves the fake input devices of the display server. Each wraps a raw device
  of the server (a table of functions, a parameter here) and a proxy that brings its calls to the
  right thread. The wrappers are templates over the proxy, so their definitions take the
  operations of the proxy as an argument.
\<close>

section \<open>Calls through a proxy\<close>

text \<open>
  A call that returns, throws or blocks for ever (\<open>None\<close>), on the pair of the proxy's state and the
  server's state.
\<close>

type_synonym ('p, 's, 'a) pcall = "'p \<times> 's \<Rightarrow> ('a result \<times> ('p \<times> 's)) option"

definition call_thunk :: "('p, 't, 's) proxy_ops \<Rightarrow> 't \<Rightarrow> obj list \<Rightarrow> ('p, 's, unit) pcall" where
  "call_thunk ops t args st =
     map_option (\<lambda>(r, st'). (case r of Inl e \<Rightarrow> Inl e | Inr _ \<Rightarrow> Inr (), st')) (proxy_call ops t args st)"

definition pthen :: "('p, 's, unit) pcall \<Rightarrow> ('p, 's, 'a) pcall \<Rightarrow> ('p, 's, 'a) pcall" where
  "pthen f g st =
     (case f st of
        None \<Rightarrow> None
      | Some (Inl e, st') \<Rightarrow> Some (Inl e, st')
      | Some (Inr _, st') \<Rightarrow> g st')"

definition is_int :: "int \<Rightarrow> bool" where
  "is_int z \<longleftrightarrow> - (2 ^ 31) \<le> z \<and> z < 2 ^ 31"

section \<open>Pointer\<close>

text \<open>The functions of a \<^verbatim>\<open>WlcsPointer\<close>; every one of them runs on some thread.\<close>

record 's wlcs_pointer =
  move_absolute :: "thread \<Rightarrow> int \<Rightarrow> int \<Rightarrow> 's \<Rightarrow> 's"
  move_relative :: "thread \<Rightarrow> int \<Rightarrow> int \<Rightarrow> 's \<Rightarrow> 's"
  raw_button_down :: "thread \<Rightarrow> int \<Rightarrow> 's \<Rightarrow> 's"
  raw_button_up :: "thread \<Rightarrow> int \<Rightarrow> 's \<Rightarrow> 's"
  pointer_destroy :: "thread \<Rightarrow> 's \<Rightarrow> 's"

record 't pointer_impl =
  move_absolute_thunk :: 't
  move_relative_thunk :: 't
  button_down_thunk :: 't
  button_up_thunk :: 't
  destroy_thunk :: 't

definition int2_op :: "(thread \<Rightarrow> int \<Rightarrow> int \<Rightarrow> 's \<Rightarrow> 's) \<Rightarrow> 's op" where
  "int2_op f th args s = ([], f th (int_of_obj (args ! 0)) (int_of_obj (args ! 1)) s)"

definition int1_op :: "(thread \<Rightarrow> int \<Rightarrow> 's \<Rightarrow> 's) \<Rightarrow> 's op" where
  "int1_op f th args s = ([], f th (int_of_obj (args ! 0)) s)"

definition void_op :: "(thread \<Rightarrow> 's \<Rightarrow> 's) \<Rightarrow> 's op" where
  "void_op f th args s = ([], f th s)"

definition pointer_setup_thunks ::
    "('p, 't, 's) proxy_ops \<Rightarrow> 's wlcs_pointer \<Rightarrow> 'p \<Rightarrow> 't pointer_impl \<times> 'p" where
  "pointer_setup_thunks ops pointer p =
     (let (t_abs, p) = proxy_register ops [4, 4] None (int2_op (move_absolute pointer)) p;
          (t_rel, p) = proxy_register ops [4, 4] None (int2_op (move_relative pointer)) p;
          (t_down, p) = proxy_register ops [4] None (int1_op (raw_button_down pointer)) p;
          (t_up, p) = proxy_register ops [4] None (int1_op (raw_button_up pointer)) p;
          (t_destroy, p) = proxy_register ops [] None (void_op (pointer_destroy pointer)) p
      in (\<lparr>move_absolute_thunk = t_abs, move_relative_thunk = t_rel, button_down_thunk = t_down,
           button_up_thunk = t_up, destroy_thunk = t_destroy\<rparr>, p))"

text \<open>\<^verbatim>\<open>wl_fixed_from_int\<close> of libwayland is the parameter \<open>fixed\<close>.\<close>

definition pointer_move_to ::
    "('p, 't, 's) proxy_ops \<Rightarrow> (int \<Rightarrow> int) \<Rightarrow> 't pointer_impl \<Rightarrow> int \<Rightarrow> int \<Rightarrow> ('p, 's, unit) pcall" where
  "pointer_move_to ops fixed me x y =
     call_thunk ops (move_absolute_thunk me) [int_obj (fixed x), int_obj (fixed y)]"

definition pointer_move_by ::
    "('p, 't, 's) proxy_ops \<Rightarrow> (int \<Rightarrow> int) \<Rightarrow> 't pointer_impl \<Rightarrow> int \<Rightarrow> int \<Rightarrow> ('p, 's, unit) pcall" where
  "pointer_move_by ops fixed me dx dy =
     call_thunk ops (move_relative_thunk me) [int_obj (fixed dx), int_obj (fixed dy)]"

definition pointer_button_down ::
    "('p, 't, 's) proxy_ops \<Rightarrow> 't pointer_impl \<Rightarrow> int \<Rightarrow> ('p, 's, unit) pcall" where
  "pointer_button_down ops me button = call_thunk ops (button_down_thunk me) [int_obj button]"

definition pointer_button_up ::
    "('p, 't, 's) proxy_ops \<Rightarrow> 't pointer_impl \<Rightarrow> int \<Rightarrow> ('p, 's, unit) pcall" where
  "pointer_button_up ops me button = call_thunk ops (button_up_thunk me) [int_obj button]"

definition pointer_click ::
    "('p, 't, 's) proxy_ops \<Rightarrow> 't pointer_impl \<Rightarrow> int \<Rightarrow> ('p, 's, unit) pcall" where
  "pointer_click ops me button =
     pthen (pointer_button_down ops me button) (pointer_button_up ops me button)"

definition BTN_LEFT :: int where
  "BTN_LEFT = 272"

definition left_button_down ::
    "('p, 't, 's) proxy_ops \<Rightarrow> 't pointer_impl \<Rightarrow> ('p, 's, unit) pcall" where
  "left_button_down ops me = pointer_button_down ops me BTN_LEFT"

definition left_button_up ::
    "('p, 't, 's) proxy_ops \<Rightarrow> 't pointer_impl \<Rightarrow> ('p, 's, unit) pcall" where
  "left_button_up ops me = pointer_button_up ops me BTN_LEFT"

definition left_click ::
    "('p, 't, 's) proxy_ops \<Rightarrow> 't pointer_impl \<Rightarrow> ('p, 's, unit) pcall" where
  "left_click ops me = pointer_click ops me BTN_LEFT"

definition pointer_destructor ::
    "('p, 't, 's) proxy_ops \<Rightarrow> 't pointer_impl \<Rightarrow> ('p, 's, unit) pcall" where
  "pointer_destructor ops me = call_thunk ops (destroy_thunk me) []"

section \<open>Touch\<close>

record 's wlcs_touch =
  touch_version :: nat
  raw_touch_down :: "thread \<Rightarrow> int \<Rightarrow> int \<Rightarrow> 's \<Rightarrow> 's"
  raw_touch_move :: "thread \<Rightarrow> int \<Rightarrow> int \<Rightarrow> 's \<Rightarrow> 's"
  raw_touch_up :: "thread \<Rightarrow> 's \<Rightarrow> 's"
  touch_destroy :: "thread \<Rightarrow> 's \<Rightarrow> 's"

text \<open>
  The object: the raw device with the thunk that is the deleter of its \<^verbatim>\<open>unique_ptr\<close>, and the
  three thunks, which no method calls.
\<close>

record ('t, 's) touch_impl =
  touch :: "'s wlcs_touch"
  touch_deleter :: 't
  touch_down_thunk :: 't
  touch_move_thunk :: 't
  touch_up_thunk :: 't

definition WLCS_TOUCH_VERSION :: nat where
  "WLCS_TOUCH_VERSION = 1"

text \<open>The argument of the deleter is the device pointer: eight bytes.\<close>

definition touch_set_up_thunks ::
    "('p, 't, 's) proxy_ops \<Rightarrow> 's wlcs_touch \<Rightarrow> 't \<Rightarrow> 'p \<Rightarrow> ('t, 's) touch_impl \<times> 'p" where
  "touch_set_up_thunks ops dev deleter p =
     (let (t_down, p) = proxy_register ops [4, 4] None (int2_op (raw_touch_down dev)) p;
          (t_move, p) = proxy_register ops [4, 4] None (int2_op (raw_touch_move dev)) p;
          (t_up, p) = proxy_register ops [] None (void_op (raw_touch_up dev)) p
      in (\<lparr>touch = dev, touch_deleter = deleter, touch_down_thunk = t_down,
           touch_move_thunk = t_move, touch_up_thunk = t_up\<rparr>, p))"

definition touch_destructor ::
    "('p, 't, 's) proxy_ops \<Rightarrow> 't \<Rightarrow> obj \<Rightarrow> ('p, 's, unit) pcall" where
  "touch_destructor ops deleter raw_device = call_thunk ops deleter [raw_device]"

text \<open>
  The constructor. When the version check throws, the \<^verbatim>\<open>unique_ptr\<close> member has been built
  already, so its deleter runs.
\<close>

definition touch_ctor ::
    "('p, 't, 's) proxy_ops \<Rightarrow> 's wlcs_touch \<Rightarrow> obj \<Rightarrow> ('p, 's, ('t, 's) touch_impl) pcall" where
  "touch_ctor ops dev raw_device st =
     (case st of (p, s) \<Rightarrow>
       case proxy_register ops [8] None (void_op (touch_destroy dev)) p of (deleter, p) \<Rightarrow>
         if touch_version dev \<noteq> WLCS_TOUCH_VERSION
         then pthen (touch_destructor ops deleter raw_device)
                (\<lambda>st. Some (Inl (Runtime_error
                   (''Unexpected WlcsTouch version. Expected: '' @ nat_to_string WLCS_TOUCH_VERSION @
                    '' received: '' @ nat_to_string (touch_version dev))), st)) (p, s)
         else case touch_set_up_thunks ops dev deleter p of (me, p) \<Rightarrow> Some (Inr me, (p, s)))"

text \<open>These call the device on the thread of the caller.\<close>

definition touch_down_at :: "('t, 's) touch_impl \<Rightarrow> int \<Rightarrow> int \<Rightarrow> ('p, 's, unit) pcall" where
  "touch_down_at me x y st =
     (case st of (p, s) \<Rightarrow> Some (Inr (), (p, raw_touch_down (touch me) Caller x y s)))"

definition touch_move_to :: "('t, 's) touch_impl \<Rightarrow> int \<Rightarrow> int \<Rightarrow> ('p, 's, unit) pcall" where
  "touch_move_to me x y st =
     (case st of (p, s) \<Rightarrow> Some (Inr (), (p, raw_touch_move (touch me) Caller x y s)))"

definition touch_up_now :: "('t, 's) touch_impl \<Rightarrow> ('p, 's, unit) pcall" where
  "touch_up_now me st =
     (case st of (p, s) \<Rightarrow> Some (Inr (), (p, raw_touch_up (touch me) Caller s)))"

section \<open>Keyboard\<close>

record 's wlcs_keyboard =
  keyboard_version :: nat
  raw_key_down :: "thread \<Rightarrow> int \<Rightarrow> 's \<Rightarrow> 's"
  raw_key_up :: "thread \<Rightarrow> int \<Rightarrow> 's \<Rightarrow> 's"
  keyboard_destroy :: "thread \<Rightarrow> 's \<Rightarrow> 's"

record ('t, 's) keyboard_impl =
  keyboard :: "'s wlcs_keyboard"
  keyboard_deleter :: 't
  key_down_thunk :: 't
  key_up_thunk :: 't

definition WLCS_KEYBOARD_VERSION :: nat where
  "WLCS_KEYBOARD_VERSION = 1"

definition keyboard_set_up_thunks ::
    "('p, 't, 's) proxy_ops \<Rightarrow> 's wlcs_keyboard \<Rightarrow> 't \<Rightarrow> 'p \<Rightarrow> ('t, 's) keyboard_impl \<times> 'p" where
  "keyboard_set_up_thunks ops dev deleter p =
     (let (t_down, p) = proxy_register ops [4] None (int1_op (raw_key_down dev)) p;
          (t_up, p) = proxy_register ops [4] None (int1_op (raw_key_up dev)) p
      in (\<lparr>keyboard = dev, keyboard_deleter = deleter, key_down_thunk = t_down, key_up_thunk = t_up\<rparr>, p))"

definition keyboard_destructor ::
    "('p, 't, 's) proxy_ops \<Rightarrow> 't \<Rightarrow> obj \<Rightarrow> ('p, 's, unit) pcall" where
  "keyboard_destructor ops deleter raw_device = call_thunk ops deleter [raw_device]"

definition keyboard_ctor ::
    "('p, 't, 's) proxy_ops \<Rightarrow> 's wlcs_keyboard \<Rightarrow> obj \<Rightarrow> ('p, 's, ('t, 's) keyboard_impl) pcall" where
  "keyboard_ctor ops dev raw_device st =
     (case st of (p, s) \<Rightarrow>
       case proxy_register ops [8] None (void_op (keyboard_destroy dev)) p of (deleter, p) \<Rightarrow>
         if keyboard_version dev \<noteq> WLCS_KEYBOARD_VERSION
         then pthen (keyboard_destructor ops deleter raw_device)
                (\<lambda>st. Some (Inl (Runtime_error
                   (''Unexpected WlcsKeyboard version. Expected: '' @ nat_to_string WLCS_KEYBOARD_VERSION @
                    '' received: '' @ nat_to_string (keyboard_version dev))), st)) (p, s)
         else case keyboard_set_up_thunks ops dev deleter p of (me, p) \<Rightarrow> Some (Inr me, (p, s)))"

definition keyboard_key_down ::
    "('p, 't, 's) proxy_ops \<Rightarrow> ('t, 's) keyboard_impl \<Rightarrow> int \<Rightarrow> ('p, 's, unit) pcall" where
  "keyboard_key_down ops me scancode = call_thunk ops (key_down_thunk me) [int_obj scancode]"

definition keyboard_key_up ::
    "('p, 't, 's) proxy_ops \<Rightarrow> ('t, 's) keyboard_impl \<Rightarrow> int \<Rightarrow> ('p, 's, unit) pcall" where
  "keyboard_key_up ops me scancode = call_thunk ops (key_up_thunk me) [int_obj scancode]"

definition keyboard_press ::
    "('p, 't, 's) proxy_ops \<Rightarrow> ('t, 's) keyboard_impl \<Rightarrow> int \<Rightarrow> ('p, 's, unit) pcall" where
  "keyboard_press ops me scancode =
     pthen (keyboard_key_down ops me scancode) (keyboard_key_up ops me scancode)"

section \<open>Lemmas\<close>

lemma length_int_obj [simp]: "length (int_obj z) = 4"
  by (simp add: int_obj_def)

lemma int_of_obj_int_obj [simp]: "is_int z \<Longrightarrow> int_of_obj (int_obj z) = z"
  by (simp add: is_int_def int_obj_round_trip)

lemma static_asserts_small [simp]: "sum_list sizes < 1024 \<Longrightarrow> static_asserts sizes None"
  by (simp add: static_asserts_def max_arguments_size_def)

lemmas op_defs = int2_op_def int1_op_def void_op_def

lemma call_thunk_Some:
  "proxy_call ops t args st = Some (Inr r, st') \<Longrightarrow> call_thunk ops t args st = Some (Inr (), st')"
  by (simp add: call_thunk_def)

lemma pthen_Some: "f st = Some (Inr (), st') \<Longrightarrow> pthen f g st = g st'"
  by (simp add: pthen_def)

context proxy_contract
begin

lemma thunk_runs:
  assumes "room p k" and "has p t sizes None h" and "map length args = sizes"
  shows "call_thunk ops t args (p, s) = Some (Inr (), (p, snd (h runs_on args s)))"
  by (rule void_call_runs [OF assms, of s]) (rule call_thunk_Some)

lemma op_runs:
  assumes "room p k"
  shows "has p t [4, 4] None (int2_op f2) \<Longrightarrow> is_int a \<Longrightarrow> is_int b \<Longrightarrow>
      call_thunk ops t [int_obj a, int_obj b] (p, s) = Some (Inr (), (p, f2 runs_on a b s))"
    and "has p t [4] None (int1_op f1) \<Longrightarrow> is_int a \<Longrightarrow>
      call_thunk ops t [int_obj a] (p, s) = Some (Inr (), (p, f1 runs_on a s))"
    and "has p t [] None (void_op f0) \<Longrightarrow>
      call_thunk ops t [] (p, s) = Some (Inr (), (p, f0 runs_on s))"
    and "has p t [8] None (void_op f0) \<Longrightarrow> length raw = 8 \<Longrightarrow>
      call_thunk ops t [raw] (p, s) = Some (Inr (), (p, f0 runs_on s))"
  using thunk_runs [OF assms, of t "[4, 4]" "int2_op f2" "[int_obj a, int_obj b]" s]
    thunk_runs [OF assms, of t "[4]" "int1_op f1" "[int_obj a]" s]
    thunk_runs [OF assms, of t "[]" "void_op f0" "[]" s]
    thunk_runs [OF assms, of t "[8]" "void_op f0" "[raw]" s]
  by (simp_all add: op_defs)

lemma register_void:
  assumes "proxy_register ops sizes None h p = (t, p')" and "room p (Suc k)" and "sum_list sizes < 1024"
  shows "has p' t sizes None h" and "room p' k"
  using register_has [OF assms(2) _ assms(1)] assms(3) by simp_all

text \<open>What the thunks of a pointer and of a keyboard are bound to.\<close>

definition pointer_ready :: "'p \<Rightarrow> 't pointer_impl \<Rightarrow> 's wlcs_pointer \<Rightarrow> bool" where
  "pointer_ready p me dev \<longleftrightarrow>
     has p (move_absolute_thunk me) [4, 4] None (int2_op (move_absolute dev)) \<and>
     has p (move_relative_thunk me) [4, 4] None (int2_op (move_relative dev)) \<and>
     has p (button_down_thunk me) [4] None (int1_op (raw_button_down dev)) \<and>
     has p (button_up_thunk me) [4] None (int1_op (raw_button_up dev)) \<and>
     has p (destroy_thunk me) [] None (void_op (pointer_destroy dev))"

lemma pointer_ctor_ready:
  assumes "pointer_setup_thunks ops dev p = (me, p')" and "room p (k + 5)"
  shows "pointer_ready p' me dev" and "room p' k"
proof -
  obtain t1 p1 where 1: "proxy_register ops [4, 4] None (int2_op (move_absolute dev)) p = (t1, p1)"
    by fastforce
  obtain t2 p2 where 2: "proxy_register ops [4, 4] None (int2_op (move_relative dev)) p1 = (t2, p2)"
    by fastforce
  obtain t3 p3 where 3: "proxy_register ops [4] None (int1_op (raw_button_down dev)) p2 = (t3, p3)"
    by fastforce
  obtain t4 p4 where 4: "proxy_register ops [4] None (int1_op (raw_button_up dev)) p3 = (t4, p4)"
    by fastforce
  obtain t5 p5 where 5: "proxy_register ops [] None (void_op (pointer_destroy dev)) p4 = (t5, p5)"
    by fastforce
  have r: "room p (Suc (Suc (Suc (Suc (Suc k)))))" using assms(2) by (simp add: numeral_eq_Suc)
  note h1 = register_void [OF 1 r, simplified]
  note h2 = register_void [OF 2 h1(2), simplified]
  note h3 = register_void [OF 3 h2(2), simplified]
  note h4 = register_void [OF 4 h3(2), simplified]
  note h5 = register_void [OF 5 h4(2), simplified]
  have me: "me = \<lparr>move_absolute_thunk = t1, move_relative_thunk = t2, button_down_thunk = t3,
      button_up_thunk = t4, destroy_thunk = t5\<rparr>" and p': "p' = p5"
    using assms(1) by (simp_all add: pointer_setup_thunks_def 1 2 3 4 5)
  show "room p' k" using h5(2) p' by simp
  show "pointer_ready p' me dev"
    unfolding pointer_ready_def me p'
    using h5(1) register_keeps [OF h4(1) 5] register_keeps [OF register_keeps [OF h3(1) 4] 5]
      register_keeps [OF register_keeps [OF register_keeps [OF h2(1) 3] 4] 5]
      register_keeps [OF register_keeps [OF register_keeps [OF register_keeps [OF h1(1) 2] 3] 4] 5]
    by simp
qed

lemma pointer_calls:
  assumes "room p k" and "pointer_ready p me dev"
  shows "is_int (fixed x) \<Longrightarrow> is_int (fixed y) \<Longrightarrow> pointer_move_to ops fixed me x y (p, s) =
      Some (Inr (), (p, move_absolute dev runs_on (fixed x) (fixed y) s))"
    and "is_int (fixed x) \<Longrightarrow> is_int (fixed y) \<Longrightarrow> pointer_move_by ops fixed me x y (p, s) =
      Some (Inr (), (p, move_relative dev runs_on (fixed x) (fixed y) s))"
    and "is_int b \<Longrightarrow> pointer_button_down ops me b (p, s) =
      Some (Inr (), (p, raw_button_down dev runs_on b s))"
    and "is_int b \<Longrightarrow> pointer_button_up ops me b (p, s) =
      Some (Inr (), (p, raw_button_up dev runs_on b s))"
    and "pointer_destructor ops me (p, s) = Some (Inr (), (p, pointer_destroy dev runs_on s))"
  using assms
  by (simp_all add: pointer_ready_def pointer_move_to_def pointer_move_by_def pointer_button_down_def
      pointer_button_up_def pointer_destructor_def op_runs [OF assms(1)])

lemma pointer_click_runs:
  assumes "room p k" and "pointer_ready p me dev" and "is_int b"
  shows "pointer_click ops me b (p, s) =
    Some (Inr (), (p, raw_button_up dev runs_on b (raw_button_down dev runs_on b s)))"
  using pointer_calls [OF assms(1,2)] assms(3) by (simp add: pointer_click_def pthen_def)

definition keyboard_ready :: "'p \<Rightarrow> ('t, 's) keyboard_impl \<Rightarrow> 's wlcs_keyboard \<Rightarrow> bool" where
  "keyboard_ready p me dev \<longleftrightarrow>
     has p (key_down_thunk me) [4] None (int1_op (raw_key_down dev)) \<and>
     has p (key_up_thunk me) [4] None (int1_op (raw_key_up dev)) \<and>
     has p (keyboard_deleter me) [8] None (void_op (keyboard_destroy dev))"

lemma keyboard_ctor_ready:
  assumes "room p (k + 3)" and "keyboard_version dev = WLCS_KEYBOARD_VERSION"
  obtains me p' where "keyboard_ctor ops dev raw (p, s) = Some (Inr me, (p', s))"
    and "keyboard_ready p' me dev" and "room p' k"
proof -
  obtain t1 p1 where 1: "proxy_register ops [8] None (void_op (keyboard_destroy dev)) p = (t1, p1)"
    by fastforce
  obtain t2 p2 where 2: "proxy_register ops [4] None (int1_op (raw_key_down dev)) p1 = (t2, p2)"
    by fastforce
  obtain t3 p3 where 3: "proxy_register ops [4] None (int1_op (raw_key_up dev)) p2 = (t3, p3)"
    by fastforce
  have r: "room p (Suc (Suc (Suc k)))" using assms(1) by (simp add: numeral_eq_Suc)
  note h1 = register_void [OF 1 r, simplified]
  note h2 = register_void [OF 2 h1(2), simplified]
  note h3 = register_void [OF 3 h2(2), simplified]
  let ?me = "\<lparr>keyboard = dev, keyboard_deleter = t1, key_down_thunk = t2, key_up_thunk = t3\<rparr>"
  have "keyboard_ctor ops dev raw (p, s) = Some (Inr ?me, (p3, s))"
    using assms(2) by (simp add: keyboard_ctor_def keyboard_set_up_thunks_def 1 2 3)
  moreover have "keyboard_ready p3 ?me dev"
    using h3(1) register_keeps [OF h2(1) 3] register_keeps [OF register_keeps [OF h1(1) 2] 3]
    by (simp add: keyboard_ready_def)
  ultimately show ?thesis using h3(2) that by blast
qed

lemma keyboard_ctor_wrong_version:
  assumes "room p (Suc k)" and "keyboard_version dev \<noteq> WLCS_KEYBOARD_VERSION" and "length raw = 8"
  shows "\<exists>p' msg. keyboard_ctor ops dev raw (p, s) =
    Some (Inl (Runtime_error msg), (p', keyboard_destroy dev runs_on s))"
proof -
  obtain t1 p1 where 1: "proxy_register ops [8] None (void_op (keyboard_destroy dev)) p = (t1, p1)"
    by fastforce
  note h1 = register_void [OF 1 assms(1), simplified]
  show ?thesis
    using op_runs(4) [OF h1(2,1) assms(3)] assms(2)
    by (simp add: keyboard_ctor_def 1 keyboard_destructor_def pthen_def)
qed

lemma keyboard_press_runs:
  assumes "room p k" and "keyboard_ready p me dev" and "is_int c"
  shows "keyboard_press ops me c (p, s) =
    Some (Inr (), (p, raw_key_up dev runs_on c (raw_key_down dev runs_on c s)))"
  using assms(2) op_runs(2) [OF assms(1) _ assms(3), of "key_down_thunk me" "raw_key_down dev"]
    op_runs(2) [OF assms(1) _ assms(3), of "key_up_thunk me" "raw_key_up dev"]
  by (simp add: keyboard_ready_def keyboard_press_def keyboard_key_down_def keyboard_key_up_def pthen_def)

lemma touch_ctor_wrong_version:
  assumes "room p (Suc k)" and "touch_version dev \<noteq> WLCS_TOUCH_VERSION" and "length raw = 8"
  shows "\<exists>p' msg. touch_ctor ops dev raw (p, s) =
    Some (Inl (Runtime_error msg), (p', touch_destroy dev runs_on s))"
proof -
  obtain t1 p1 where 1: "proxy_register ops [8] None (void_op (touch_destroy dev)) p = (t1, p1)"
    by fastforce
  note h1 = register_void [OF 1 assms(1), simplified]
  show ?thesis
    using op_runs(4) [OF h1(2,1) assms(3)] assms(2)
    by (simp add: touch_ctor_def 1 touch_destructor_def pthen_def)
qed

lemma touch_ctor_ready:
  assumes "room p (k + 4)" and "touch_version dev = WLCS_TOUCH_VERSION"
  obtains me p' where "touch_ctor ops dev raw (p, s) = Some (Inr me, (p', s))"
    and "touch me = dev" and "has p' (touch_deleter me) [8] None (void_op (touch_destroy dev))"
    and "room p' k"
proof -
  obtain t1 p1 where 1: "proxy_register ops [8] None (void_op (touch_destroy dev)) p = (t1, p1)"
    by fastforce
  obtain t2 p2 where 2: "proxy_register ops [4, 4] None (int2_op (raw_touch_down dev)) p1 = (t2, p2)"
    by fastforce
  obtain t3 p3 where 3: "proxy_register ops [4, 4] None (int2_op (raw_touch_move dev)) p2 = (t3, p3)"
    by fastforce
  obtain t4 p4 where 4: "proxy_register ops [] None (void_op (raw_touch_up dev)) p3 = (t4, p4)"
    by fastforce
  have r: "room p (Suc (Suc (Suc (Suc k))))" using assms(1) by (simp add: numeral_eq_Suc)
  note h1 = register_void [OF 1 r, simplified]
  note h2 = register_void [OF 2 h1(2), simplified]
  note h3 = register_void [OF 3 h2(2), simplified]
  note h4 = register_void [OF 4 h3(2), simplified]
  let ?me = "\<lparr>touch = dev, touch_deleter = t1, touch_down_thunk = t2, touch_move_thunk = t3,
      touch_up_thunk = t4\<rparr>"
  have "touch_ctor ops dev raw (p, s) = Some (Inr ?me, (p4, s))"
    using assms(2) by (simp add: touch_ctor_def touch_set_up_thunks_def 1 2 3 4)
  moreover have "has p4 (touch_deleter ?me) [8] None (void_op (touch_destroy dev))"
    using register_keeps [OF register_keeps [OF register_keeps [OF h1(1) 2] 3] 4] by simp
  ultimately show ?thesis using h4(2) that [of ?me] by simp
qed

end

context reliable_thread_proxy
begin

lemma is_contract: "proxy_contract (ThreadProxy os junk) Event_loop thread_room thread_has"
  by (rule threaded.proxy_contract_axioms)

end

lemma thread_proxy_contract:
  "reliable os \<Longrightarrow> length junk = max_message_size \<Longrightarrow>
   proxy_contract (ThreadProxy os junk) Event_loop thread_room thread_has"
  by (rule reliable_thread_proxy.is_contract) (rule reliable_thread_proxy.intro)

section \<open>Properties\<close>

text \<open>
  A pointer created on a thread proxy runs on the server's event loop thread: moving to
  a position and clicking there executes, in this order and on that thread, the device's
  \<^verbatim>\<open>move_absolute\<close> with the fixed-point coordinates, \<^verbatim>\<open>button_down\<close> and \<^verbatim>\<open>button_up\<close>, and
  destroying the pointer destroys the device there. The calls return and leave room for the
  operations of further devices.
\<close>

theorem pointer_session_runs_on_event_loop:
  assumes "reliable os" and "length junk = max_message_size" and "thread_room p (k + 5)"
    and "pointer_setup_thunks (ThreadProxy os junk) dev p = (me, p')"
    and "is_int (fixed x)" and "is_int (fixed y)" and "is_int b"
  shows "pthen (pointer_move_to (ThreadProxy os junk) fixed me x y)
      (pthen (pointer_click (ThreadProxy os junk) me b) (pointer_destructor (ThreadProxy os junk) me)) (p', s) =
    Some (Inr (), (p', pointer_destroy dev Event_loop (raw_button_up dev Event_loop b
       (raw_button_down dev Event_loop b (move_absolute dev Event_loop (fixed x) (fixed y) s))))) \<and>
    thread_room p' k"
proof
  note contract = thread_proxy_contract [OF assms(1,2)]
  have ready: "proxy_contract.pointer_ready thread_has p' me dev" and room: "thread_room p' k"
    using proxy_contract.pointer_ctor_ready [OF contract assms(4,3)] by blast+
  show "thread_room p' k" by (rule room)
  show "pthen (pointer_move_to (ThreadProxy os junk) fixed me x y)
      (pthen (pointer_click (ThreadProxy os junk) me b) (pointer_destructor (ThreadProxy os junk) me)) (p', s) =
    Some (Inr (), (p', pointer_destroy dev Event_loop (raw_button_up dev Event_loop b
       (raw_button_down dev Event_loop b (move_absolute dev Event_loop (fixed x) (fixed y) s)))))"
    using proxy_contract.pointer_calls(1,5) [OF contract room ready] assms(5-7)
      proxy_contract.pointer_click_runs [OF contract room ready assms(7)]
    by (simp add: pthen_Some)
qed

text \<open>A device that logs its calls and the threads they run on.\<close>

datatype device_call =
  Moved thread int int | Moved_by thread int int | Down thread int | Up thread int | Destroyed thread

definition log_pointer :: "device_call list wlcs_pointer" where
  "log_pointer =
     \<lparr>move_absolute = (\<lambda>th x y s. s @ [Moved th x y]), move_relative = (\<lambda>th x y s. s @ [Moved_by th x y]),
      raw_button_down = (\<lambda>th b s. s @ [Down th b]), raw_button_up = (\<lambda>th b s. s @ [Up th b]),
      pointer_destroy = (\<lambda>th s. s @ [Destroyed th])\<rparr>"

abbreviation test_proxy :: "('s thread_proxy, nat \<times> nat option, 's) proxy_ops" where
  "test_proxy \<equiv> ThreadProxy perfect_os (replicate max_message_size 0)"

theorem pointer_session_runs_on_event_loop_witness:
  "map_option (\<lambda>r. snd (snd r))
     (pthen (pointer_move_to test_proxy (\<lambda>i. i * 256) (fst (pointer_setup_thunks test_proxy log_pointer thread_proxy_init)) 10 20)
      (pthen (pointer_click test_proxy (fst (pointer_setup_thunks test_proxy log_pointer thread_proxy_init)) BTN_LEFT)
        (pointer_destructor test_proxy (fst (pointer_setup_thunks test_proxy log_pointer thread_proxy_init))))
      (snd (pointer_setup_thunks test_proxy log_pointer thread_proxy_init), [])) =
   Some [Moved Event_loop 2560 5120, Down Event_loop BTN_LEFT, Up Event_loop BTN_LEFT, Destroyed Event_loop]"
  using pointer_session_runs_on_event_loop [OF perfect_os_reliable, of "replicate max_message_size 0"
      thread_proxy_init 0 log_pointer
      "fst (pointer_setup_thunks test_proxy log_pointer thread_proxy_init)"
      "snd (pointer_setup_thunks test_proxy log_pointer thread_proxy_init)" "\<lambda>i. i * 256" 10 20 BTN_LEFT "[]"]
  by (simp add: thread_room_def thread_proxy_init_def is_int_def BTN_LEFT_def log_pointer_def
      del: replicate.simps)

text \<open>
  Touch calls do not go through the proxy: on a touch device created on a thread proxy,
  \<^verbatim>\<open>down_at\<close>, \<^verbatim>\<open>move_to\<close> and \<^verbatim>\<open>up\<close> run the device's functions on the thread of the caller; only
  the destruction of the device reaches the event loop.
\<close>

theorem touch_calls_run_on_caller:
  assumes "reliable os" and "length junk = max_message_size" and "thread_room p (k + 4)"
    and "touch_version dev = WLCS_TOUCH_VERSION" and "length raw = 8"
  shows "\<exists>me p'. touch_ctor (ThreadProxy os junk) dev raw (p, s0) = Some (Inr me, (p', s0)) \<and>
    pthen (touch_down_at me x y) (pthen (touch_move_to me x' y') (touch_up_now me)) (p', s) =
      Some (Inr (), (p', raw_touch_up dev Caller (raw_touch_move dev Caller x' y'
        (raw_touch_down dev Caller x y s)))) \<and>
    touch_destructor (ThreadProxy os junk) (touch_deleter me) raw (p', s) =
      Some (Inr (), (p', touch_destroy dev Event_loop s))"
proof -
  note contract = thread_proxy_contract [OF assms(1,2)]
  obtain me p' where ctor: "touch_ctor (ThreadProxy os junk) dev raw (p, s0) = Some (Inr me, (p', s0))"
    and dev: "touch me = dev" and del: "thread_has p' (touch_deleter me) [8] None (void_op (touch_destroy dev))"
    and room: "thread_room p' k"
    by (rule proxy_contract.touch_ctor_ready [OF contract assms(3,4)])
  from ctor dev show ?thesis
    using proxy_contract.op_runs(4) [OF contract room del assms(5)]
    by (auto simp: touch_destructor_def pthen_def touch_down_at_def touch_move_to_def touch_up_now_def)
qed

definition log_touch :: "nat \<Rightarrow> device_call list wlcs_touch" where
  "log_touch v =
     \<lparr>touch_version = v, raw_touch_down = (\<lambda>th x y s. s @ [Moved th x y]),
      raw_touch_move = (\<lambda>th x y s. s @ [Moved_by th x y]),
      raw_touch_up = (\<lambda>th s. s @ [Up th 0]), touch_destroy = (\<lambda>th s. s @ [Destroyed th])\<rparr>"

theorem touch_calls_run_on_caller_witness:
  "\<exists>me p'. touch_ctor test_proxy (log_touch 1) (replicate 8 0) (thread_proxy_init, []) = Some (Inr me, (p', [])) \<and>
    pthen (touch_down_at me 1 2) (pthen (touch_move_to me 3 4) (touch_up_now me)) (p', []) =
      Some (Inr (), (p', [Moved Caller 1 2, Moved_by Caller 3 4, Up Caller 0]))"
  using touch_calls_run_on_caller [OF perfect_os_reliable, of "replicate max_message_size 0"
      thread_proxy_init 0 "log_touch 1" "replicate 8 0" "[]" 1 2 3 4 "[]"]
  by (auto simp: thread_room_def thread_proxy_init_def WLCS_TOUCH_VERSION_def log_touch_def
      simp del: replicate.simps)

text \<open>
  A device whose version is not the expected one is refused with an exception and is not
  leaked: the keyboard constructor and the touch constructor throw after the device has been
  destroyed on the event loop thread.
\<close>

theorem wrong_device_version_destroys_device:
  assumes "reliable os" and "length junk = max_message_size" and "thread_room p (Suc k)"
    and "length raw = 8" and "keyboard_version kdev \<noteq> WLCS_KEYBOARD_VERSION"
    and "touch_version tdev \<noteq> WLCS_TOUCH_VERSION"
  shows "(\<exists>p' msg. keyboard_ctor (ThreadProxy os junk) kdev raw (p, s) =
        Some (Inl (Runtime_error msg), (p', keyboard_destroy kdev Event_loop s))) \<and>
    (\<exists>p' msg. touch_ctor (ThreadProxy os junk) tdev raw (p, s) =
        Some (Inl (Runtime_error msg), (p', touch_destroy tdev Event_loop s)))"
  using proxy_contract.keyboard_ctor_wrong_version [OF thread_proxy_contract [OF assms(1,2)] assms(3,5,4)]
    proxy_contract.touch_ctor_wrong_version [OF thread_proxy_contract [OF assms(1,2)] assms(3,6,4)]
  by blast

theorem wrong_device_version_destroys_device_witness:
  "\<exists>p' msg. touch_ctor test_proxy (log_touch 2) (replicate 8 0) (thread_proxy_init, []) =
     Some (Inl (Runtime_error msg), (p', [Destroyed Event_loop]))"
  using wrong_device_version_destroys_device [OF perfect_os_reliable, of "replicate max_message_size 0"
      thread_proxy_init 0 "replicate 8 0"
      "\<lparr>keyboard_version = 2, raw_key_down = (\<lambda>th c s. s), raw_key_up = (\<lambda>th c s. s), keyboard_destroy = (\<lambda>th s. s)\<rparr>"
      "log_touch 2" "[]"]
  by (simp add: WLCS_KEYBOARD_VERSION_def thread_room_def thread_proxy_init_def WLCS_TOUCH_VERSION_def log_touch_def
      del: replicate.simps)

end
