(* ===== verification/Server.thy ===== *)
theory Server
  imports Devices
begin

text \<open>
  \<^verbatim>\<open>Server::Impl\<close>, \<^verbatim>\<open>Server\<close> and the test fixtures \<^verbatim>\<open>InProcessServer\<close> and
  \<^verbatim>\<open>StartedInProcessServer\<close>: creating the display server under test through its integration
  hooks, deciding whether it runs on its own thread behind a \<^verbatim>\<open>ThreadProxy\<close>, and the calls
  tests make on it. The display server and its hooks are the code under test, so they are
  parameters, as are \<^verbatim>\<open>socketpair\<close>, \<^verbatim>\<open>wl_event_loop_create\<close>, \<^verbatim>\<open>errno\<close> and the test
  framework's \<^verbatim>\<open>RecordProperty\<close>.
\<close>

section \<open>The interfaces of the display server\<close>

text \<open>
  \<^verbatim>\<open>WlcsDisplayServer\<close>: a flag says whether an optional function pointer is set. A device is
  returned as its address, a null pointer being zero.
\<close>

record 's display_server =
  ds_version :: nat
  has_start :: bool
  ds_start :: "thread \<Rightarrow> 's \<Rightarrow> 's"
  has_stop :: bool
  ds_stop :: "thread \<Rightarrow> 's \<Rightarrow> 's"
  ds_create_client_socket :: "thread \<Rightarrow> 's \<Rightarrow> int \<times> 's"
  ds_position_window_absolute :: "thread \<Rightarrow> nat \<Rightarrow> nat \<Rightarrow> int \<Rightarrow> int \<Rightarrow> 's \<Rightarrow> 's"
  ds_create_pointer :: "thread \<Rightarrow> 's \<Rightarrow> nat \<times> 's"
  ds_create_touch :: "thread \<Rightarrow> 's \<Rightarrow> nat \<times> 's"
  ds_get_descriptor :: "'s \<Rightarrow> (string \<times> u32) list \<times> 's"
  has_start_on_this_thread :: bool
  ds_start_on_this_thread :: "thread \<Rightarrow> 's \<Rightarrow> 's"
  has_create_keyboard :: bool
  ds_create_keyboard :: "thread \<Rightarrow> 's \<Rightarrow> nat \<times> 's"

record 's server_integration =
  hooks_version :: nat
  create_server :: "string list \<Rightarrow> 's \<Rightarrow> 's display_server option \<times> 's"
  destroy_server :: "'s \<Rightarrow> 's"

text \<open>
  The platform: whether the event loop could be created, the error of \<^verbatim>\<open>socketpair\<close>, the value of
  \<^verbatim>\<open>errno\<close> on a thread, the tables of the devices at an address, and \<^verbatim>\<open>RecordProperty\<close>.
\<close>

record 's platform =
  loop_created :: bool
  socketpair_errno :: "int option"
  errno_of :: "thread \<Rightarrow> 's \<Rightarrow> int"
  pointer_at :: "nat \<Rightarrow> 's wlcs_pointer"
  touch_at :: "nat \<Rightarrow> 's wlcs_touch"
  keyboard_at :: "nat \<Rightarrow> 's wlcs_keyboard"
  record_property :: "string \<Rightarrow> string \<Rightarrow> 's \<Rightarrow> 's"

section \<open>Starting up\<close>

definition extract_supported_extensions ::
    "'s display_server \<Rightarrow> 's \<Rightarrow> (string \<rightharpoonup> u32) option \<times> 's" where
  "extract_supported_extensions server s =
     (if ds_version server < 2 then (None, s)
      else case ds_get_descriptor server s of (supported_extensions, s) \<Rightarrow>
        (Some (fold (\<lambda>(name, version) m. m(name \<mapsto> version)) supported_extensions Map.empty), s))"

text \<open>\<^verbatim>\<open>setup_socketpair\<close> and the constructor of \<^verbatim>\<open>ThreadProxy\<close>.\<close>

definition setup_socketpair :: "'s platform \<Rightarrow> unit result" where
  "setup_socketpair plat =
     (case socketpair_errno plat of
        None \<Rightarrow> Inr ()
      | Some e \<Rightarrow> Inl (System_error e ''Failed to create Wayland thread communication socket''))"

text \<open>\<open>Some tp\<close> is a thread context with its proxy, \<open>None\<close> an empty \<^verbatim>\<open>optional\<close>.\<close>

definition make_context_if_needed ::
    "'s platform \<Rightarrow> 's display_server \<Rightarrow> 's thread_proxy option result" where
  "make_context_if_needed plat server =
     (if 3 \<le> ds_version server \<and> \<not> has_start server then
        (if \<not> has_start_on_this_thread server
         then Inl (Runtime_error ''Server integration missing both start() and start_on_this_thread()'')
         else if \<not> loop_created plat
         then Inl (Runtime_error ''Failed to create eventloop for WLCS events'')
         else case setup_socketpair plat of
             Inl e \<Rightarrow> Inl e
           | Inr _ \<Rightarrow> Inr (Some thread_proxy_init))
      else Inr None)"

text \<open>
  The proxy a server uses: the shared thread proxy of its context when it has one, and a null proxy
  otherwise.
\<close>

type_synonym 's any_proxy = "'s thread_proxy option"
type_synonym 's any_thunk = "(nat \<times> nat option) + 's op"

definition any_register ::
    "os \<Rightarrow> byte list \<Rightarrow> nat list \<Rightarrow> nat option \<Rightarrow> 's op \<Rightarrow> 's any_proxy \<Rightarrow> 's any_thunk \<times> 's any_proxy" where
  "any_register os junk sizes ret h thread_context =
     (case thread_context of
        Some tp \<Rightarrow> map_prod Inl Some (proxy_register (ThreadProxy os junk) sizes ret h tp)
      | None \<Rightarrow> (Inr (fst (proxy_register NullProxy sizes ret h ())), None))"

definition any_call ::
    "os \<Rightarrow> byte list \<Rightarrow> 's any_thunk \<Rightarrow> obj list \<Rightarrow> ('s any_proxy, 's, obj) pcall" where
  "any_call os junk thunk args st =
     (case thunk of
        Inl t \<Rightarrow>
          (case st of
             (Some tp, s) \<Rightarrow>
               map_option (map_prod id (map_prod Some id)) (proxy_call (ThreadProxy os junk) t args (tp, s))
           | (None, s) \<Rightarrow> Some (Inl (Undefined_behaviour ''the proxy is gone''), st))
      | Inr h \<Rightarrow>
          map_option (map_prod id (map_prod (\<lambda>_. fst st) id)) (proxy_call NullProxy h args ((), snd st)))"

definition any_proxy_ops ::
    "os \<Rightarrow> byte list \<Rightarrow> ('s any_proxy, 's any_thunk, 's) proxy_ops" where
  "any_proxy_ops os junk = \<lparr>proxy_register = any_register os junk, proxy_call = any_call os junk\<rparr>"

record ('t, 's) server_impl =
  server :: "'s display_server"
  supported_extensions :: "(string \<rightharpoonup> u32) option"
  stop_thunk :: "'t"
  create_client_socket_thunk :: "'t"
  create_pointer_thunk :: "'t"
  create_touch_thunk :: "'t"
  create_keyboard_thunk :: "'t option"
  position_window_absolute_thunk :: "'t"

definition int_result :: "(thread \<Rightarrow> 's \<Rightarrow> int \<times> 's) \<Rightarrow> 's op" where
  "int_result f th args s = (case f th s of (v, s') \<Rightarrow> (int_obj v, s'))"

definition pointer_result :: "(thread \<Rightarrow> 's \<Rightarrow> nat \<times> 's) \<Rightarrow> 's op" where
  "pointer_result f th args s = (case f th s of (v, s') \<Rightarrow> (le_bytes 8 v, s'))"

definition position_op :: "'s display_server \<Rightarrow> 's op" where
  "position_op srv th args s =
     ([], ds_position_window_absolute srv th (le_value (args ! 0)) (le_value (args ! 1))
            (int_of_obj (args ! 2)) (int_of_obj (args ! 3)) s)"

definition initialise_thunks ::
    "('p, 't, 's) proxy_ops \<Rightarrow> 's display_server \<Rightarrow> (string \<rightharpoonup> u32) option \<Rightarrow> 'p \<Rightarrow>
     ('t, 's) server_impl \<times> 'p" where
  "initialise_thunks ops srv extensions p =
     (let (t_stop, p) = proxy_register ops [] None (void_op (ds_stop srv)) p;
          (t_socket, p) = proxy_register ops [] (Some 4) (int_result (ds_create_client_socket srv)) p;
          (t_pointer, p) = proxy_register ops [] (Some 8) (pointer_result (ds_create_pointer srv)) p;
          (t_touch, p) = proxy_register ops [] (Some 8) (pointer_result (ds_create_touch srv)) p;
          (t_keyboard, p) =
            (if 4 \<le> ds_version srv
             then map_prod Some id
                    (proxy_register ops [] (Some 8) (pointer_result (ds_create_keyboard srv)) p)
             else (None, p));
          (t_position, p) = proxy_register ops [8, 8, 4, 4] None (position_op srv) p
      in (\<lparr>server = srv, supported_extensions = extensions, stop_thunk = t_stop,
           create_client_socket_thunk = t_socket, create_pointer_thunk = t_pointer,
           create_touch_thunk = t_touch, create_keyboard_thunk = t_keyboard,
           position_window_absolute_thunk = t_position\<rparr>, p))"

text \<open>
  The constructor: members in their order, then the checks of the body. Whenever it throws, the
  \<^verbatim>\<open>unique_ptr\<close> that holds the server destroys it.
\<close>

definition server_ctor ::
    "'s platform \<Rightarrow> os \<Rightarrow> byte list \<Rightarrow> 's server_integration \<Rightarrow> string list \<Rightarrow> 's \<Rightarrow>
     (('s any_thunk, 's) server_impl \<times> 's any_proxy) result \<times> 's" where
  "server_ctor plat os junk hooks args s =
     (case create_server hooks args s of
        (None, s) \<Rightarrow> (Inl (Undefined_behaviour ''dereferencing a null WlcsDisplayServer''), s)
      | (Some srv, s) \<Rightarrow>
          (case make_context_if_needed plat srv of
             Inl e \<Rightarrow> (Inl e, destroy_server hooks s)
           | Inr thread_context \<Rightarrow>
               (case extract_supported_extensions srv s of (extensions, s) \<Rightarrow>
                 if hooks_version hooks < 1
                 then (Inl (Runtime_error ''Server integration too old''), destroy_server hooks s)
                 else if ds_version srv < 1
                 then (Inl (Runtime_error ''Server integration too old''), destroy_server hooks s)
                 else if \<not> has_stop srv
                 then (Inl (Logic_error ''Missing required WlcsDisplayServer.stop definition''),
                       destroy_server hooks s)
                 else (Inr (initialise_thunks (any_proxy_ops os junk) srv extensions thread_context), s))))"

section \<open>The calls tests make\<close>

text \<open>
  Starting: a new thread enters the server's loop, or \<^verbatim>\<open>start\<close> is called here. The flag says
  whether \<^verbatim>\<open>server_thread\<close> is running.
\<close>

definition server_start :: "('s any_thunk, 's) server_impl \<Rightarrow> ('s any_proxy, 's, bool) pcall" where
  "server_start me st =
     (case st of
        (Some tp, s) \<Rightarrow> Some (Inr True, (Some tp, ds_start_on_this_thread (server me) Event_loop s))
      | (None, s) \<Rightarrow>
          if has_start (server me) then Some (Inr False, (None, ds_start (server me) Caller s))
          else Some (Inl (Undefined_behaviour ''calling a null start hook''), (None, s)))"

definition server_stop ::
    "('p, 't, 's) proxy_ops \<Rightarrow> ('t, 's) server_impl \<Rightarrow> ('p, 's, unit) pcall" where
  "server_stop ops me = call_thunk ops (stop_thunk me) []"

definition create_client_socket ::
    "('p, 't, 's) proxy_ops \<Rightarrow> 's platform \<Rightarrow> ('t, 's) server_impl \<Rightarrow> ('p, 's, int) pcall" where
  "create_client_socket ops plat me st =
     map_option (\<lambda>(r, st').
       (case r of
          Inl e \<Rightarrow> Inl e
        | Inr v \<Rightarrow>
            let fd = int_of_obj v in
            if fd < 0
            then Inl (System_error (errno_of plat Caller (snd st')) ''Failed to get client socket from server'')
            else Inr fd, st'))
       (proxy_call ops (create_client_socket_thunk me) [] st)"

definition create_pointer ::
    "('p, 't, 's) proxy_ops \<Rightarrow> 's platform \<Rightarrow> ('t, 's) server_impl \<Rightarrow>
     ('p, 's, 't pointer_impl) pcall" where
  "create_pointer ops plat me st =
     map_option (\<lambda>(r, (p, s)).
       case r of
         Inl e \<Rightarrow> (Inl e, (p, s))
       | Inr raw_device \<Rightarrow>
           (case pointer_setup_thunks ops (pointer_at plat (le_value raw_device)) p of
              (pointer, p) \<Rightarrow> (Inr pointer, (p, s))))
       (proxy_call ops (create_pointer_thunk me) [] st)"

definition create_touch ::
    "('p, 't, 's) proxy_ops \<Rightarrow> 's platform \<Rightarrow> ('t, 's) server_impl \<Rightarrow>
     ('p, 's, ('t, 's) touch_impl) pcall" where
  "create_touch ops plat me st =
     (case proxy_call ops (create_touch_thunk me) [] st of
        None \<Rightarrow> None
      | Some (Inl e, st) \<Rightarrow> Some (Inl e, st)
      | Some (Inr raw_device, st) \<Rightarrow>
          touch_ctor ops (touch_at plat (le_value raw_device)) raw_device st)"

definition no_keyboard :: string where
  "no_keyboard = ''Display server does not support keyboard simulation''"

definition ShimNotImplemented :: "string \<Rightarrow> exn" where
  "ShimNotImplemented name =
     Shim_not_implemented (''Function '' @ [CHR 0x27] @ name @ ''()'' @ [CHR 0x27] @ '' not implemented in display server shim'')"

text \<open>Calling an empty \<^verbatim>\<open>std::function\<close> throws \<^verbatim>\<open>std::bad_function_call\<close>.\<close>

definition create_keyboard ::
    "('p, 't, 's) proxy_ops \<Rightarrow> 's platform \<Rightarrow> ('t, 's) server_impl \<Rightarrow>
     ('p, 's, ('t, 's) keyboard_impl) pcall" where
  "create_keyboard ops plat me st =
     (if ds_version (server me) < 4 \<or> \<not> has_create_keyboard (server me)
      then Some (Inl (ShimNotImplemented no_keyboard),
                 map_prod id (record_property plat ''wlcs-skip-test'' no_keyboard) st)
      else case create_keyboard_thunk me of
          None \<Rightarrow> Some (Inl (Runtime_error ''bad_function_call''), st)
        | Some thunk \<Rightarrow>
            (case proxy_call ops thunk [] st of
               None \<Rightarrow> None
             | Some (Inl e, st) \<Rightarrow> Some (Inl e, st)
             | Some (Inr raw_device, st) \<Rightarrow>
                 keyboard_ctor ops (keyboard_at plat (le_value raw_device)) raw_device st))"

text \<open>\<open>roundtrip\<close> is \<^verbatim>\<open>surface.owner().roundtrip()\<close>.\<close>

definition move_surface_to ::
    "('p, 't, 's) proxy_ops \<Rightarrow> ('t, 's) server_impl \<Rightarrow> ('p, 's, unit) pcall \<Rightarrow> nat \<Rightarrow> nat \<Rightarrow>
     int \<Rightarrow> int \<Rightarrow> ('p, 's, unit) pcall" where
  "move_surface_to ops me roundtrip client surface x y =
     pthen roundtrip
       (call_thunk ops (position_window_absolute_thunk me)
         [le_bytes 8 client, le_bytes 8 surface, int_obj x, int_obj y])"

section \<open>The test fixtures\<close>

text \<open>
  \<^verbatim>\<open>InProcessServer\<close> builds the server; the test framework calls \<^verbatim>\<open>SetUp\<close> before and
  \<^verbatim>\<open>TearDown\<close> after the test body. \<^verbatim>\<open>StartedInProcessServer\<close> starts the server at the end of
  its constructor and stops it at the beginning of its destructor.
\<close>

definition InProcessServer_SetUp :: "('s any_thunk, 's) server_impl \<Rightarrow> ('s any_proxy, 's, bool) pcall" where
  "InProcessServer_SetUp me = server_start me"

definition InProcessServer_TearDown ::
    "('p, 't, 's) proxy_ops \<Rightarrow> ('t, 's) server_impl \<Rightarrow> ('p, 's, unit) pcall" where
  "InProcessServer_TearDown ops me = server_stop ops me"

definition StartedInProcessServer_ctor ::
    "'s platform \<Rightarrow> os \<Rightarrow> byte list \<Rightarrow> 's server_integration \<Rightarrow> string list \<Rightarrow> 's \<Rightarrow>
     ((('s any_thunk, 's) server_impl \<times> 's any_proxy) result \<times> 's) option" where
  "StartedInProcessServer_ctor plat os junk hooks args s =
     (case server_ctor plat os junk hooks args s of
        (Inl e, s) \<Rightarrow> Some (Inl e, s)
      | (Inr (me, p), s) \<Rightarrow>
          map_option (\<lambda>(r, (p, s)). (case r of Inl e \<Rightarrow> Inl e | Inr _ \<Rightarrow> Inr (me, p), s))
            (InProcessServer_SetUp me (p, s)))"

section \<open>Lemmas\<close>

lemma length_pointer_result [simp]: "length (fst (pointer_result f th args s)) = 8"
  by (simp add: pointer_result_def case_prod_beta)

lemma length_int_result [simp]: "length (fst (int_result f th args s)) = 4"
  by (simp add: int_result_def case_prod_beta)

lemma le_value_8 [simp]: "n < 2 ^ 64 \<Longrightarrow> le_value (le_bytes 8 n) = n"
  by (simp add: le_value_le_bytes)

lemma static_asserts_value [simp]: "static_asserts [] (Some 4)" "static_asserts [] (Some 8)"
  by (simp_all add: static_asserts_def max_arguments_size_def max_message_size_def)

text \<open>The proxy of a server keeps the contract, with or without a thread of its own.\<close>

interpretation any_null: proxy_contract "any_proxy_ops os junk" Caller "\<lambda>p k. p = None"
    "\<lambda>p t sizes ret h. p = None \<and> t = Inr h" for os junk
  by unfold_locales
     (auto simp: any_proxy_ops_def any_register_def any_call_def NullProxy_def case_prod_beta)

definition any_room :: "'s any_proxy \<Rightarrow> nat \<Rightarrow> bool" where
  "any_room p k \<longleftrightarrow> (\<exists>tp. p = Some tp \<and> thread_room tp k)"

definition any_has :: "'s any_proxy \<Rightarrow> 's any_thunk \<Rightarrow> nat list \<Rightarrow> nat option \<Rightarrow> 's op \<Rightarrow> bool" where
  "any_has p t sizes ret h \<longleftrightarrow> (\<exists>tp t'. p = Some tp \<and> t = Inl t' \<and> thread_has tp t' sizes ret h)"

context reliable_thread_proxy
begin

lemma is_any_contract: "proxy_contract (any_proxy_ops os junk) Event_loop any_room any_has"
proof
  fix p :: "'s any_proxy" and k
  show "any_room p (Suc k) \<Longrightarrow> any_room p k" by (auto simp: any_room_def thread_room_def)
next
  fix p p' :: "'s any_proxy" and k sizes ret h t
  assume "any_room p (Suc k)" "static_asserts sizes ret"
    and "proxy_register (any_proxy_ops os junk) sizes ret h p = (t, p')"
  then show "any_has p' t sizes ret h \<and> any_room p' k"
    using threaded.register_has [where p = "the p" and k = k and sizes = sizes and ret = ret and h = h]
    by (cases "proxy_register (ThreadProxy os junk) sizes ret h (the p)")
       (auto simp: any_room_def any_has_def any_proxy_ops_def any_register_def)
next
  fix p p' :: "'s any_proxy" and t t' sizes ret h sizes' ret' h'
  assume "any_has p t sizes ret h"
    and "proxy_register (any_proxy_ops os junk) sizes' ret' h' p = (t', p')"
  then show "any_has p' t sizes ret h"
    using threaded.register_keeps [where p = "the p" and t = "projl t" and sizes = sizes and ret = ret and h = h
        and sizes' = sizes' and ret' = ret' and h' = h']
    by (cases "proxy_register (ThreadProxy os junk) sizes' ret' h' (the p)")
       (auto simp: any_has_def any_proxy_ops_def any_register_def)
next
  fix p :: "'s any_proxy" and k t sizes ret h args s
  assume "any_room p k" "any_has p t sizes ret h" and sz: "map length args = sizes"
    and len: "\<And>n s. ret = Some n \<Longrightarrow> length (fst (h Event_loop args s)) = n"
  then obtain tp t' where p: "p = Some tp" "t = Inl t'" "thread_room tp k" "thread_has tp t' sizes ret h"
    by (auto simp: any_room_def any_has_def)
  obtain r where "proxy_call (ThreadProxy os junk) t' args (tp, s) = Some (Inr r, (tp, snd (h Event_loop args s)))"
    and "ret \<noteq> None \<longrightarrow> r = fst (h Event_loop args s)"
    using threaded.call_runs [OF p(3,4) sz len, of s] by blast
  then show "\<exists>r. proxy_call (any_proxy_ops os junk) t args (p, s) =
      Some (Inr r, (p, snd (h Event_loop args s))) \<and> (ret \<noteq> None \<longrightarrow> r = fst (h Event_loop args s))"
    by (auto simp: any_proxy_ops_def any_call_def p)
qed

end

interpretation any_perfect: proxy_contract "any_proxy_ops perfect_os (replicate max_message_size 0)" Event_loop
    any_room any_has
  by (rule perfect.is_any_contract)

lemma any_contract:
  "reliable os \<Longrightarrow> length junk = max_message_size \<Longrightarrow>
   proxy_contract (any_proxy_ops os junk) Event_loop any_room any_has"
  by (rule reliable_thread_proxy.is_any_contract) (rule reliable_thread_proxy.intro)

context proxy_contract
begin

text \<open>The thunks of a server are bound to the functions of its display server.\<close>

definition server_ready :: "'p \<Rightarrow> ('t, 's) server_impl \<Rightarrow> 's display_server \<Rightarrow> bool" where
  "server_ready p me srv \<longleftrightarrow>
     server me = srv \<and>
     has p (stop_thunk me) [] None (void_op (ds_stop srv)) \<and>
     has p (create_client_socket_thunk me) [] (Some 4) (int_result (ds_create_client_socket srv)) \<and>
     has p (create_pointer_thunk me) [] (Some 8) (pointer_result (ds_create_pointer srv)) \<and>
     has p (create_touch_thunk me) [] (Some 8) (pointer_result (ds_create_touch srv)) \<and>
     (4 \<le> ds_version srv \<longrightarrow> (\<exists>t. create_keyboard_thunk me = Some t \<and>
        has p t [] (Some 8) (pointer_result (ds_create_keyboard srv)))) \<and>
     has p (position_window_absolute_thunk me) [8, 8, 4, 4] None (position_op srv)"

lemma keyboard_thunk_registered:
  assumes "(if 4 \<le> v then map_prod Some id (proxy_register ops [] (Some 8) h p) else (None, p)) = (t, p')"
    and "room p (Suc k)"
  shows "4 \<le> (v :: nat) \<longrightarrow> (\<exists>t'. t = Some t' \<and> has p' t' [] (Some 8) h)" and "room p' k"
    and "has p t0 sizes0 ret0 h0 \<Longrightarrow> has p' t0 sizes0 ret0 h0"
proof -
  obtain t1 p1 where 1: "proxy_register ops [] (Some 8) h p = (t1, p1)" by fastforce
  note h1 = register_has [OF assms(2) _ 1] and keep = register_keeps [OF _ 1]
  show "4 \<le> v \<longrightarrow> (\<exists>t'. t = Some t' \<and> has p' t' [] (Some 8) h)" "room p' k"
    using assms 1 h1 room_Suc [OF assms(2)] by (auto split: if_splits)
  show "has p t0 sizes0 ret0 h0 \<Longrightarrow> has p' t0 sizes0 ret0 h0"
    using assms(1) 1 keep by (auto split: if_splits)
qed

lemma initialise_thunks_ready:
  assumes "initialise_thunks ops srv ext p = (me, p')" and "room p (k + 6)"
  shows "server_ready p' me srv" and "room p' k" and "supported_extensions me = ext"
proof -
  obtain t1 p1 where 1: "proxy_register ops [] None (void_op (ds_stop srv)) p = (t1, p1)" by fastforce
  obtain t2 p2 where 2: "proxy_register ops [] (Some 4) (int_result (ds_create_client_socket srv)) p1 = (t2, p2)"
    by fastforce
  obtain t3 p3 where 3: "proxy_register ops [] (Some 8) (pointer_result (ds_create_pointer srv)) p2 = (t3, p3)"
    by fastforce
  obtain t4 p4 where 4: "proxy_register ops [] (Some 8) (pointer_result (ds_create_touch srv)) p3 = (t4, p4)"
    by fastforce
  obtain t5 p5 where 5: "(if 4 \<le> ds_version srv then map_prod Some id
      (proxy_register ops [] (Some 8) (pointer_result (ds_create_keyboard srv)) p4) else (None, p4)) = (t5, p5)"
    by fastforce
  obtain t6 p6 where 6: "proxy_register ops [8, 8, 4, 4] None (position_op srv) p5 = (t6, p6)" by fastforce
  have r: "room p (Suc (Suc (Suc (Suc (Suc (Suc k))))))" using assms(2) by (simp add: numeral_eq_Suc)
  note h1 = register_void [OF 1 r, simplified]
  note h2 = conjunct1 [OF register_has [OF h1(2) static_asserts_value(1) 2]]
    conjunct2 [OF register_has [OF h1(2) static_asserts_value(1) 2]]
  note h3 = conjunct1 [OF register_has [OF h2(2) static_asserts_value(2) 3]]
    conjunct2 [OF register_has [OF h2(2) static_asserts_value(2) 3]]
  note h4 = conjunct1 [OF register_has [OF h3(2) static_asserts_value(2) 4]]
    conjunct2 [OF register_has [OF h3(2) static_asserts_value(2) 4]]
  note h5 = keyboard_thunk_registered [OF 5 h4(2)]
  note h6 = register_void [OF 6 h5(2), simplified]
  note keep5 = register_keeps [OF h5(3) 6]
  note keep4 = keep5 [OF register_keeps [OF _ 4]]
  note keep3 = keep4 [OF register_keeps [OF _ 3]]
  have me: "me = \<lparr>server = srv, supported_extensions = ext, stop_thunk = t1,
      create_client_socket_thunk = t2, create_pointer_thunk = t3, create_touch_thunk = t4,
      create_keyboard_thunk = t5, position_window_absolute_thunk = t6\<rparr>" and p': "p' = p6"
    using assms(1) by (auto simp: initialise_thunks_def 1 2 3 4 5 6 simp del: if_split)
  show "room p' k" "supported_extensions me = ext" using h6(2) by (simp_all add: p' me)
  have "4 \<le> ds_version srv \<longrightarrow> (\<exists>t'. t5 = Some t' \<and>
      has p6 t' [] (Some 8) (pointer_result (ds_create_keyboard srv)))"
    using h5(1) register_keeps [OF _ 6] by blast
  then show "server_ready p' me srv"
    unfolding server_ready_def me p'
    using h6(1) keep5 [OF h4(1)] keep4 [OF h3(1)] keep3 [OF h2(1)] keep3 [OF register_keeps [OF h1(1) 2]]
    by simp
qed

lemma server_calls:
  assumes "room p k" and "server_ready p me srv"
  shows "server_stop ops me (p, s) = Some (Inr (), (p, ds_stop srv runs_on s))"
    and "ds_create_client_socket srv runs_on s = (fd, s') \<Longrightarrow> is_int fd \<Longrightarrow>
      create_client_socket ops plat me (p, s) =
        Some (if fd < 0 then Inl (System_error (errno_of plat Caller s') ''Failed to get client socket from server'')
              else Inr fd, (p, s'))"
    and "is_int x \<Longrightarrow> is_int y \<Longrightarrow> client < 2 ^ 64 \<Longrightarrow> surface < 2 ^ 64 \<Longrightarrow>
      call_thunk ops (position_window_absolute_thunk me)
        [le_bytes 8 client, le_bytes 8 surface, int_obj x, int_obj y] (p, s) =
      Some (Inr (), (p, ds_position_window_absolute srv runs_on client surface x y s))"
proof -
  show "server_stop ops me (p, s) = Some (Inr (), (p, ds_stop srv runs_on s))"
    using assms(2) op_runs(3) [OF assms(1)] by (simp add: server_stop_def server_ready_def)
  show "create_client_socket ops plat me (p, s) =
        Some (if fd < 0 then Inl (System_error (errno_of plat Caller s') ''Failed to get client socket from server'')
              else Inr fd, (p, s'))"
    if "ds_create_client_socket srv runs_on s = (fd, s')" and "is_int fd"
    using assms(2) value_call_runs [OF assms(1), of "create_client_socket_thunk me" "[]" 4
        "int_result (ds_create_client_socket srv)" "[]" s] that
    by (simp add: server_ready_def create_client_socket_def int_result_def Let_def case_prod_beta)
  show "call_thunk ops (position_window_absolute_thunk me)
        [le_bytes 8 client, le_bytes 8 surface, int_obj x, int_obj y] (p, s) =
      Some (Inr (), (p, ds_position_window_absolute srv runs_on client surface x y s))"
    if "is_int x" "is_int y" "client < 2 ^ 64" "surface < 2 ^ 64"
    using assms(2) thunk_runs [OF assms(1), of "position_window_absolute_thunk me" "[8, 8, 4, 4]"
        "position_op srv" "[le_bytes 8 client, le_bytes 8 surface, int_obj x, int_obj y]" s] that
    by (simp add: server_ready_def position_op_def numeral_2_eq_2 numeral_3_eq_3)
qed

end

text \<open>The thread the requests to a display server have to run on.\<close>

definition request_thread :: "'s display_server \<Rightarrow> thread" where
  "request_thread srv = (if 3 \<le> ds_version srv \<and> \<not> has_start srv then Event_loop else Caller)"

lemma server_ctor_InrE:
  assumes "server_ctor plat os junk hooks args s = (Inr (me, p), s1)"
    and "create_server hooks args s = (Some srv, s0)"
  obtains ctx ext where "make_context_if_needed plat srv = Inr ctx"
    and "extract_supported_extensions srv s0 = (ext, s1)"
    and "initialise_thunks (any_proxy_ops os junk) srv ext ctx = (me, p)"
proof -
  obtain ext s2 where ext: "extract_supported_extensions srv s0 = (ext, s2)" by fastforce
  obtain ctx where ctx: "make_context_if_needed plat srv = Inr ctx"
    using assms by (cases "make_context_if_needed plat srv") (simp_all add: server_ctor_def)
  have "initialise_thunks (any_proxy_ops os junk) srv ext ctx = (me, p) \<and> s2 = s1"
    using assms by (simp add: server_ctor_def ext ctx split: if_split_asm)
  with ext ctx show thesis by (intro that [of ctx ext]) simp_all
qed

lemma thread_room_init: "k < 2 ^ 32 \<Longrightarrow> thread_room thread_proxy_init k"
  by (simp add: thread_room_def thread_proxy_init_def)

lemma make_context_Inr:
  assumes "make_context_if_needed plat srv = Inr ctx"
  shows "ctx = (if request_thread srv = Event_loop then Some thread_proxy_init else None)"
  using assms by (auto simp: make_context_if_needed_def request_thread_def split: if_splits sum.splits)

text \<open>Whatever proxy it got, a server that was constructed satisfies the contract on its own thread.\<close>

lemma server_ctor_ready:
  assumes "reliable os" and "length junk = max_message_size"
    and "server_ctor plat os junk hooks args s = (Inr (me, p), s1)"
    and "create_server hooks args s = (Some srv, s0)"
  obtains room has where "proxy_contract (any_proxy_ops os junk) (request_thread srv) room has"
    and "room p (1000 :: nat)" and "proxy_contract.server_ready has p me srv"
proof -
  obtain ctx ext where ctx: "make_context_if_needed plat srv = Inr ctx"
    and init: "initialise_thunks (any_proxy_ops os junk) srv ext ctx = (me, p)"
    using assms(3,4) by (rule server_ctor_InrE)
  note ctx = make_context_Inr [OF ctx]
  show thesis
  proof (cases "request_thread srv")
    case Caller
    with ctx have none: "ctx = None" by simp
    note ready = any_null.initialise_thunks_ready [OF init none]
    show thesis
      using any_null.proxy_contract_axioms ready(2,1) unfolding Caller [symmetric] by (rule that)
  next
    case Event_loop
    with ctx have some: "any_room ctx (1000 + 6)" by (simp add: any_room_def thread_room_init)
    note ready = proxy_contract.initialise_thunks_ready [OF any_contract [OF assms(1,2)] init some]
    show thesis
      by (rule that [of any_room any_has]) (simp_all add: Event_loop any_contract assms(1,2) ready)
  qed
qed

section \<open>Properties\<close>


text \<open>
  A keyboard is refused exactly when the display server is older than version 4 or has no
  \<^verbatim>\<open>create_keyboard\<close>: then the test is recorded as skipped and an exception is thrown. Otherwise
  the device comes from \<^verbatim>\<open>create_keyboard\<close> on the right thread and a call of \<^verbatim>\<open>key\<close> presses and
  releases the key on it.
\<close>

theorem create_keyboard_supported:
  assumes "reliable os" and "length junk = max_message_size"
    and "server_ctor plat os junk hooks args s = (Inr (me, p), s1)"
    and "create_server hooks args s = (Some srv, s0)"
    and "ds_create_keyboard srv (request_thread srv) t = (addr, t')" and "addr < 2 ^ 64"
    and "keyboard_version (keyboard_at plat addr) = WLCS_KEYBOARD_VERSION" and "is_int c"
  shows "if ds_version srv < 4 \<or> \<not> has_create_keyboard srv
    then create_keyboard (any_proxy_ops os junk) plat me (p, t) =
      Some (Inl (ShimNotImplemented no_keyboard), (p, record_property plat ''wlcs-skip-test'' no_keyboard t))
    else \<exists>kb p'. create_keyboard (any_proxy_ops os junk) plat me (p, t) = Some (Inr kb, (p', t')) \<and>
      keyboard_press (any_proxy_ops os junk) kb c (p', u) =
        Some (Inr (), (p', raw_key_up (keyboard_at plat addr) (request_thread srv) c
                            (raw_key_down (keyboard_at plat addr) (request_thread srv) c u)))"
proof -
  obtain room has where contract: "proxy_contract (any_proxy_ops os junk) (request_thread srv) room has"
    and room: "room p 1000" and ready: "proxy_contract.server_ready has p me srv"
    using assms(1-4) by (rule server_ctor_ready)
  have srv: "server me = srv" and thunk: "4 \<le> ds_version srv \<longrightarrow> (\<exists>th. create_keyboard_thunk me = Some th \<and>
        has p th [] (Some 8) (pointer_result (ds_create_keyboard srv)))"
    using ready unfolding proxy_contract.server_ready_def [OF contract] by blast+
  show ?thesis
  proof (cases "ds_version srv < 4 \<or> \<not> has_create_keyboard srv")
    case True
    then show ?thesis by (simp add: create_keyboard_def srv)
  next
    case False
    then obtain th where th: "create_keyboard_thunk me = Some th"
      and has: "has p th [] (Some 8) (pointer_result (ds_create_keyboard srv))"
      using thunk by auto
    have call: "proxy_call (any_proxy_ops os junk) th [] (p, t) = Some (Inr (le_bytes 8 addr), (p, t'))"
      using proxy_contract.value_call_runs [OF contract room has, of "[]" t] assms(5)
      by (simp add: pointer_result_def case_prod_beta)
    have "room p (997 + 3)" using room by simp
    then obtain kb p' where ctor: "keyboard_ctor (any_proxy_ops os junk) (keyboard_at plat addr) (le_bytes 8 addr) (p, t') =
        Some (Inr kb, (p', t'))"
      and kb: "proxy_contract.keyboard_ready has p' kb (keyboard_at plat addr)" and room': "room p' 997"
      using assms(7) by (rule proxy_contract.keyboard_ctor_ready [OF contract])
    have "create_keyboard (any_proxy_ops os junk) plat me (p, t) = Some (Inr kb, (p', t'))"
      using False assms(6) by (simp add: create_keyboard_def srv th call ctor)
    with False proxy_contract.keyboard_press_runs [OF contract room' kb assms(8)] show ?thesis by simp
  qed
qed

text \<open>The hooks a server can be built from.\<close>

definition usable_server :: "'s platform \<Rightarrow> 's server_integration \<Rightarrow> 's display_server \<Rightarrow> bool" where
  "usable_server plat hooks srv \<longleftrightarrow>
     1 \<le> hooks_version hooks \<and> 1 \<le> ds_version srv \<and> has_stop srv \<and>
     (request_thread srv = Event_loop \<longrightarrow>
        has_start_on_this_thread srv \<and> loop_created plat \<and> socketpair_errno plat = None)"

text \<open>
  Claim C28. Construction succeeds exactly for usable hooks: integration and display server of
  version 1 or later, a \<^verbatim>\<open>stop\<close> function, and, for a server of version 3 or later without
  \<^verbatim>\<open>start\<close>, a \<^verbatim>\<open>start_on_this_thread\<close> function and an event loop and socket pair to reach it.
  Whenever it throws, the display server that was created has been destroyed.
\<close>

theorem server_construction:
  assumes "create_server hooks args s = (Some srv, s0)"
  shows "case server_ctor plat os junk hooks args s of
      (Inr (me, p), s1) \<Rightarrow> usable_server plat hooks srv \<and> s1 = snd (extract_supported_extensions srv s0) \<and>
        supported_extensions me = fst (extract_supported_extensions srv s0) \<and>
        ((p \<noteq> None) = (request_thread srv = Event_loop))
    | (Inl e, s1) \<Rightarrow> \<not> usable_server plat hooks srv \<and>
        (s1 = destroy_server hooks s0 \<or> s1 = destroy_server hooks (snd (extract_supported_extensions srv s0)))"
proof (cases "server_ctor plat os junk hooks args s")
  case (Pair r s1)
  show ?thesis
  proof (cases r)
    case (Inl e)
    with Pair assms show ?thesis
      by (auto simp: server_ctor_def usable_server_def make_context_if_needed_def request_thread_def
          setup_socketpair_def split: if_splits option.splits sum.splits prod.splits)
  next
    case (Inr mp)
    obtain me p where mp: "mp = (me, p)" by fastforce
    with Pair Inr have ctor: "server_ctor plat os junk hooks args s = (Inr (me, p), s1)" by simp
    obtain ctx ext where ctx: "make_context_if_needed plat srv = Inr ctx"
      and ext: "extract_supported_extensions srv s0 = (ext, s1)"
      and init: "initialise_thunks (any_proxy_ops os junk) srv ext ctx = (me, p)"
      using ctor assms by (rule server_ctor_InrE)
    have "supported_extensions me = ext" and "(p = None) = (ctx = None)"
      using init by (auto simp: initialise_thunks_def any_proxy_ops_def any_register_def case_prod_beta
          split: option.splits if_splits)
    moreover have "usable_server plat hooks srv"
      using ctor ctx assms by (auto simp: server_ctor_def usable_server_def make_context_if_needed_def
          request_thread_def setup_socketpair_def split: if_splits option.splits sum.splits prod.splits)
    ultimately show ?thesis
      using make_context_Inr [OF ctx] by (simp add: ctor ext split: if_splits)
  qed
qed

text \<open>A server that logs its requests with the thread they run on, for the witnesses.\<close>

definition log_server :: "(string \<times> thread) list display_server" where
  "log_server =
     \<lparr>ds_version = 4, has_start = False, ds_start = (\<lambda>th s. s @ [(''start'', th)]),
      has_stop = True, ds_stop = (\<lambda>th s. s @ [(''stop'', th)]),
      ds_create_client_socket = (\<lambda>th s. (7, s @ [(''socket'', th)])),
      ds_position_window_absolute = (\<lambda>th c w x y s. s @ [(''position'', th)]),
      ds_create_pointer = (\<lambda>th s. (4096, s @ [(''pointer'', th)])),
      ds_create_touch = (\<lambda>th s. (8192, s @ [(''touch'', th)])),
      ds_get_descriptor = (\<lambda>s. ([(''wl_shell'', 1)], s)),
      has_start_on_this_thread = True, ds_start_on_this_thread = (\<lambda>th s. s @ [(''loop'', th)]),
      has_create_keyboard = True, ds_create_keyboard = (\<lambda>th s. (12288, s @ [(''keyboard'', th)]))\<rparr>"

definition log_keyboard :: "(string \<times> thread) list wlcs_keyboard" where
  "log_keyboard =
     \<lparr>keyboard_version = 1, raw_key_down = (\<lambda>th c s. s @ [(''down'', th)]),
      raw_key_up = (\<lambda>th c s. s @ [(''up'', th)]), keyboard_destroy = (\<lambda>th s. s @ [(''destroy'', th)])\<rparr>"

definition log_hooks :: "(string \<times> thread) list server_integration" where
  "log_hooks =
     \<lparr>hooks_version = 1, create_server = (\<lambda>args s. (Some log_server, s)),
      destroy_server = (\<lambda>s. s @ [(''destroy_server'', Caller)])\<rparr>"

definition log_platform :: "(string \<times> thread) list platform" where
  "log_platform =
     \<lparr>loop_created = True, socketpair_errno = None, errno_of = (\<lambda>th s. 0),
      pointer_at = (\<lambda>a. \<lparr>move_absolute = (\<lambda>th x y s. s), move_relative = (\<lambda>th x y s. s),
        raw_button_down = (\<lambda>th b s. s), raw_button_up = (\<lambda>th b s. s), pointer_destroy = (\<lambda>th s. s)\<rparr>),
      touch_at = (\<lambda>a. \<lparr>touch_version = 1, raw_touch_down = (\<lambda>th x y s. s),
        raw_touch_move = (\<lambda>th x y s. s), raw_touch_up = (\<lambda>th s. s), touch_destroy = (\<lambda>th s. s)\<rparr>),
      keyboard_at = (\<lambda>a. log_keyboard), record_property = (\<lambda>k v s. s)\<rparr>"

abbreviation test_any where
  "test_any \<equiv> any_proxy_ops perfect_os (replicate max_message_size 0)"

abbreviation test_server where
  "test_server \<equiv> initialise_thunks test_any log_server (Some [''wl_shell'' \<mapsto> 1]) (Some thread_proxy_init)"

lemma log_create [simp]: "create_server log_hooks args s = (Some log_server, s)"
  by (simp add: log_hooks_def)

lemma log_server_simps [simp]:
  "ds_version log_server = 4" "has_stop log_server" "has_create_keyboard log_server"
  "ds_stop log_server th s = s @ [(''stop'', th)]"
  "ds_create_client_socket log_server th s = (7, s @ [(''socket'', th)])"
  "ds_position_window_absolute log_server th c w x y s = s @ [(''position'', th)]"
  "ds_create_keyboard log_server th s = (12288, s @ [(''keyboard'', th)])"
  "keyboard_at log_platform a = log_keyboard"
  by (simp_all add: log_server_def log_platform_def)

lemma log_request_thread [simp]: "request_thread log_server = Event_loop"
  by (simp add: request_thread_def log_server_def)

lemma log_server_ctor:
  "server_ctor log_platform perfect_os (replicate max_message_size 0) log_hooks [] [] =
     (Inr (fst test_server, snd test_server), [])"
proof -
  have "make_context_if_needed log_platform log_server = Inr (Some thread_proxy_init)"
    by (simp add: make_context_if_needed_def log_server_def log_platform_def setup_socketpair_def)
  moreover have "extract_supported_extensions log_server [] = (Some [''wl_shell'' \<mapsto> 1], [])"
    by (simp add: extract_supported_extensions_def log_server_def)
  moreover have "hooks_version log_hooks = 1" "ds_version log_server = 4" "has_stop log_server"
    by (simp_all add: log_hooks_def log_server_def)
  ultimately show ?thesis by (simp add: server_ctor_def del: replicate.simps)
qed


theorem create_keyboard_supported_witness:
  "\<exists>kb p'. create_keyboard test_any log_platform (fst test_server) (snd test_server, []) =
      Some (Inr kb, (p', [(''keyboard'', Event_loop)])) \<and>
    keyboard_press test_any kb 30 (p', []) = Some (Inr (), (p', [(''down'', Event_loop), (''up'', Event_loop)]))"
  using create_keyboard_supported [OF perfect_os_reliable _ log_server_ctor log_create,
      of "[]" 12288 "[(''keyboard'', Event_loop)]" 30 "[]"]
  by (simp add: is_int_def log_keyboard_def WLCS_KEYBOARD_VERSION_def del: replicate.simps)

theorem server_construction_witness:
  "usable_server log_platform log_hooks log_server"
  using server_construction [OF log_create, where plat = log_platform and os = perfect_os and junk =
      "replicate max_message_size 0" and args = "[]" and s = "[]"]
  by (simp add: log_server_ctor del: replicate.simps)

end
