(* ===== verification/Input_Method.thy ===== *)
theory Input_Method
  imports Client_Input Server
begin

text \<open>
  \<^verbatim>\<open>src/input_method.cpp\<close>: the pointer and the touch device behind one interface, with which
  parametrised tests press, drag and release without knowing the kind of device. A device may be
  pressed only while it is up and dragged or released only while it is down; a violation is
  recorded as a failure of the test (\<^verbatim>\<open>ASSERT_THAT\<close>) and the method returns at once.
\<close>

section \<open>Devices\<close>

text \<open>
  A device: the wrapped \<^verbatim>\<open>Pointer\<close> or \<^verbatim>\<open>Touch\<close>, the flag \<^verbatim>\<open>button_down\<close> or
  \<^verbatim>\<open>is_down\<close>, and the failures its methods recorded. A method that throws leaves the object as
  it was.
\<close>

record 'd method_device =
  wrapped :: 'd
  device_down :: bool
  failures :: "string list"

type_synonym ('d, 'p, 's) method_call =
  "'d method_device \<Rightarrow> ('p, 's, 'd method_device) pcall"

definition new_device :: "'d \<Rightarrow> 'd method_device" where
  "new_device d = \<lparr>wrapped = d, device_down = False, failures = []\<rparr>"

definition assert_failed :: "string \<Rightarrow> ('d, 'p, 's) method_call" where
  "assert_failed msg me st = Some (Inr (me\<lparr>failures := failures me @ [msg]\<rparr>), st)"

definition then_set_down :: "('p, 's, unit) pcall \<Rightarrow> bool \<Rightarrow> ('d, 'p, 's) method_call" where
  "then_set_down f down me = pthen f (\<lambda>st. Some (Inr (me\<lparr>device_down := down\<rparr>), st))"

definition pointer_method_ctor ::
    "('p, 't, 's) proxy_ops \<Rightarrow> 's platform \<Rightarrow> ('t, 's) server_impl \<Rightarrow>
     ('p, 's, 't pointer_impl method_device) pcall" where
  "pointer_method_ctor ops plat srv st =
     map_option (map_prod (map_sum id new_device) id) (create_pointer ops plat srv st)"

definition pointer_method_down_at ::
    "('p, 't, 's) proxy_ops \<Rightarrow> (int \<Rightarrow> int) \<Rightarrow> int \<times> int \<Rightarrow> ('t pointer_impl, 'p, 's) method_call" where
  "pointer_method_down_at ops fixed position me =
     (if device_down me then assert_failed ''Called down_at() with pointer already down'' me
      else then_set_down
             (pthen (pointer_move_to ops fixed (wrapped me) (fst position) (snd position))
                    (left_button_down ops (wrapped me))) True me)"

definition pointer_method_move_to ::
    "('p, 't, 's) proxy_ops \<Rightarrow> (int \<Rightarrow> int) \<Rightarrow> int \<times> int \<Rightarrow> ('t pointer_impl, 'p, 's) method_call" where
  "pointer_method_move_to ops fixed position me =
     (if \<not> device_down me then assert_failed ''Called move_to() with pointer up'' me
      else then_set_down (pointer_move_to ops fixed (wrapped me) (fst position) (snd position)) True me)"

definition pointer_method_up :: "('p, 't, 's) proxy_ops \<Rightarrow> ('t pointer_impl, 'p, 's) method_call" where
  "pointer_method_up ops me =
     (if \<not> device_down me then assert_failed ''Called up() with pointer already up'' me
      else then_set_down (left_button_up ops (wrapped me)) False me)"

definition touch_method_ctor ::
    "('p, 't, 's) proxy_ops \<Rightarrow> 's platform \<Rightarrow> ('t, 's) server_impl \<Rightarrow>
     ('p, 's, ('t, 's) touch_impl method_device) pcall" where
  "touch_method_ctor ops plat srv st =
     map_option (map_prod (map_sum id new_device) id) (create_touch ops plat srv st)"

definition touch_method_down_at :: "int \<times> int \<Rightarrow> (('t, 's) touch_impl, 'p, 's) method_call" where
  "touch_method_down_at position me =
     (if device_down me then assert_failed ''Called down_at() with touch already down'' me
      else then_set_down (touch_down_at (wrapped me) (fst position) (snd position)) True me)"

definition touch_method_move_to :: "int \<times> int \<Rightarrow> (('t, 's) touch_impl, 'p, 's) method_call" where
  "touch_method_move_to position me =
     (if \<not> device_down me then assert_failed ''Called move_to() with touch up'' me
      else then_set_down (touch_move_to (wrapped me) (fst position) (snd position)) True me)"

definition touch_method_up :: "(('t, 's) touch_impl, 'p, 's) method_call" where
  "touch_method_up me =
     (if \<not> device_down me then assert_failed ''Called up() with touch already up'' me
      else then_set_down (touch_up_now (wrapped me)) False me)"

section \<open>Input methods\<close>

datatype input_method = PointerInputMethod | TouchInputMethod

fun input_method_name :: "input_method \<Rightarrow> string" where
  "input_method_name PointerInputMethod = ''pointer''"
| "input_method_name TouchInputMethod = ''touch''"

definition all_input_methods :: "input_method list" where
  "all_input_methods = [PointerInputMethod, TouchInputMethod]"

fun current_surface :: "input_method \<Rightarrow> 'w client_input \<Rightarrow> handle result" where
  "current_surface PointerInputMethod client = Inr (window_under_cursor client)"
| "current_surface TouchInputMethod client = touched_window client"

text \<open>\<^verbatim>\<open>wl_fixed_to_int\<close> of libwayland is the parameter \<open>to_int\<close>.\<close>

fun position_on_surface :: "(int \<Rightarrow> int) \<Rightarrow> input_method \<Rightarrow> 'w client_input \<Rightarrow> (int \<times> int) result" where
  "position_on_surface to_int PointerInputMethod client =
     map_sum id (map_prod to_int to_int) (pointer_position client)"
| "position_on_surface to_int TouchInputMethod client =
     map_sum id (map_prod to_int to_int) (touch_position client)"

section \<open>The contract of a device\<close>

text \<open>
  What a test does with a device, and what it means: a state machine with one bit. A gesture the
  state permits acts on the server; any other one only adds a failure.
\<close>

datatype gesture = Down_at "int \<times> int" | Move_to "int \<times> int" | Lift

fun permitted :: "bool \<Rightarrow> gesture \<Rightarrow> bool" where
  "permitted down (Down_at pos) \<longleftrightarrow> \<not> down"
| "permitted down (Move_to pos) \<longleftrightarrow> down"
| "permitted down Lift \<longleftrightarrow> down"

fun down_after :: "bool \<Rightarrow> gesture \<Rightarrow> bool" where
  "down_after down (Down_at pos) = True"
| "down_after down (Move_to pos) = down"
| "down_after down Lift = False"

text \<open>The effect on the server, the final state and the failures of a sequence of gestures.\<close>

fun gestures_spec ::
    "(gesture \<Rightarrow> 's \<Rightarrow> 's) \<Rightarrow> (gesture \<Rightarrow> string) \<Rightarrow> bool \<Rightarrow> gesture list \<Rightarrow> 's \<Rightarrow> 's \<times> bool \<times> string list" where
  "gestures_spec act msg down [] s = (s, down, [])"
| "gestures_spec act msg down (g # gs) s =
     (if permitted down g then gestures_spec act msg (down_after down g) gs (act g s)
      else case gestures_spec act msg down gs s of (s', d, fs) \<Rightarrow> (s', d, msg g # fs))"

fun device_method ::
    "(int \<times> int \<Rightarrow> ('d, 'p, 's) method_call) \<Rightarrow> (int \<times> int \<Rightarrow> ('d, 'p, 's) method_call) \<Rightarrow>
     ('d, 'p, 's) method_call \<Rightarrow> gesture \<Rightarrow> ('d, 'p, 's) method_call" where
  "device_method down_at move_to lift (Down_at pos) = down_at pos"
| "device_method down_at move_to lift (Move_to pos) = move_to pos"
| "device_method down_at move_to lift Lift = lift"

fun perform ::
    "(gesture \<Rightarrow> ('d, 'p, 's) method_call) \<Rightarrow> gesture list \<Rightarrow> ('d, 'p, 's) method_call" where
  "perform run_gesture [] me st = Some (Inr me, st)"
| "perform run_gesture (g # gs) me st =
     (case run_gesture g me st of
        None \<Rightarrow> None
      | Some (Inl e, st) \<Rightarrow> Some (Inl e, st)
      | Some (Inr me, st) \<Rightarrow> perform run_gesture gs me st)"

locale input_device =
  fixes run_gesture :: "gesture \<Rightarrow> ('d, 'p, 's) method_call"
    and act :: "gesture \<Rightarrow> 's \<Rightarrow> 's" and msg :: "gesture \<Rightarrow> string"
    and ready :: "'d \<Rightarrow> 'p \<Rightarrow> bool" and in_range :: "gesture \<Rightarrow> bool"
  assumes acts: "ready (wrapped me) p \<Longrightarrow> in_range g \<Longrightarrow> permitted (device_down me) g \<Longrightarrow>
      run_gesture g me (p, s) = Some (Inr (me\<lparr>device_down := down_after (device_down me) g\<rparr>), (p, act g s))"
    and refuses: "\<not> permitted (device_down me) g \<Longrightarrow>
      run_gesture g me st = Some (Inr (me\<lparr>failures := failures me @ [msg g]\<rparr>), st)"
begin

lemma perform_spec:
  assumes "ready (wrapped me) p" and "\<And>g. g \<in> set gs \<Longrightarrow> in_range g"
    and "gestures_spec act msg (device_down me) gs s = (s', d, fs)"
  shows "perform run_gesture gs me (p, s) =
    Some (Inr (me\<lparr>device_down := d, failures := failures me @ fs\<rparr>), (p, s'))"
  using assms
proof (induction gs arbitrary: me s fs)
  case (Cons g gs)
  show ?case
  proof (cases "permitted (device_down me) g")
    case True
    let ?me = "me\<lparr>device_down := down_after (device_down me) g\<rparr>"
    have "run_gesture g me (p, s) = Some (Inr ?me, (p, act g s))"
      using acts [OF Cons.prems(1) _ True] Cons.prems(2) by simp
    moreover have "perform run_gesture gs ?me (p, act g s) =
        Some (Inr (?me\<lparr>device_down := d, failures := failures ?me @ fs\<rparr>), (p, s'))"
      by (rule Cons.IH) (use Cons.prems True in simp_all)
    ultimately show ?thesis by simp
  next
    case False
    let ?me = "me\<lparr>failures := failures me @ [msg g]\<rparr>"
    obtain fs' where spec: "gestures_spec act msg (device_down me) gs s = (s', d, fs')" and fs: "fs = msg g # fs'"
      using Cons.prems(3) False by (auto split: prod.splits)
    have "perform run_gesture gs ?me (p, s) =
        Some (Inr (?me\<lparr>device_down := d, failures := failures ?me @ fs'\<rparr>), (p, s'))"
      by (rule Cons.IH) (use Cons.prems spec in simp_all)
    with False fs show ?thesis by (simp add: refuses)
  qed
qed simp

end

text \<open>The touch device satisfies the contract as it is: its methods call the device directly.\<close>

fun touch_act :: "'s wlcs_touch \<Rightarrow> gesture \<Rightarrow> 's \<Rightarrow> 's" where
  "touch_act dev (Down_at pos) = raw_touch_down dev Caller (fst pos) (snd pos)"
| "touch_act dev (Move_to pos) = raw_touch_move dev Caller (fst pos) (snd pos)"
| "touch_act dev Lift = raw_touch_up dev Caller"

fun touch_msg :: "gesture \<Rightarrow> string" where
  "touch_msg (Down_at pos) = ''Called down_at() with touch already down''"
| "touch_msg (Move_to pos) = ''Called move_to() with touch up''"
| "touch_msg Lift = ''Called up() with touch already up''"

abbreviation touch_method :: "gesture \<Rightarrow> (('t, 's) touch_impl, 'p, 's) method_call" where
  "touch_method \<equiv> device_method touch_method_down_at touch_method_move_to touch_method_up"

interpretation touch_dev: input_device touch_method "touch_act dev" touch_msg "\<lambda>me p. touch me = dev" "\<lambda>g. True"
  for dev
proof (unfold_locales, goal_cases)
  case (1 me p g s)
  then show ?case
    by (cases g) (simp_all add: touch_method_down_at_def touch_method_move_to_def touch_method_up_def then_set_down_def
        pthen_def touch_down_at_def touch_move_to_def touch_up_now_def)
next
  case (2 me g st)
  then show ?case
    by (cases g) (simp_all add: touch_method_down_at_def touch_method_move_to_def touch_method_up_def assert_failed_def)
qed

text \<open>The pointer satisfies it on every proxy that keeps the contract of a proxy.\<close>

fun pointer_act :: "(int \<Rightarrow> int) \<Rightarrow> 's wlcs_pointer \<Rightarrow> thread \<Rightarrow> gesture \<Rightarrow> 's \<Rightarrow> 's" where
  "pointer_act fixed dev th (Down_at pos) s =
     raw_button_down dev th BTN_LEFT (move_absolute dev th (fixed (fst pos)) (fixed (snd pos)) s)"
| "pointer_act fixed dev th (Move_to pos) s = move_absolute dev th (fixed (fst pos)) (fixed (snd pos)) s"
| "pointer_act fixed dev th Lift s = raw_button_up dev th BTN_LEFT s"

fun pointer_msg :: "gesture \<Rightarrow> string" where
  "pointer_msg (Down_at pos) = ''Called down_at() with pointer already down''"
| "pointer_msg (Move_to pos) = ''Called move_to() with pointer up''"
| "pointer_msg Lift = ''Called up() with pointer already up''"

fun fixed_in_range :: "(int \<Rightarrow> int) \<Rightarrow> gesture \<Rightarrow> bool" where
  "fixed_in_range fixed (Down_at pos) \<longleftrightarrow> is_int (fixed (fst pos)) \<and> is_int (fixed (snd pos))"
| "fixed_in_range fixed (Move_to pos) \<longleftrightarrow> is_int (fixed (fst pos)) \<and> is_int (fixed (snd pos))"
| "fixed_in_range fixed Lift \<longleftrightarrow> True"

abbreviation pointer_method ::
    "('p, 't, 's) proxy_ops \<Rightarrow> (int \<Rightarrow> int) \<Rightarrow> gesture \<Rightarrow> ('t pointer_impl, 'p, 's) method_call" where
  "pointer_method ops fixed \<equiv>
     device_method (pointer_method_down_at ops fixed) (pointer_method_move_to ops fixed) (pointer_method_up ops)"

lemma is_int_BTN_LEFT [simp]: "is_int BTN_LEFT"
  by (simp add: is_int_def BTN_LEFT_def)

context proxy_contract
begin

lemma pointer_input_device:
  "input_device (pointer_method ops fixed) (pointer_act fixed dev runs_on) pointer_msg
     (\<lambda>me p. pointer_ready p me dev \<and> room p k) (fixed_in_range fixed)"
proof (unfold_locales, goal_cases)
  case (1 me p g s)
  then have ready: "pointer_ready p (wrapped me) dev" and room: "room p k" by simp_all
  note calls = pointer_calls [OF room ready]
  show ?case
    using 1 by (cases g) (simp_all add: pointer_method_down_at_def pointer_method_move_to_def pointer_method_up_def
        then_set_down_def left_button_down_def left_button_up_def pthen_def calls)
next
  case (2 me g st)
  then show ?case
    by (cases g) (simp_all add: pointer_method_down_at_def pointer_method_move_to_def pointer_method_up_def assert_failed_def)
qed

end

interpretation null_pointer: input_device "pointer_method NullProxy fixed" "pointer_act fixed dev Caller" pointer_msg
    "\<lambda>me p. null_proxy.pointer_ready p me dev \<and> True" "fixed_in_range fixed" for fixed dev
  by (rule null_proxy.pointer_input_device)

section \<open>Properties\<close>


definition sample_gestures :: "gesture list" where
  "sample_gestures = [Lift, Down_at (1, 2), Down_at (3, 4), Move_to (5, 6), Lift]"

definition log_touch_impl :: "(nat \<times> nat option, device_call list) touch_impl" where
  "log_touch_impl =
     \<lparr>touch = log_touch 1, touch_deleter = (0, None), touch_down_thunk = (0, None), touch_move_thunk = (0, None),
      touch_up_thunk = (0, None)\<rparr>"


end
