(* ===== verification/Version_Specifier.thy ===== *)
theory Version_Specifier
  imports Prelude
begin

text \<open>
  The version specifiers of \<^verbatim>\<open>src/version_specifier.cpp\<close>: what a test asks of a protocol
  extension, and which version is bound given what the compositor offers and what the test suite
  was built against.
\<close>

section \<open>The three specifiers\<close>

datatype version_specifier =
    ExactlyVersion u32
  | AtLeastVersion u32
  | AtMostVersion u32

definition required_version_too_high :: "u32 \<Rightarrow> u32 \<Rightarrow> exn" where
  "required_version_too_high version max_supported_version =
     Logic_error (''Required version '' @ u32_to_string version @
       '' is higher than the highest version supported by WLCS ('' @
       u32_to_string max_supported_version @ '')'')"

fun select_version :: "version_specifier \<Rightarrow> u32 \<Rightarrow> u32 \<Rightarrow> u32 option result" where
  "select_version (ExactlyVersion version) max_available_version max_supported_version =
     (if version > max_supported_version
      then Inl (required_version_too_high version max_supported_version)
      else if version > max_available_version then Inr None
      else Inr (Some version))"
| "select_version (AtLeastVersion version) max_available_version max_supported_version =
     (if version > max_supported_version
      then Inl (required_version_too_high version max_supported_version)
      else if version > max_available_version then Inr None
      else Inr (Some (min max_available_version max_supported_version)))"
| "select_version (AtMostVersion version) max_available_version max_supported_version =
     Inr (Some (min version (min max_available_version max_supported_version)))"

fun describe :: "version_specifier \<Rightarrow> string" where
  "describe (ExactlyVersion version) = ''= '' @ u32_to_string version"
| "describe (AtLeastVersion version) = ''>= '' @ u32_to_string version"
| "describe (AtMostVersion version) = ''<= '' @ u32_to_string version"

definition AnyVersion :: version_specifier where
  "AnyVersion = AtLeastVersion 1"

section \<open>What a specifier means\<close>

text \<open>
  \<open>admits sp v\<close>: version \<open>v\<close> meets the specifier. \<open>usable\<close> adds that the compositor offers
  it and the test suite knows it.
\<close>

fun admits :: "version_specifier \<Rightarrow> u32 \<Rightarrow> bool" where
  "admits (ExactlyVersion n) v \<longleftrightarrow> v = n"
| "admits (AtLeastVersion n) v \<longleftrightarrow> n \<le> v"
| "admits (AtMostVersion n) v \<longleftrightarrow> v \<le> n"

definition usable :: "version_specifier \<Rightarrow> u32 \<Rightarrow> u32 \<Rightarrow> u32 \<Rightarrow> bool" where
  "usable sp max_available max_supported v \<longleftrightarrow>
     admits sp v \<and> v \<le> max_available \<and> v \<le> max_supported"

text \<open>The smallest version a specifier admits.\<close>

fun least_admitted :: "version_specifier \<Rightarrow> u32" where
  "least_admitted (ExactlyVersion n) = n"
| "least_admitted (AtLeastVersion n) = n"
| "least_admitted (AtMostVersion n) = 0"

lemma admits_least: "admits sp (least_admitted sp)"
  by (cases sp) auto

lemma least_admitted_le: "admits sp w \<Longrightarrow> least_admitted sp \<le> w"
  by (cases sp) auto

lemma select_version_Some:
  "select_version sp a s = Inr (Some v) \<Longrightarrow> usable sp a s v"
  by (cases sp) (auto simp: usable_def min_le_iff_disj split: if_splits)

lemma select_version_greatest:
  "select_version sp a s = Inr (Some v) \<Longrightarrow> usable sp a s w \<Longrightarrow> w \<le> v"
  by (cases sp) (auto simp: usable_def split: if_splits)

lemma select_version_None:
  "select_version sp a s = Inr None \<Longrightarrow> admits sp w \<Longrightarrow> a < w"
  by (cases sp) (auto split: if_splits)

lemma select_version_Inl:
  "select_version sp a s = Inl e \<Longrightarrow> admits sp w \<Longrightarrow> s < w"
  by (cases sp) (auto split: if_splits)

lemma select_version_known:
  "admits sp w \<Longrightarrow> w \<le> s \<Longrightarrow> \<exists>r. select_version sp a s = Inr r"
  by (cases sp) auto

lemma select_version_usable:
  assumes "usable sp a s w"
  shows "\<exists>v. select_version sp a s = Inr (Some v)"
  using assms by (cases sp) (auto simp: usable_def)

text \<open>
  Claim C33. \<^verbatim>\<open>select_version\<close> is exact: it returns \<open>v\<close> precisely when \<open>v\<close> is the
  greatest version that meets the specifier, is offered by the compositor and is known to the
  test suite.
\<close>

theorem select_version_best:
  "select_version sp a s = Inr (Some v) \<longleftrightarrow>
     usable sp a s v \<and> (\<forall>w. usable sp a s w \<longrightarrow> w \<le> v)"
proof
  assume "select_version sp a s = Inr (Some v)"
  then show "usable sp a s v \<and> (\<forall>w. usable sp a s w \<longrightarrow> w \<le> v)"
    using select_version_Some select_version_greatest by blast
next
  assume best: "usable sp a s v \<and> (\<forall>w. usable sp a s w \<longrightarrow> w \<le> v)"
  then obtain v' where v': "select_version sp a s = Inr (Some v')"
    using select_version_usable by blast
  then have "v' = v"
    using best select_version_Some select_version_greatest by (metis antisym)
  with v' show "select_version sp a s = Inr (Some v)" by simp
qed

theorem select_version_best_witness:
  "select_version (AtLeastVersion 2) 5 3 = Inr (Some 3)"
  unfolding select_version_best by (simp add: usable_def)

text \<open>
  The two ways \<^verbatim>\<open>select_version\<close> fails: it throws \<^verbatim>\<open>std::logic_error\<close> exactly
  when no version the test suite knows meets the specifier, and it returns no version exactly when
  some known version does but none that the compositor offers.
\<close>

theorem select_version_failures:
  "((\<exists>e. select_version sp a s = Inl e) \<longleftrightarrow> (\<forall>w. admits sp w \<longrightarrow> s < w)) \<and>
   (select_version sp a s = Inr None \<longleftrightarrow>
      (\<exists>w. admits sp w \<and> w \<le> s) \<and> (\<forall>w. admits sp w \<longrightarrow> a < w))"
proof -
  have err: "(\<exists>e. select_version sp a s = Inl e) \<longleftrightarrow> s < least_admitted sp"
    by (cases sp) auto
  have none: "select_version sp a s = Inr None \<longleftrightarrow> least_admitted sp \<le> s \<and> a < least_admitted sp"
    by (cases sp) (auto simp: not_less)
  have below: "(\<forall>w. admits sp w \<longrightarrow> b < w) \<longleftrightarrow> b < least_admitted sp" for b
    using admits_least least_admitted_le by (blast intro: less_le_trans)
  have above: "(\<exists>w. admits sp w \<and> w \<le> s) \<longleftrightarrow> least_admitted sp \<le> s"
    using admits_least least_admitted_le by (blast intro: order_trans)
  show ?thesis unfolding below above using err none by simp
qed

theorem select_version_failures_witness:
  "select_version (ExactlyVersion 3) 2 4 = Inr None"
  using select_version_failures [of "ExactlyVersion 3" 2 4] by simp

text \<open>
  The text a specifier prints in an error message identifies it: two specifiers with
  the same description are the same.
\<close>

theorem describe_inject: "describe sp = describe sp' \<longleftrightarrow> sp = sp'"
  by (cases sp; cases sp') auto

end
