(* ===== verification/Outputs.thy ===== *)
theory Outputs
  imports Prelude
begin

text \<open>
  What a client knows about the outputs: \<^verbatim>\<open>Client::Impl::Output\<close> and \<^verbatim>\<open>OutputState\<close> of
  \<^verbatim>\<open>src/in_process_server.cpp\<close> (double-buffered state, committed by \<^verbatim>\<open>wl_output.done\<close>), the
  accessors by index of \<^verbatim>\<open>Client\<close>, and \<^verbatim>\<open>XdgOutputV1\<close> of \<^verbatim>\<open>src/xdg_output_v1.cpp\<close>, which
  refuses to show a state that no \<^verbatim>\<open>done\<close> event has finished.
\<close>

section \<open>\<^verbatim>\<open>wl_output\<close>\<close>

record output_state =
  wl_output :: handle
  geometry_position :: "(int \<times> int) option"
  mode_size :: "(int \<times> int) option"
  scale :: "int option"

definition OutputState :: "handle \<Rightarrow> output_state" where
  "OutputState h = \<lparr>wl_output = h, geometry_position = None, mode_size = None, scale = None\<rparr>"

text \<open>A done notifier is a closure that changes the state \<open>'w\<close> of the test program.\<close>

record 'w output_obj =
  current :: output_state
  pending :: output_state
  done_notifiers :: "('w \<Rightarrow> 'w) list"

definition Output :: "handle \<Rightarrow> 'w output_obj" where
  "Output h = \<lparr>current = OutputState h, pending = OutputState h, done_notifiers = []\<rparr>"

definition geometry_thunk :: "int \<Rightarrow> int \<Rightarrow> 'w output_obj \<Rightarrow> 'w output_obj" where
  "geometry_thunk x y me = me\<lparr>pending := (pending me)\<lparr>geometry_position := Some (x, y)\<rparr>\<rparr>"

definition mode_thunk :: "u32 \<Rightarrow> int \<Rightarrow> int \<Rightarrow> 'w output_obj \<Rightarrow> 'w output_obj" where
  "mode_thunk flags width height me = me\<lparr>pending := (pending me)\<lparr>mode_size := Some (width, height)\<rparr>\<rparr>"

definition scale_thunk :: "int \<Rightarrow> 'w output_obj \<Rightarrow> 'w output_obj" where
  "scale_thunk factor me = me\<lparr>pending := (pending me)\<lparr>scale := Some factor\<rparr>\<rparr>"

definition name_thunk :: "string \<Rightarrow> 'w output_obj \<Rightarrow> 'w output_obj" where
  "name_thunk name me = me"

definition description_thunk :: "string \<Rightarrow> 'w output_obj \<Rightarrow> 'w output_obj" where
  "description_thunk description me = me"

definition commit_pending :: "'w output_obj \<Rightarrow> 'w output_obj" where
  "commit_pending me =
     (let me = (if geometry_position (pending me) \<noteq> None
                then me\<lparr>current := (current me)\<lparr>geometry_position := geometry_position (pending me)\<rparr>\<rparr> else me);
          me = (if mode_size (pending me) \<noteq> None
                then me\<lparr>current := (current me)\<lparr>mode_size := mode_size (pending me)\<rparr>\<rparr> else me);
          me = (if scale (pending me) \<noteq> None
                then me\<lparr>current := (current me)\<lparr>scale := scale (pending me)\<rparr>\<rparr> else me)
      in me\<lparr>pending := OutputState (wl_output (current me))\<rparr>)"

definition done_thunk :: "'w output_obj \<times> 'w \<Rightarrow> 'w output_obj \<times> 'w" where
  "done_thunk st =
     (case st of (me, w) \<Rightarrow>
       let me = commit_pending me in (me, fold (\<lambda>notifier w. notifier w) (done_notifiers me) w))"

text \<open>The listener table: one entry per event.\<close>

datatype output_event =
    Geometry int int
  | Mode u32 int int
  | Done
  | Scale int
  | Name string
  | Description string

fun output_listener :: "output_event \<Rightarrow> 'w output_obj \<times> 'w \<Rightarrow> 'w output_obj \<times> 'w" where
  "output_listener (Geometry x y) (me, w) = (geometry_thunk x y me, w)"
| "output_listener (Mode flags width height) (me, w) = (mode_thunk flags width height me, w)"
| "output_listener Done st = done_thunk st"
| "output_listener (Scale factor) (me, w) = (scale_thunk factor me, w)"
| "output_listener (Name n) (me, w) = (name_thunk n me, w)"
| "output_listener (Description d) (me, w) = (description_thunk d me, w)"

subsection \<open>Access by index\<close>

definition output_count :: "'w output_obj list \<Rightarrow> nat" where
  "output_count outputs = length outputs"

text \<open>\<^verbatim>\<open>outputs[index]\<close> on a vector is undefined behaviour when the index is out of range.\<close>

definition output_state_at :: "'w output_obj list \<Rightarrow> nat \<Rightarrow> output_state result" where
  "output_state_at outputs index =
     (if index > output_count outputs then Inl (Out_of_range ''Invalid output index'')
      else if index < length outputs then Inr (current (outputs ! index))
      else Inl (Undefined_behaviour ''outputs[index] out of range''))"

definition add_output_done_notifier ::
    "nat \<Rightarrow> ('w \<Rightarrow> 'w) \<Rightarrow> ('w output_obj list, unit) eff" where
  "add_output_done_notifier index notifier outputs =
     (if index > output_count outputs then (Inl (Runtime_error ''Invalid output index''), outputs)
      else if index < length outputs
      then (Inr (), outputs[index := (outputs ! index)\<lparr>done_notifiers :=
              done_notifiers (outputs ! index) @ [notifier]\<rparr>])
      else (Inl (Undefined_behaviour ''outputs[index] out of range''), outputs))"

section \<open>\<^verbatim>\<open>zxdg_output_v1\<close>\<close>

record xdg_output_state =
  logical_position :: "(int \<times> int) option"
  logical_size :: "(int \<times> int) option"
  xdg_name :: "string option"
  xdg_description :: "string option"

record xdg_output =
  xdg_proxy :: handle
  xdg_version :: u32
  dirty :: bool
  xdg_state :: xdg_output_state

definition XdgOutputV1 :: "handle \<Rightarrow> u32 \<Rightarrow> xdg_output" where
  "XdgOutputV1 h version =
     \<lparr>xdg_proxy = h, xdg_version = version, dirty = False,
      xdg_state = \<lparr>logical_position = None, logical_size = None, xdg_name = None, xdg_description = None\<rparr>\<rparr>"

text \<open>The last event is \<^verbatim>\<open>wl_output.done\<close>, which reaches the object through the done notifier.\<close>

datatype xdg_output_event =
    Logical_position int int
  | Logical_size int int
  | Xdg_done
  | Xdg_name string
  | Xdg_description string
  | Wl_output_done

text \<open>The notifier the constructor registers, for version 3 and later only.\<close>

definition xdg_output_done_notifier :: "xdg_output \<Rightarrow> (xdg_output \<Rightarrow> xdg_output) option" where
  "xdg_output_done_notifier me =
     (if xdg_version me \<ge> 3 then Some (\<lambda>impl. impl\<lparr>dirty := False\<rparr>) else None)"

fun xdg_output_listener :: "xdg_output_event \<Rightarrow> xdg_output \<Rightarrow> xdg_output" where
  "xdg_output_listener (Logical_position x y) me =
     me\<lparr>xdg_state := (xdg_state me)\<lparr>logical_position := Some (x, y)\<rparr>, dirty := True\<rparr>"
| "xdg_output_listener (Logical_size width height) me =
     me\<lparr>xdg_state := (xdg_state me)\<lparr>logical_size := Some (width, height)\<rparr>, dirty := True\<rparr>"
| "xdg_output_listener Xdg_done me = (if xdg_version me < 3 then me\<lparr>dirty := False\<rparr> else me)"
| "xdg_output_listener (Xdg_name n) me =
     me\<lparr>xdg_state := (xdg_state me)\<lparr>xdg_name := Some n\<rparr>, dirty := True\<rparr>"
| "xdg_output_listener (Xdg_description d) me =
     me\<lparr>xdg_state := (xdg_state me)\<lparr>xdg_description := Some d\<rparr>, dirty := True\<rparr>"
| "xdg_output_listener Wl_output_done me =
     (case xdg_output_done_notifier me of None \<Rightarrow> me | Some notifier \<Rightarrow> notifier me)"

definition xdg_output_get_state :: "xdg_output \<Rightarrow> xdg_output_state result" where
  "xdg_output_get_state me =
     (if dirty me
      then let done_event = (if xdg_version me \<ge> 3 then ''wl_output.done'' else ''zxdg_output_v1.done'')
           in Inl (Logic_error (''State change was not finished with a '' @ done_event @ '' event''))
      else Inr (xdg_state me))"

section \<open>Specification of \<^verbatim>\<open>wl_output\<close>\<close>

text \<open>
  The protocol: properties take effect at the next \<^verbatim>\<open>done\<close>. \<open>apply_property\<close> is the immediate
  effect of an event on the state, \<open>up_to_done\<close> the events up to the last \<^verbatim>\<open>done\<close>.
\<close>

fun apply_property :: "output_event \<Rightarrow> output_state \<Rightarrow> output_state" where
  "apply_property (Geometry x y) o' = o'\<lparr>geometry_position := Some (x, y)\<rparr>"
| "apply_property (Mode flags width height) o' = o'\<lparr>mode_size := Some (width, height)\<rparr>"
| "apply_property (Scale factor) o' = o'\<lparr>scale := Some factor\<rparr>"
| "apply_property _ o' = o'"

definition up_to_done :: "output_event list \<Rightarrow> output_event list" where
  "up_to_done es = rev (dropWhile (\<lambda>e. e \<noteq> Done) (rev es))"

definition after_done :: "output_event list \<Rightarrow> output_event list" where
  "after_done es = rev (takeWhile (\<lambda>e. e \<noteq> Done) (rev es))"

lemma up_to_done_snoc:
  "up_to_done (es @ [e]) = (if e = Done then es @ [e] else up_to_done es)"
  "after_done (es @ [e]) = (if e = Done then [] else after_done es @ [e])"
  by (simp_all add: up_to_done_def after_done_def)

lemma up_to_after: "up_to_done es @ after_done es = es"
  by (simp add: up_to_done_def after_done_def flip: rev_append)

text \<open>Overlaying one state on another, which is what a commit does.\<close>

definition overlay :: "output_state \<Rightarrow> output_state \<Rightarrow> output_state" where
  "overlay p c =
     \<lparr>wl_output = wl_output c,
      geometry_position = (if geometry_position p = None then geometry_position c else geometry_position p),
      mode_size = (if mode_size p = None then mode_size c else mode_size p),
      scale = (if scale p = None then scale c else scale p)\<rparr>"

lemma commit_pending_eq:
  "commit_pending me =
     me\<lparr>current := overlay (pending me) (current me), pending := OutputState (wl_output (current me))\<rparr>"
  by (cases me) (auto simp: commit_pending_def overlay_def)

lemma overlay_property: "overlay (apply_property e p) c = apply_property e (overlay p c)"
  by (cases e) (auto simp: overlay_def)

lemma overlay_properties: "overlay (fold apply_property es p) c = fold apply_property es (overlay p c)"
  by (induction es arbitrary: p) (simp_all add: overlay_property)

lemma overlay_new [simp]: "overlay (OutputState h) c = c"
  by (simp add: overlay_def OutputState_def)

lemma wl_output_apply [simp]: "wl_output (fold apply_property es o') = wl_output o'"
proof (induction es arbitrary: o')
  case (Cons e es)
  then show ?case by (cases e) simp_all
qed simp

text \<open>The state after any sequence of events.\<close>

lemma output_run:
  fixes o0 :: "'w output_obj"
  assumes "pending o0 = OutputState (wl_output (current o0))"
  shows "current (fst (fold output_listener es (o0, w))) = fold apply_property (up_to_done es) (current o0) \<and>
    pending (fst (fold output_listener es (o0, w))) =
      fold apply_property (after_done es) (OutputState (wl_output (current o0)))"
proof (induction es rule: rev_induct)
  case Nil
  then show ?case using assms by (simp add: up_to_done_def after_done_def)
next
  case (snoc e es)
  obtain me w' where st: "fold output_listener es (o0, w) = (me, w')" by fastforce
  with snoc have cur: "current me = fold apply_property (up_to_done es) (current o0)"
    and pend: "pending me = fold apply_property (after_done es) (OutputState (wl_output (current o0)))"
    by simp_all
  show ?case
  proof (cases e)
    case Done
    have "fold apply_property (after_done es) (fold apply_property (up_to_done es) (current o0)) =
        fold apply_property es (current o0)"
      by (metis fold_append o_apply up_to_after)
    then show ?thesis
      using Done st cur pend
      by (simp add: done_thunk_def Let_def up_to_done_snoc commit_pending_eq overlay_properties)
  qed (use st cur pend in \<open>simp_all add: up_to_done_snoc geometry_thunk_def mode_thunk_def scale_thunk_def
      name_thunk_def description_thunk_def\<close>)
qed

lemma fold_notifiers_world:
  "snd (fold output_listener es (o0, w)) = w" if "done_notifiers o0 = []" for o0 :: "'w output_obj"
proof -
  have "snd (fold output_listener es (o0, w)) = w \<and> done_notifiers (fst (fold output_listener es (o0, w))) = []"
  proof (induction es rule: rev_induct)
    case (snoc e es)
    obtain me w' where "fold output_listener es (o0, w) = (me, w')" by fastforce
    with snoc show ?case
      by (cases e) (simp_all add: done_thunk_def Let_def commit_pending_eq geometry_thunk_def mode_thunk_def
          scale_thunk_def name_thunk_def description_thunk_def)
  qed (simp add: that)
  then show ?thesis ..
qed

section \<open>Properties\<close>

text \<open>
  Claim C18. The double-buffered output state implements the protocol: whatever events arrive and in
  whatever order, the state a client shows is that of applying, in order, exactly the properties
  announced before the last \<^verbatim>\<open>done\<close>; properties announced after it are kept but not shown, and no
  event changes which output the state belongs to.
\<close>

theorem output_state_refines_protocol:
  fixes w :: 'w
  shows "current (fst (fold output_listener es (Output h, w))) =
      fold apply_property (up_to_done es) (OutputState h) \<and>
    overlay (pending (fst (fold output_listener es (Output h, w))))
        (current (fst (fold output_listener es (Output h, w)))) =
      fold apply_property es (OutputState h) \<and>
    wl_output (current (fst (fold output_listener es (Output h, w)))) = h"
proof -
  have init: "pending (Output h :: 'w output_obj) = OutputState (wl_output (current (Output h :: 'w output_obj)))"
    by (simp add: Output_def OutputState_def)
  note run = output_run [OF init, of es w]
  have cur: "current (fst (fold output_listener es (Output h, w))) =
      fold apply_property (up_to_done es) (OutputState h)"
    using run by (simp add: Output_def)
  moreover have "overlay (pending (fst (fold output_listener es (Output h, w))))
        (current (fst (fold output_listener es (Output h, w)))) =
      fold apply_property (after_done es) (fold apply_property (up_to_done es) (OutputState h))"
    using run cur by (simp add: overlay_properties)
  moreover have "fold apply_property (after_done es) (fold apply_property (up_to_done es) (OutputState h)) =
      fold apply_property es (OutputState h)"
    by (metis fold_append o_apply up_to_after)
  ultimately show ?thesis by (simp add: OutputState_def)
qed

text \<open>
  The bounds check of the accessors by index: for every index of an output the accessors
  read and extend exactly that output; an index greater than the number of outputs is refused with
  an exception; but the index equal to the number of outputs passes the check, and the accesses
  behind it are out of range.
\<close>

theorem output_index_check:
  "if index < output_count outputs then
     output_state_at outputs index = Inr (current (outputs ! index)) \<and>
     (case add_output_done_notifier index f outputs of
        (r, outputs') \<Rightarrow> r = Inr () \<and> length outputs' = length outputs \<and>
          done_notifiers (outputs' ! index) = done_notifiers (outputs ! index) @ [f] \<and>
          current (outputs' ! index) = current (outputs ! index) \<and>
          (\<forall>j. j \<noteq> index \<longrightarrow> outputs' ! j = outputs ! j))
   else if index > output_count outputs then
     output_state_at outputs index = Inl (Out_of_range ''Invalid output index'') \<and>
     add_output_done_notifier index f outputs = (Inl (Runtime_error ''Invalid output index''), outputs)
   else
     output_state_at outputs index = Inl (Undefined_behaviour ''outputs[index] out of range'') \<and>
     add_output_done_notifier index f outputs =
       (Inl (Undefined_behaviour ''outputs[index] out of range''), outputs)"
  by (auto simp: output_state_at_def add_output_done_notifier_def output_count_def)

theorem output_index_check_witness:
  "output_state_at [Output (Some 5) :: unit output_obj] 1 =
     Inl (Undefined_behaviour ''outputs[index] out of range'')"
  using output_index_check [of 1 "[Output (Some 5) :: unit output_obj]" id]
  by (simp add: output_count_def)

text \<open>Which events change the state, and which one finishes a change.\<close>

fun announces :: "xdg_output_event \<Rightarrow> bool" where
  "announces Xdg_done \<longleftrightarrow> False"
| "announces Wl_output_done \<longleftrightarrow> False"
| "announces _ \<longleftrightarrow> True"

definition finishes :: "u32 \<Rightarrow> xdg_output_event \<Rightarrow> bool" where
  "finishes version e \<longleftrightarrow> e = (if version \<ge> 3 then Wl_output_done else Xdg_done)"

lemma xdg_version_listener [simp]: "xdg_version (xdg_output_listener e me) = xdg_version me"
  by (cases e) (simp_all add: xdg_output_done_notifier_def)

lemma xdg_version_run [simp]: "xdg_version (fold xdg_output_listener es me) = xdg_version me"
  by (induction es arbitrary: me) simp_all

lemma xdg_version_new [simp]: "xdg_version (XdgOutputV1 h v) = v"
  by (simp add: XdgOutputV1_def)

lemma dirty_listener:
  "dirty (xdg_output_listener e me) \<longleftrightarrow> announces e \<or> (dirty me \<and> \<not> finishes (xdg_version me) e)"
  by (cases e) (auto simp: xdg_output_done_notifier_def finishes_def not_less)

lemma dirty_run:
  "dirty (fold xdg_output_listener es (XdgOutputV1 h v)) \<longleftrightarrow>
     (\<exists>before e after. es = before @ e # after \<and> announces e \<and> (\<forall>d. d \<in> set after \<longrightarrow> \<not> finishes v d))"
proof (induction es rule: rev_induct)
  case Nil
  then show ?case by (simp add: XdgOutputV1_def)
next
  case IH: (snoc x es)
  have v: "xdg_version (fold xdg_output_listener es (XdgOutputV1 h v)) = v" by (simp add: XdgOutputV1_def)
  have fin: "announces e \<Longrightarrow> \<not> finishes v e" for e by (cases e) (auto simp: finishes_def)
  show ?case (is "?l \<longleftrightarrow> ?r")
  proof
    assume ?l
    then consider "announces x" | "dirty (fold xdg_output_listener es (XdgOutputV1 h v))" "\<not> finishes v x"
      by (auto simp: dirty_listener v)
    then show ?r
    proof cases
      case 1
      then show ?thesis by fastforce
    next
      case 2
      then obtain b e a where "es = b @ e # a" "announces e" "\<forall>d. d \<in> set a \<longrightarrow> \<not> finishes v d"
        unfolding IH by auto
      with 2 show ?thesis by (intro exI [of _ b] exI [of _ e] exI [of _ "a @ [x]"]) auto
    qed
  next
    assume ?r
    then obtain b e a where *: "es @ [x] = b @ e # a" "announces e" "\<forall>d. d \<in> set a \<longrightarrow> \<not> finishes v d" by blast
    show ?l
    proof (cases a rule: rev_cases)
      case Nil
      with * show ?thesis by (simp add: dirty_listener)
    next
      case (snoc a' y)
      with * have "es = b @ e # a'" "y = x" by auto
      then have "dirty (fold xdg_output_listener es (XdgOutputV1 h v))"
        using * snoc unfolding IH by auto
      with * snoc \<open>y = x\<close> show ?thesis by (simp add: dirty_listener v)
    qed
  qed
qed

text \<open>
  An \<^verbatim>\<open>XdgOutputV1\<close> shows its state exactly when no property event is still waiting
  for its \<^verbatim>\<open>done\<close> event, which is \<^verbatim>\<open>zxdg_output_v1.done\<close> before version 3 and
  \<^verbatim>\<open>wl_output.done\<close> from version 3 on; the other \<^verbatim>\<open>done\<close> event never finishes a change.
\<close>

theorem xdg_output_state_needs_done:
  "(\<exists>state. xdg_output_get_state (fold xdg_output_listener es (XdgOutputV1 h v)) = Inr state) \<longleftrightarrow>
   \<not> (\<exists>before e after. es = before @ e # after \<and> announces e \<and> list_all (\<lambda>d. \<not> finishes v d) after)"
  unfolding list_all_iff Ball_def dirty_run [of es h v, symmetric]
  by (simp add: xdg_output_get_state_def)

end
