(* ===== verification/Client_Registry.thy ===== *)
theory Client_Registry
  imports Version_Specifier Outputs
begin

text \<open>
  \<^verbatim>\<open>Client::Impl\<close> of \<^verbatim>\<open>src/in_process_server.cpp\<close>, without its input members (theory
  \<open>Client_Input\<close>): connecting, the registry of globals, binding protocol objects, the choice of a
  shell, error reporting, and destruction. libwayland is not part of the sources: what the code
  calls of it is the parameter \<open>lib\<close>, and every request the client makes is appended to the log
  \<open>calls\<close>, in order. Functions that dispatch events (such as \<^verbatim>\<open>wl_display_roundtrip\<close>) may change
  the client through its handlers, so as parameters they map a client to a client.
\<close>

section \<open>Calls to libwayland\<close>

datatype call =
    Get_registry handle
  | Add_listener string handle
  | Bind u32 string u32
  | Get_keyboard handle
  | Get_pointer handle
  | Get_touch handle
  | Destroy string handle
  | Disconnect handle
  | Create_surface handle
  | Attach handle handle int int
  | Commit handle
  | Frame handle
  | Get_subsurface handle handle handle
  | Set_position handle int int
  | Get_shell_surface handle handle
  | Set_toplevel handle
  | Get_xdg_surface string handle handle
  | Get_xdg_toplevel string handle
  | Ack_configure handle u32
  | Create_pool handle int int
  | Pool_create_buffer handle int int int int u32
  | New_object string "handle list" "int list"
  | Request string "handle list" "int list"
  | Text_request string "handle list" string

text \<open>A callback of the test program: it may make calls and change the test's state.\<close>

type_synonym 'w callback = "call list \<times> 'w \<Rightarrow> call list \<times> 'w"

section \<open>State\<close>

record global =
  global_id :: u32
  global_version :: u32

record 'w client =
  client_extensions :: "(string \<rightharpoonup> u32) option"
  display :: handle
  registry :: handle
  compositor :: handle
  subcompositor :: handle
  shm :: handle
  shell :: handle
  seat :: handle
  client_keyboard :: handle
  client_pointer :: handle
  client_touch :: handle
  xdg_shell_v6 :: handle
  destruction_callbacks :: "'w callback list"
  xdg_shell_stable :: handle
  globals :: "string \<rightharpoonup> global"
  global_type_names :: "u32 \<rightharpoonup> string"
  outputs :: "'w output_obj list"
  calls :: "call list"
  env :: 'w

definition new_client :: "(string \<rightharpoonup> u32) option \<Rightarrow> 'w \<Rightarrow> 'w client" where
  "new_client extensions w =
     \<lparr>client_extensions = extensions, display = nullptr, registry = nullptr, compositor = nullptr,
      subcompositor = nullptr, shm = nullptr, shell = nullptr, seat = nullptr,
      client_keyboard = nullptr, client_pointer = nullptr, client_touch = nullptr,
      xdg_shell_v6 = nullptr, destruction_callbacks = [], xdg_shell_stable = nullptr,
      globals = Map.empty, global_type_names = Map.empty, outputs = [], calls = [], env = w\<rparr>"

text \<open>
  libwayland, the system calls and the test framework. \<open>new_proxy cs\<close> is the object the last
  call of the log \<open>cs\<close> created; \<open>interface_version\<close> is the version in the generated protocol code.
\<close>

record 'w libwayland =
  new_proxy :: "call list \<Rightarrow> handle"
  interface_version :: "string \<Rightarrow> u32"
  wl_display_connect_to_fd :: "int \<Rightarrow> handle"
  wl_display_connect :: handle
  wl_display_roundtrip :: "'w client \<Rightarrow> int \<times> 'w client"
  wl_display_get_error :: "'w client \<Rightarrow> int"
  wl_display_get_protocol_error :: "'w client \<Rightarrow> (string \<times> u32) option \<times> u32"
  wl_display_flush :: "'w client \<Rightarrow> int \<times> 'w client"
  wl_display_prepare_read :: "'w client \<Rightarrow> int \<times> 'w client"
  wl_display_dispatch_pending :: "'w client \<Rightarrow> int \<times> 'w client"
  wl_display_read_events :: "'w client \<Rightarrow> int \<times> 'w client"
  wl_display_cancel_read :: "'w client \<Rightarrow> 'w client"
  poll :: "int \<Rightarrow> 'w client \<Rightarrow> int \<times> 'w client"
  steady_clock_now :: "'w client \<Rightarrow> int \<times> 'w client"
  errno :: "'w client \<Rightarrow> int"
  RecordProperty :: "string \<Rightarrow> string \<Rightarrow> 'w \<Rightarrow> 'w"

definition do_call :: "call \<Rightarrow> 'w client \<Rightarrow> 'w client" where
  "do_call c me = me\<lparr>calls := calls me @ [c]\<rparr>"

definition call_new :: "'w libwayland \<Rightarrow> call \<Rightarrow> 'w client \<Rightarrow> handle \<times> 'w client" where
  "call_new lib c me = (new_proxy lib (calls me @ [c]), do_call c me)"

section \<open>Errors\<close>

definition EPROTO :: int where "EPROTO = 71"

definition EAGAIN :: int where "EAGAIN = 11"

definition throw_wayland_error :: "'w libwayland \<Rightarrow> ('w client, 'a) eff" where
  "throw_wayland_error lib me =
     (let err = wl_display_get_error lib me in
      if err \<noteq> EPROTO
      then (Inl (System_error err ''Error while dispatching Wayland events''), me)
      else case wl_display_get_protocol_error lib me of
          (interface, protocol_error) \<Rightarrow> (Inl (Protocol_error interface protocol_error), me))"

fun interface_description_if_valid :: "(string \<times> u32) option \<Rightarrow> string" where
  "interface_description_if_valid (Some (name, version)) = name @ '' v'' @ u32_to_string version"
| "interface_description_if_valid None = ''<UNKNOWN INTERFACE>''"

definition protocol_error_what :: "(string \<times> u32) option \<Rightarrow> u32 \<Rightarrow> string" where
  "protocol_error_what interface code =
     ''Wayland protocol error: '' @ u32_to_string code @ '' on interface '' @
     interface_description_if_valid interface"

text \<open>Constructing the exception records the reason for which the test is skipped.\<close>

definition ExtensionExpectedlyNotSupported ::
    "'w libwayland \<Rightarrow> string \<Rightarrow> version_specifier \<Rightarrow> ('w client, 'a) eff" where
  "ExtensionExpectedlyNotSupported lib extension version me =
     (let skip_reason = ''Missing extension: '' @ extension @ describe version in
      (Inl (Extension_expectedly_not_supported extension (describe version)),
       me\<lparr>env := RecordProperty lib ''wlcs-skip-test'' skip_reason (env me)\<rparr>))"

definition server_roundtrip :: "'w libwayland \<Rightarrow> ('w client, unit) eff" where
  "server_roundtrip lib me =
     (case wl_display_roundtrip lib me of
        (r, me) \<Rightarrow> if r < 0 then throw_wayland_error lib me else (Inr (), me))"

definition client_flush :: "'w libwayland \<Rightarrow> ('w client, unit) eff" where
  "client_flush lib me =
     (case wl_display_flush lib me of
        (r, me) \<Rightarrow>
          if r = -1 then (if errno lib me \<noteq> EAGAIN then throw_wayland_error lib me else (Inr (), me))
          else (Inr (), me))"

section \<open>The registry\<close>

definition safe_bind :: "'w libwayland \<Rightarrow> u32 \<Rightarrow> string \<Rightarrow> u32 \<Rightarrow> 'w client \<Rightarrow> handle \<times> 'w client" where
  "safe_bind lib name iface version me =
     call_new lib (Bind name iface (min version (interface_version lib iface))) me"

definition global_handler :: "'w libwayland \<Rightarrow> u32 \<Rightarrow> string \<Rightarrow> u32 \<Rightarrow> ('w client, unit) eff" where
  "global_handler lib ident interface version me =
     (let me = me\<lparr>global_type_names := (global_type_names me)(ident \<mapsto> interface)\<rparr>;
          me = me\<lparr>globals := (globals me)(interface \<mapsto> \<lparr>global_id = ident, global_version = version\<rparr>)\<rparr>
      in if interface = ''wl_shm'' then
           (case safe_bind lib ident ''wl_shm'' version me of (h, me) \<Rightarrow> (Inr (), me\<lparr>shm := h\<rparr>))
         else if interface = ''wl_compositor'' then
           (case safe_bind lib ident ''wl_compositor'' version me of (h, me) \<Rightarrow> (Inr (), me\<lparr>compositor := h\<rparr>))
         else if interface = ''wl_subcompositor'' then
           (case safe_bind lib ident ''wl_subcompositor'' version me of (h, me) \<Rightarrow> (Inr (), me\<lparr>subcompositor := h\<rparr>))
         else if interface = ''wl_shell'' then
           (case safe_bind lib ident ''wl_shell'' version me of (h, me) \<Rightarrow> (Inr (), me\<lparr>shell := h\<rparr>))
         else if interface = ''wl_seat'' then
           (case safe_bind lib ident ''wl_seat'' version me of (h, me) \<Rightarrow>
              server_roundtrip lib (do_call (Add_listener ''wl_seat'' h) (me\<lparr>seat := h\<rparr>)))
         else if interface = ''wl_output'' then
           (case safe_bind lib ident ''wl_output'' version me of (h, me) \<Rightarrow>
              let me = do_call (Add_listener ''wl_output'' h) me;
                  me = me\<lparr>outputs := outputs me @ [Output h]\<rparr>
              in server_roundtrip lib me)
         else if interface = ''zxdg_shell_v6'' then
           (case safe_bind lib ident ''zxdg_shell_v6'' version me of (h, me) \<Rightarrow> (Inr (), me\<lparr>xdg_shell_v6 := h\<rparr>))
         else if interface = ''xdg_wm_base'' then
           (case safe_bind lib ident ''xdg_wm_base'' version me of (h, me) \<Rightarrow> (Inr (), me\<lparr>xdg_shell_stable := h\<rparr>))
         else (Inr (), me))"

definition global_removed :: "u32 \<Rightarrow> 'w client \<Rightarrow> 'w client" where
  "global_removed ident me =
     (case global_type_names me ident of
        Some name \<Rightarrow>
          me\<lparr>globals := (globals me)(name := None), global_type_names := (global_type_names me)(ident := None)\<rparr>
      | None \<Rightarrow> me)"

definition seat_capabilities :: "'w libwayland \<Rightarrow> handle \<Rightarrow> u32 \<Rightarrow> 'w client \<Rightarrow> 'w client" where
  "seat_capabilities lib seat_handle capabilities me =
     (let me = (if bit capabilities 1
                then case call_new lib (Get_keyboard seat_handle) me of (h, me) \<Rightarrow>
                       do_call (Add_listener ''wl_keyboard'' h) (me\<lparr>client_keyboard := h\<rparr>)
                else me);
          me = (if bit capabilities 0
                then case call_new lib (Get_pointer seat_handle) me of (h, me) \<Rightarrow>
                       do_call (Add_listener ''wl_pointer'' h) (me\<lparr>client_pointer := h\<rparr>)
                else me);
          me = (if bit capabilities 2
                then case call_new lib (Get_touch seat_handle) me of (h, me) \<Rightarrow>
                       do_call (Add_listener ''wl_touch'' h) (me\<lparr>client_touch := h\<rparr>)
                else me)
      in me)"

text \<open>The tables of the listeners; the name of a seat is ignored.\<close>

datatype registry_event = Global_announced u32 string u32 | Global_withdrawn u32

fun registry_listener :: "'w libwayland \<Rightarrow> registry_event \<Rightarrow> ('w client, unit) eff" where
  "registry_listener lib (Global_announced ident interface version) me = global_handler lib ident interface version me"
| "registry_listener lib (Global_withdrawn ident) me = (Inr (), global_removed ident me)"

datatype seat_event = Seat_capabilities u32 | Seat_name string

fun seat_listener :: "'w libwayland \<Rightarrow> handle \<Rightarrow> seat_event \<Rightarrow> 'w client \<Rightarrow> 'w client" where
  "seat_listener lib seat_handle (Seat_capabilities capabilities) me = seat_capabilities lib seat_handle capabilities me"
| "seat_listener lib seat_handle (Seat_name name) me = me"

section \<open>Construction and destruction\<close>

text \<open>
  \<open>socket\<close> is the outcome of \<^verbatim>\<open>server.create_client_socket()\<close>. An exception leaves the
  constructor without running the destructor.
\<close>

definition client_ctor ::
    "'w libwayland \<Rightarrow> (string \<rightharpoonup> u32) option \<Rightarrow> int result \<Rightarrow> 'w \<Rightarrow> unit result \<times> 'w client" where
  "client_ctor lib extensions socket w =
     (let me = new_client extensions w;
          connected = (case socket of
             Inr fd \<Rightarrow> Inr (wl_display_connect_to_fd lib fd)
           | Inl (Shim_not_implemented m) \<Rightarrow> Inr (wl_display_connect lib)
           | Inl e \<Rightarrow> Inl e)
      in case connected of
           Inl e \<Rightarrow> (Inl e, me)
         | Inr None \<Rightarrow> (Inl (Runtime_error ''Failed to connect to Wayland socket''), me)
         | Inr (Some d) \<Rightarrow>
             (case call_new lib (Get_registry (Some d)) (me\<lparr>display := Some d\<rparr>) of
                (h, me) \<Rightarrow> server_roundtrip lib (do_call (Add_listener ''wl_registry'' h) (me\<lparr>registry := h\<rparr>))))"

definition destroy_if :: "string \<Rightarrow> handle \<Rightarrow> 'w client \<Rightarrow> 'w client" where
  "destroy_if kind h me = (if h \<noteq> nullptr then do_call (Destroy kind h) me else me)"

definition run_callback :: "'w callback \<Rightarrow> 'w client \<Rightarrow> 'w client" where
  "run_callback f me = (case f (calls me, env me) of (cs, w) \<Rightarrow> me\<lparr>calls := cs, env := w\<rparr>)"

definition client_destructor :: "'w client \<Rightarrow> 'w client" where
  "client_destructor me =
     (let me = destroy_if ''wl_shm'' (shm me) me;
          me = destroy_if ''wl_shell'' (shell me) me;
          me = destroy_if ''wl_compositor'' (compositor me) me;
          me = destroy_if ''wl_subcompositor'' (subcompositor me) me;
          me = destroy_if ''wl_registry'' (registry me) me;
          me = destroy_if ''wl_seat'' (seat me) me;
          me = destroy_if ''wl_keyboard'' (client_keyboard me) me;
          me = destroy_if ''wl_pointer'' (client_pointer me) me;
          me = destroy_if ''wl_touch'' (client_touch me) me;
          me = destroy_if ''zxdg_shell_v6'' (xdg_shell_v6 me) me;
          me = destroy_if ''xdg_wm_base'' (xdg_shell_stable me) me;
          me = fold (\<lambda>out. do_call (Destroy ''wl_output'' (wl_output (current out)))) (outputs me) me;
          me = fold run_callback (destruction_callbacks me) me;
          me = me\<lparr>destruction_callbacks := []\<rparr>
      in do_call (Disconnect (display me)) me)"

definition run_on_destruction :: "'w callback \<Rightarrow> 'w client \<Rightarrow> 'w client" where
  "run_on_destruction f me = me\<lparr>destruction_callbacks := destruction_callbacks me @ [f]\<rparr>"

section \<open>Binding what a test needs\<close>

text \<open>\<^verbatim>\<open>expected_to_be_supported\<close>; both occurrences of \<^verbatim>\<open>select_version\<close> may throw.\<close>

definition expected_to_be_supported ::
    "'w libwayland \<Rightarrow> string \<Rightarrow> version_specifier \<Rightarrow> 'w client \<Rightarrow> bool option result" where
  "expected_to_be_supported lib name version me =
     (case client_extensions me of
        None \<Rightarrow> Inr None
      | Some extensions \<Rightarrow>
          (case extensions name of
             None \<Rightarrow> Inr (Some False)
           | Some offered \<Rightarrow>
               (case select_version version offered (interface_version lib name) of
                  Inl e \<Rightarrow> Inl e
                | Inr v \<Rightarrow> Inr (Some (v \<noteq> None)))))"

definition failed_to_bind :: "string \<Rightarrow> version_specifier \<Rightarrow> exn" where
  "failed_to_bind name version =
     Runtime_error (''Failed to bind to '' @ name @ '' version '' @ describe version)"

definition bind_if_supported ::
    "'w libwayland \<Rightarrow> string \<Rightarrow> version_specifier \<Rightarrow> ('w client, handle) eff" where
  "bind_if_supported lib name version me =
     (case expected_to_be_supported lib name version me of
        Inl e \<Rightarrow> (Inl e, me)
      | Inr expected \<Rightarrow>
          (case globals me name of
             Some g \<Rightarrow>
               (case select_version version (global_version g) (interface_version lib name) of
                  Inl e \<Rightarrow> (Inl e, me)
                | Inr (Some version_to_bind) \<Rightarrow>
                    (case call_new lib (Bind (global_id g) name version_to_bind) me of
                       (global_proxy, me) \<Rightarrow>
                         if global_proxy = nullptr then throw_wayland_error lib me
                         else (Inr global_proxy, me))
                | Inr None \<Rightarrow>
                    if expected = Some False then ExtensionExpectedlyNotSupported lib name version me
                    else (Inl (failed_to_bind name version), me))
           | None \<Rightarrow>
               if expected = Some False then ExtensionExpectedlyNotSupported lib name version me
               else (Inl (failed_to_bind name version), me)))"

definition the_shell :: "'w libwayland \<Rightarrow> ('w client, handle) eff" where
  "the_shell lib me =
     (if shell me \<noteq> nullptr then (Inr (shell me), me)
      else if client_extensions me = None \<or> the (client_extensions me) ''wl_shell'' = None
      then ExtensionExpectedlyNotSupported lib ''wl_shell'' AnyVersion me
      else (Inl (Runtime_error ''Failed to bind to wl_shell''), me))"

definition the_xdg_shell_v6 :: "'w libwayland \<Rightarrow> ('w client, handle) eff" where
  "the_xdg_shell_v6 lib me =
     (if xdg_shell_v6 me \<noteq> nullptr then (Inr (xdg_shell_v6 me), me)
      else if client_extensions me = None \<or> the (client_extensions me) ''zxdg_shell_v6'' = None
      then ExtensionExpectedlyNotSupported lib ''zxdg_shell_v6'' AnyVersion me
      else (Inl (Runtime_error ''Failed to bind to zxdg_shell_v6''), me))"

section \<open>Lemmas\<close>

lemma calls_do_call [simp]: "calls (do_call c me) = calls me @ [c]"
  by (simp add: do_call_def)

lemma throw_wayland_error_simps [simp]:
  "throw_wayland_error lib me \<noteq> (Inr x, me')"
  "throw_wayland_error lib me \<noteq> (Inl (Extension_expectedly_not_supported n d), me')"
  "snd (throw_wayland_error lib me) = me"
  "fst (throw_wayland_error lib me) \<noteq> Inr x"
  by (simp_all add: throw_wayland_error_def Let_def split: prod.split)

lemma skip_not_Inr [simp]: "ExtensionExpectedlyNotSupported lib name sp me \<noteq> (Inr x, me')"
  by (simp add: ExtensionExpectedlyNotSupported_def Let_def)

lemma skip_result [simp]:
  "fst (ExtensionExpectedlyNotSupported lib name sp me) =
     Inl (Extension_expectedly_not_supported name (describe sp))"
  "calls (snd (ExtensionExpectedlyNotSupported lib name sp me)) = calls me"
  by (simp_all add: ExtensionExpectedlyNotSupported_def Let_def)

lemma failed_to_bind_not_skip [simp]: "failed_to_bind name sp \<noteq> Extension_expectedly_not_supported n d"
  by (simp add: failed_to_bind_def)

lemma select_version_exn: "select_version sp a s = Inl e \<Longrightarrow> e \<noteq> Extension_expectedly_not_supported n d"
  by (cases sp) (auto simp: required_version_too_high_def split: if_splits)

text \<open>Whether some version meets the specifier, the compositor's offer and the suite's knowledge.\<close>

definition offers :: "'w libwayland \<Rightarrow> string \<Rightarrow> version_specifier \<Rightarrow> u32 \<Rightarrow> bool" where
  "offers lib name sp available \<longleftrightarrow> (\<exists>v. usable sp available (interface_version lib name) v)"

lemma select_version_offers:
  "select_version sp a (interface_version lib name) = Inr (Some v) \<Longrightarrow> offers lib name sp a"
  "select_version sp a (interface_version lib name) = Inr None \<Longrightarrow> \<not> offers lib name sp a"
  "select_version sp a (interface_version lib name) = Inl e \<Longrightarrow> \<not> offers lib name sp a"
  using select_version_Some [of sp a "interface_version lib name"]
    select_version_None [of sp a "interface_version lib name"]
    select_version_Inl [of sp a "interface_version lib name"]
  by (auto simp: offers_def usable_def not_le [symmetric])

lemma expected_False:
  "expected_to_be_supported lib name sp me = Inr (Some False) \<longleftrightarrow>
     (\<exists>exts. client_extensions me = Some exts \<and>
        (case exts name of None \<Rightarrow> True
         | Some offered \<Rightarrow> select_version sp offered (interface_version lib name) = Inr None))"
  by (auto simp: expected_to_be_supported_def split: option.splits sum.splits)

lemma expected_claimed:
  "expected_to_be_supported lib name sp me = Inr (Some False) \<Longrightarrow>
   \<exists>exts. client_extensions me = Some exts \<and> (\<forall>offered. exts name = Some offered \<longrightarrow> \<not> offers lib name sp offered)"
  unfolding expected_False by (auto dest: select_version_offers(2) split: option.splits)

subsection \<open>Consistency of the registry\<close>

definition registry_inv :: "'w client \<Rightarrow> bool" where
  "registry_inv me \<longleftrightarrow>
     (\<forall>name g. globals me name = Some g \<longrightarrow> global_type_names me (global_id g) = Some name)"

lemma registry_inv_cong:
  "globals me' = globals me \<Longrightarrow> global_type_names me' = global_type_names me \<Longrightarrow>
   registry_inv me' = registry_inv me"
  by (simp add: registry_inv_def)

lemma registry_inv_announce:
  assumes "registry_inv me" and "global_type_names me ident = None"
  shows "registry_inv (me\<lparr>global_type_names := (global_type_names me)(ident \<mapsto> iface),
    globals := (globals me)(iface \<mapsto> \<lparr>global_id = ident, global_version = v\<rparr>)\<rparr>)"
  using assms by (fastforce simp: registry_inv_def)

lemma registry_inv_removed: "registry_inv me \<Longrightarrow> registry_inv (global_removed ident me)"
  by (auto simp: registry_inv_def global_removed_def split: option.split)

definition roundtrip_keeps_registry :: "'w libwayland \<Rightarrow> bool" where
  "roundtrip_keeps_registry lib \<longleftrightarrow>
     (\<forall>me. registry_inv me \<longrightarrow> registry_inv (snd (wl_display_roundtrip lib me)))"

lemma registry_inv_roundtrip:
  "roundtrip_keeps_registry lib \<Longrightarrow> registry_inv me \<Longrightarrow> registry_inv (snd (server_roundtrip lib me))"
  by (simp add: server_roundtrip_def roundtrip_keeps_registry_def split: prod.split) (metis snd_conv)

lemma registry_inv_handler:
  assumes "roundtrip_keeps_registry lib" and "registry_inv me" and "global_type_names me ident = None"
  shows "registry_inv (snd (global_handler lib ident iface v me))"
proof -
  let ?me = "me\<lparr>global_type_names := (global_type_names me)(ident \<mapsto> iface),
    globals := (globals me)(iface \<mapsto> \<lparr>global_id = ident, global_version = v\<rparr>)\<rparr>"
  note inv = registry_inv_announce [OF assms(2,3), of iface v]
  have keep: "registry_inv me'" if "globals me' = globals ?me" "global_type_names me' = global_type_names ?me" for me'
    using inv registry_inv_cong [OF that] by simp
  have rt: "registry_inv (snd (server_roundtrip lib me'))"
    if "globals me' = globals ?me" "global_type_names me' = global_type_names ?me" for me'
    using registry_inv_roundtrip [OF assms(1) keep [OF that]] .
  show ?thesis
    unfolding global_handler_def Let_def
    by (simp add: safe_bind_def call_new_def keep rt do_call_def)
qed

inductive registry_reachable :: "'w libwayland \<Rightarrow> 'w client \<Rightarrow> bool" for lib where
  start: "registry_reachable lib (new_client exts w)"
| announce: "registry_reachable lib me \<Longrightarrow> global_type_names me ident = None \<Longrightarrow>
     global_handler lib ident iface v me = (r, me') \<Longrightarrow> registry_reachable lib me'"
| remove: "registry_reachable lib me \<Longrightarrow> registry_reachable lib (global_removed ident me)"
| other: "registry_reachable lib me \<Longrightarrow> globals me' = globals me \<Longrightarrow>
     global_type_names me' = global_type_names me \<Longrightarrow> registry_reachable lib me'"

text \<open>The events of the registry and of the seat stay within the reachable states.\<close>

lemma registry_listener_reachable:
  assumes "registry_reachable lib me" and "registry_listener lib e me = (r, me')"
    and "\<And>ident i v. e = Global_announced ident i v \<Longrightarrow> global_type_names me ident = None"
  shows "registry_reachable lib me'"
  using assms by (cases e) (auto intro: registry_reachable.announce registry_reachable.remove)

lemma seat_listener_reachable: "registry_reachable lib me \<Longrightarrow> registry_reachable lib (seat_listener lib s e me)"
  by (rule registry_reachable.other [where me = me])
    (cases e; simp add: seat_capabilities_def call_new_def do_call_def Let_def)+

lemma registry_inv_reachable:
  assumes "roundtrip_keeps_registry lib" and "registry_reachable lib me"
  shows "registry_inv me"
  using assms(2)
proof (induction rule: registry_reachable.induct)
  case (start exts w)
  show ?case by (simp add: registry_inv_def new_client_def)
next
  case (announce me ident iface v r me')
  then show ?case using registry_inv_handler [OF assms(1), of me ident iface v] by simp
next
  case (remove me ident)
  from remove.IH show ?case by (rule registry_inv_removed)
next
  case (other me me')
  then show ?case using registry_inv_cong [of me' me] by simp
qed

subsection \<open>Destruction\<close>

lemma destroy_if_fields [simp]:
  "shm (destroy_if k h me) = shm me" "shell (destroy_if k h me) = shell me"
  "compositor (destroy_if k h me) = compositor me" "subcompositor (destroy_if k h me) = subcompositor me"
  "registry (destroy_if k h me) = registry me" "seat (destroy_if k h me) = seat me"
  "client_keyboard (destroy_if k h me) = client_keyboard me" "client_pointer (destroy_if k h me) = client_pointer me"
  "client_touch (destroy_if k h me) = client_touch me" "xdg_shell_v6 (destroy_if k h me) = xdg_shell_v6 me"
  "xdg_shell_stable (destroy_if k h me) = xdg_shell_stable me" "outputs (destroy_if k h me) = outputs me"
  "destruction_callbacks (destroy_if k h me) = destruction_callbacks me"
  "display (destroy_if k h me) = display me" "env (destroy_if k h me) = env me"
  by (simp_all add: destroy_if_def do_call_def)

lemma fold_destroy_if:
  "fold (\<lambda>(k, h). destroy_if k h) objs me =
     me\<lparr>calls := calls me @ map (\<lambda>(k, h). Destroy k h) (filter (\<lambda>(k, h). h \<noteq> nullptr) objs)\<rparr>"
proof (induction objs arbitrary: me)
  case (Cons obj objs)
  then show ?case by (cases obj) (simp add: destroy_if_def do_call_def)
qed simp

lemma fold_destroy_outputs:
  "fold (\<lambda>out. do_call (Destroy ''wl_output'' (wl_output (current out)))) outs me =
     me\<lparr>calls := calls me @ map (\<lambda>out. Destroy ''wl_output'' (wl_output (current out))) outs\<rparr>"
  by (induction outs arbitrary: me) (simp_all add: do_call_def)

lemma fold_run_callback:
  "fold run_callback fs me =
     me\<lparr>calls := fst (fold (\<lambda>f. f) fs (calls me, env me)), env := snd (fold (\<lambda>f. f) fs (calls me, env me))\<rparr>"
proof (induction fs arbitrary: me)
  case (Cons f fs)
  obtain cs w where "f (calls me, env me) = (cs, w)" by fastforce
  with Cons [of "run_callback f me"] show ?case by (simp add: run_callback_def)
qed simp

text \<open>The objects a client holds, in the order the destructor visits them.\<close>

definition bound_objects :: "'w client \<Rightarrow> (string \<times> handle) list" where
  "bound_objects me =
     [(''wl_shm'', shm me), (''wl_shell'', shell me), (''wl_compositor'', compositor me),
      (''wl_subcompositor'', subcompositor me), (''wl_registry'', registry me), (''wl_seat'', seat me),
      (''wl_keyboard'', client_keyboard me), (''wl_pointer'', client_pointer me),
      (''wl_touch'', client_touch me), (''zxdg_shell_v6'', xdg_shell_v6 me),
      (''xdg_wm_base'', xdg_shell_stable me)]"

definition held_objects :: "'w client \<Rightarrow> (string \<times> handle) list" where
  "held_objects me =
     filter (\<lambda>(k, h). h \<noteq> nullptr) (bound_objects me) @
     map (\<lambda>out. (''wl_output'', wl_output (current out))) (outputs me)"

lemma client_destructor_eq:
  "client_destructor me =
     (let me = fold (\<lambda>(k, h). destroy_if k h) (bound_objects me) me;
          me = fold (\<lambda>out. do_call (Destroy ''wl_output'' (wl_output (current out)))) (outputs me) me;
          me = fold run_callback (destruction_callbacks me) me;
          me = me\<lparr>destruction_callbacks := []\<rparr>
      in do_call (Disconnect (display me)) me)"
  by (simp add: client_destructor_def bound_objects_def Let_def)

lemma client_destructor_calls:
  "calls (client_destructor me) =
     fst (fold (\<lambda>f. f) (destruction_callbacks me)
            (calls me @ map (\<lambda>(k, h). Destroy k h) (held_objects me), env me)) @ [Disconnect (display me)]"
  unfolding client_destructor_eq Let_def fold_destroy_if held_objects_def
  by (simp add: fold_destroy_outputs fold_run_callback comp_def)

lemma bind_Inr:
  assumes "bind_if_supported lib name sp me = (Inr h, me')"
  obtains g v where "globals me name = Some g"
    and "select_version sp (global_version g) (interface_version lib name) = Inr (Some v)"
    and "h \<noteq> nullptr" and "calls me' = calls me @ [Bind (global_id g) name v]"
  using assms
  by (auto simp: bind_if_supported_def call_new_def split: sum.splits option.splits if_splits)

lemma bind_skip:
  assumes "bind_if_supported lib name sp me = (Inl (Extension_expectedly_not_supported n d), me')"
  shows "expected_to_be_supported lib name sp me = Inr (Some False)"
    and "globals me name = Some g \<Longrightarrow>
      select_version sp (global_version g) (interface_version lib name) = Inr None"
    and "calls me' = calls me"
proof -
  obtain e where *: "expected_to_be_supported lib name sp me = Inr e"
    using assms select_version_exn
    by (cases "expected_to_be_supported lib name sp me")
       (auto simp: bind_if_supported_def expected_to_be_supported_def split: option.splits sum.splits)
  show "expected_to_be_supported lib name sp me = Inr (Some False)"
    using assms * select_version_exn failed_to_bind_not_skip
    by (auto simp: bind_if_supported_def call_new_def split: option.splits sum.splits if_splits)
  show "globals me name = Some g \<Longrightarrow>
      select_version sp (global_version g) (interface_version lib name) = Inr None"
    using assms * select_version_exn
    by (auto simp: bind_if_supported_def call_new_def split: option.splits sum.splits if_splits)
  show "calls me' = calls me"
    using assms * select_version_exn
    by (auto simp: bind_if_supported_def call_new_def ExtensionExpectedlyNotSupported_def Let_def
        split: option.splits sum.splits if_splits)
qed

lemma bind_other:
  assumes "bind_if_supported lib name sp me = (Inl e, me')"
    and "globals me name = Some g" and "offers lib name sp (global_version g)"
    and "\<forall>cs. new_proxy lib cs \<noteq> nullptr"
  shows "expected_to_be_supported lib name sp me = Inl e"
proof -
  have nn: "new_proxy lib cs = nullptr \<longleftrightarrow> False" for cs using assms(4) by simp
  show ?thesis
    using assms(1-3) select_version_offers [of sp "global_version g" lib name]
    by (auto simp: bind_if_supported_def call_new_def nn split: sum.splits option.splits if_splits)
qed

section \<open>Properties\<close>

text \<open>
  Claim C7. What \<^verbatim>\<open>bind_if_supported\<close> does. If it returns an object, it made one bind request, for
  the global the compositor announced under that name, at the greatest version that meets the
  specifier, is announced, and is known to the test suite. If it skips the test, the display server
  gave a list of supported extensions which has no such version, the compositor announced none
  either, and no request was made. So a test is never skipped when the display server claims
  support or gives no list, nor when the needed version is there.
\<close>

theorem bind_if_supported_outcome:
  assumes "bind_if_supported lib name sp me = (r, me')"
  shows "case r of
      Inr h \<Rightarrow> h \<noteq> nullptr \<and>
        (\<exists>g v. globals me name = Some g \<and> usable sp (global_version g) (interface_version lib name) v \<and>
          (\<forall>w. usable sp (global_version g) (interface_version lib name) w \<longrightarrow> w \<le> v) \<and>
          calls me' = calls me @ [Bind (global_id g) name v])
    | Inl (Extension_expectedly_not_supported _ _) \<Rightarrow> calls me' = calls me \<and>
        (\<exists>exts. client_extensions me = Some exts \<and>
          (\<forall>offered. exts name = Some offered \<longrightarrow> \<not> offers lib name sp offered)) \<and>
        (\<forall>g. globals me name = Some g \<longrightarrow> \<not> offers lib name sp (global_version g))
    | Inl e \<Rightarrow> expected_to_be_supported lib name sp me = Inl e \<or>
        (\<forall>g. globals me name = Some g \<longrightarrow> \<not> offers lib name sp (global_version g)) \<or>
        (\<exists>cs. new_proxy lib cs = nullptr)"
proof (cases r)
  case (Inr h)
  with assms obtain g v where "globals me name = Some g" "h \<noteq> nullptr"
    and sel: "select_version sp (global_version g) (interface_version lib name) = Inr (Some v)"
    and "calls me' = calls me @ [Bind (global_id g) name v]"
    by (auto elim: bind_Inr)
  with Inr select_version_Some [OF sel] select_version_greatest [OF sel] show ?thesis by auto
next
  case (Inl e)
  have other: "expected_to_be_supported lib name sp me = Inl e \<or>
      (\<forall>g. globals me name = Some g \<longrightarrow> \<not> offers lib name sp (global_version g)) \<or>
      (\<exists>cs. new_proxy lib cs = nullptr)"
    using bind_other [OF assms [unfolded Inl]] by (cases "globals me name") auto
  show ?thesis
  proof (cases "\<exists>n d. e = Extension_expectedly_not_supported n d")
    case True
    then obtain n d where e: "e = Extension_expectedly_not_supported n d" by blast
    note skip = bind_skip [OF assms [unfolded Inl e]]
    from e Inl skip(3) expected_claimed [OF skip(1)] skip(2) select_version_offers(2)
    show ?thesis by fastforce
  next
    case False
    with Inl other show ?thesis by (cases e) simp_all
  qed
qed

text \<open>
  The registry never leads to a stale global: as long as the compositor does not reuse the
  name of a global that is still announced, the entry found under an interface in any reachable
  state is a global that is announced under that interface and has not been removed, so what
  \<^verbatim>\<open>bind_if_supported\<close> binds is announced.
\<close>

theorem bound_global_is_announced:
  assumes "roundtrip_keeps_registry lib" and "registry_reachable lib me"
    and "bind_if_supported lib name sp me = (Inr h, me')"
  shows "\<exists>ident v. calls me' = calls me @ [Bind ident name v] \<and> global_type_names me ident = Some name"
  using assms(3)
proof (rule bind_Inr)
  fix g v
  assume "globals me name = Some g" "calls me' = calls me @ [Bind (global_id g) name v]"
  moreover have "registry_inv me" using assms(1,2) by (rule registry_inv_reachable)
  ultimately show ?thesis unfolding registry_inv_def by blast
qed

text \<open>
  Removing one of two globals with the same interface hides the other one: the newer
  global is still announced, but it is no longer found, so binding its interface fails.
\<close>

theorem removing_one_global_hides_the_other:
  assumes "i \<noteq> j" and "global_type_names me i = Some name" and "global_type_names me j = Some name"
    and "globals me name = Some g" and "global_id g = j"
  shows "globals (global_removed i me) name = None \<and>
    global_type_names (global_removed i me) j = Some name"
  using assms by (simp add: global_removed_def)

text \<open>
  Claim C27. The destructor releases everything once and in a safe order: it destroys every object
  the client holds, each output included, then runs the destruction callbacks in the order they
  were registered, and disconnects from the display last.
\<close>

theorem client_destructor_releases_all:
  assumes "\<And>f cs w. f \<in> set (destruction_callbacks me) \<Longrightarrow> \<exists>more. fst (f (cs, w)) = cs @ more"
  shows "\<exists>more. calls (client_destructor me) =
      calls me @ map (\<lambda>(k, h). Destroy k h) (held_objects me) @ more @ [Disconnect (display me)] \<and>
    env (client_destructor me) = snd (fold (\<lambda>f. f) (destruction_callbacks me)
      (calls me @ map (\<lambda>(k, h). Destroy k h) (held_objects me), env me)) \<and>
    destruction_callbacks (client_destructor me) = []"
proof -
  have more: "\<exists>more. fst (fold (\<lambda>f. f) fs (cs, w)) = cs @ more"
    if "set fs \<subseteq> set (destruction_callbacks me)" for fs cs w
    using that
  proof (induction fs arbitrary: cs w)
    case (Cons f fs)
    obtain cs' w' where f: "f (cs, w) = (cs', w')" by fastforce
    with Cons.prems assms [of f cs w] obtain m where "cs' = cs @ m" by auto
    with f Cons.prems Cons.IH [of cs' w'] show ?case by auto
  qed simp
  obtain m where "fst (fold (\<lambda>f. f) (destruction_callbacks me)
      (calls me @ map (\<lambda>(k, h). Destroy k h) (held_objects me), env me)) =
      (calls me @ map (\<lambda>(k, h). Destroy k h) (held_objects me)) @ m"
    using more by blast
  moreover have "env (client_destructor me) = snd (fold (\<lambda>f. f) (destruction_callbacks me)
      (calls me @ map (\<lambda>(k, h). Destroy k h) (held_objects me), env me))"
    unfolding client_destructor_eq Let_def fold_destroy_if held_objects_def
    by (simp add: fold_destroy_outputs fold_run_callback comp_def do_call_def)
  moreover have "destruction_callbacks (client_destructor me) = []"
    by (simp add: client_destructor_def Let_def do_call_def)
  ultimately show ?thesis by (simp add: client_destructor_calls)
qed

subsection \<open>Witnesses\<close>

text \<open>
  A library whose calls succeed: the objects are numbered by the length of the log, \<^verbatim>\<open>poll\<close> changes
  the environment by \<open>tick\<close> and the clock shows \<open>clock\<close> of it.
\<close>

definition ok_lib :: "('w \<Rightarrow> 'w) \<Rightarrow> ('w \<Rightarrow> int) \<Rightarrow> 'w libwayland" where
  "ok_lib tick clock =
     \<lparr>new_proxy = (\<lambda>cs. Some (length cs)), interface_version = (\<lambda>name. 5),
      wl_display_connect_to_fd = (\<lambda>fd. Some 1000), wl_display_connect = Some 1001,
      wl_display_roundtrip = (\<lambda>me. (0, me)), wl_display_get_error = (\<lambda>me. 0),
      wl_display_get_protocol_error = (\<lambda>me. (None, 0)), wl_display_flush = (\<lambda>me. (0, me)),
      wl_display_prepare_read = (\<lambda>me. (0, me)), wl_display_dispatch_pending = (\<lambda>me. (0, me)),
      wl_display_read_events = (\<lambda>me. (0, me)), wl_display_cancel_read = (\<lambda>me. me),
      poll = (\<lambda>ms me. (1, me\<lparr>env := tick (env me)\<rparr>)),
      steady_clock_now = (\<lambda>me. (clock (env me), me)), errno = (\<lambda>me. 0),
      RecordProperty = (\<lambda>k v w. w)\<rparr>"

definition test_lib :: "nat libwayland" where
  "test_lib = ok_lib Suc (\<lambda>n. int n * 1000000)"

definition test_client :: "nat client" where
  "test_client = snd (global_handler test_lib 7 ''zwlr_layer_shell_v1'' 4 (new_client None 0))"

lemma test_client_simps [simp]:
  "globals test_client = [''zwlr_layer_shell_v1'' \<mapsto> \<lparr>global_id = 7, global_version = 4\<rparr>]"
  "global_type_names test_client = [7 \<mapsto> ''zwlr_layer_shell_v1'']" "calls test_client = []"
  "client_extensions test_client = None"
  by (simp_all add: test_client_def global_handler_def Let_def new_client_def)

lemma test_bind:
  "bind_if_supported test_lib ''zwlr_layer_shell_v1'' (AtLeastVersion 2) test_client =
     (Inr (Some 1), do_call (Bind 7 ''zwlr_layer_shell_v1'' 4) test_client)"
  by (simp add: bind_if_supported_def expected_to_be_supported_def call_new_def test_lib_def ok_lib_def min_def)

theorem bind_if_supported_outcome_witness:
  "\<exists>g v. globals test_client ''zwlr_layer_shell_v1'' = Some g \<and> usable (AtLeastVersion 2) (global_version g) 5 v"
  using bind_if_supported_outcome [OF test_bind] by (auto simp: test_lib_def ok_lib_def)

theorem bound_global_is_announced_witness:
  "\<exists>ident v. calls (do_call (Bind 7 ''zwlr_layer_shell_v1'' 4) test_client) =
      calls test_client @ [Bind ident ''zwlr_layer_shell_v1'' v] \<and>
    global_type_names test_client ident = Some ''zwlr_layer_shell_v1''"
proof -
  have "roundtrip_keeps_registry test_lib" by (simp add: roundtrip_keeps_registry_def test_lib_def ok_lib_def)
  moreover have "registry_reachable test_lib test_client"
  proof (rule registry_reachable.announce)
    show "registry_reachable test_lib (new_client None 0)" by (rule registry_reachable.start)
    show "global_handler test_lib 7 ''zwlr_layer_shell_v1'' 4 (new_client None 0) = (Inr (), test_client)"
      by (simp add: test_client_def global_handler_def Let_def)
  qed (simp add: new_client_def)
  ultimately show ?thesis using bound_global_is_announced test_bind by blast
qed

theorem removing_one_global_hides_the_other_witness:
  "globals (global_removed 1 (snd (global_handler test_lib 2 ''zwp_x'' 1
     (snd (global_handler test_lib 1 ''zwp_x'' 1 (new_client None 0)))))) ''zwp_x'' = None"
  using removing_one_global_hides_the_other [of 1 2 "snd (global_handler test_lib 2 ''zwp_x'' 1
     (snd (global_handler test_lib 1 ''zwp_x'' 1 (new_client None 0))))" "''zwp_x''"
     "\<lparr>global_id = 2, global_version = 1\<rparr>"]
  by (simp add: global_handler_def Let_def new_client_def)

theorem client_destructor_releases_all_witness:
  "\<exists>more. calls (client_destructor (run_on_destruction (\<lambda>(cs, w). (cs @ [Destroy ''wl_buffer'' (Some 9)], w + 1))
       (test_client\<lparr>shm := Some 3, display := Some 8\<rparr>))) =
     [Destroy ''wl_shm'' (Some 3)] @ more @ [Disconnect (Some 8)]"
  using client_destructor_releases_all [of "run_on_destruction (\<lambda>(cs, w). (cs @ [Destroy ''wl_buffer'' (Some 9)], w + 1))
       (test_client\<lparr>shm := Some 3, display := Some 8\<rparr>)"]
  by (auto simp: run_on_destruction_def held_objects_def bound_objects_def test_client_def global_handler_def
      Let_def new_client_def)

end
