(* ===== verification/Client_Dispatch.thy ===== *)
theory Client_Dispatch
  imports Client_Registry
begin

text \<open>
  \<^verbatim>\<open>Client::Impl::dispatch_until\<close> of \<^verbatim>\<open>src/in_process_server.cpp\<close>: reading and dispatching
  events until a condition holds or a timeout has passed. Its two loops may run for ever, so they
  are partial functions and returning is proved, not assumed.
\<close>

section \<open>The loops\<close>

text \<open>\<^verbatim>\<open>while (wl_display_prepare_read(display) != 0)\<close>\<close>

partial_function (option) prepare_read_loop ::
    "'w libwayland \<Rightarrow> 'w client \<Rightarrow> (unit result \<times> 'w client) option" where
  "prepare_read_loop lib me =
     (case wl_display_prepare_read lib me of
        (r, me) \<Rightarrow>
          if r \<noteq> 0 then
            (case wl_display_dispatch_pending lib me of
               (d, me) \<Rightarrow> if d < 0 then Some (throw_wayland_error lib me) else prepare_read_loop lib me)
          else Some (Inr (), me))"

text \<open>Conversion of a wider integer to \<^verbatim>\<open>int\<close>, for the last argument of \<^verbatim>\<open>poll\<close>.\<close>

definition as_int :: "int \<Rightarrow> int" where
  "as_int z = (z + 2 ^ 31) mod 2 ^ 32 - 2 ^ 31"

text \<open>\<open>time_left\<close> is in nanoseconds and is not negative here.\<close>

definition maximum_wait_ms :: "int \<Rightarrow> int" where
  "maximum_wait_ms time_left = as_int (time_left div 1000000 + 1)"

definition timeout_exn :: exn where
  "timeout_exn = Timeout ''Timeout waiting for condition''"

text \<open>One turn after the read is prepared: wait, read, dispatch.\<close>

definition wait_and_dispatch :: "'w libwayland \<Rightarrow> int \<Rightarrow> ('w client, unit) eff" where
  "wait_and_dispatch lib end_time me =
     (case wl_display_flush lib me of (_, me) \<Rightarrow>
      case steady_clock_now lib me of (now, me) \<Rightarrow>
        let time_left = end_time - now in
        if time_left < 0 then (Inl timeout_exn, me)
        else
          case poll lib (maximum_wait_ms time_left) me of (poll_result, me) \<Rightarrow>
            if poll_result < 0 then
              let me = wl_display_cancel_read lib me in
              (Inl (System_error (errno lib me) ''Failed to wait for Wayland event''), me)
            else if poll_result = 0 then (Inl timeout_exn, wl_display_cancel_read lib me)
            else
              case wl_display_read_events lib me of (r, me) \<Rightarrow>
                if r < 0 then throw_wayland_error lib me
                else
                  case wl_display_dispatch_pending lib me of (d, me) \<Rightarrow>
                    if d < 0 then throw_wayland_error lib me else (Inr (), me))"

text \<open>The predicate is a closure of the test: it may change state too.\<close>

partial_function (option) dispatch_loop ::
    "'w libwayland \<Rightarrow> ('w client \<Rightarrow> bool \<times> 'w client) \<Rightarrow> int \<Rightarrow> 'w client \<Rightarrow>
     (unit result \<times> 'w client) option" where
  "dispatch_loop lib predicate end_time me =
     (case predicate me of
        (ok, me) \<Rightarrow>
          if ok then Some (Inr (), me)
          else
            Option.bind (prepare_read_loop lib me) (\<lambda>(r, me).
              case r of
                Inl e \<Rightarrow> Some (Inl e, me)
              | Inr _ \<Rightarrow>
                  (case wait_and_dispatch lib end_time me of
                     (Inl e, me) \<Rightarrow> Some (Inl e, me)
                   | (Inr _, me) \<Rightarrow> dispatch_loop lib predicate end_time me)))"

definition dispatch_until ::
    "'w libwayland \<Rightarrow> ('w client \<Rightarrow> bool \<times> 'w client) \<Rightarrow> int \<Rightarrow> 'w client \<Rightarrow>
     (unit result \<times> 'w client) option" where
  "dispatch_until lib predicate timeout_s me =
     (case steady_clock_now lib me of
        (now, me) \<Rightarrow> dispatch_loop lib predicate (now + timeout_s * 1000000000) me)"

section \<open>Returning\<close>

text \<open>
  What returning needs of libwayland and of the clock: dispatching pending events makes the queue
  (of length \<open>queued\<close>) shorter whenever reading could not be prepared; time (\<open>time\<close>, in
  nanoseconds) never runs backwards, the clock shows it, and a wait in \<^verbatim>\<open>poll\<close> takes some.
\<close>

definition timely ::
    "'w libwayland \<Rightarrow> ('w client \<Rightarrow> bool \<times> 'w client) \<Rightarrow> ('w client \<Rightarrow> int) \<Rightarrow> ('w client \<Rightarrow> nat) \<Rightarrow> bool" where
  "timely lib predicate time queued \<longleftrightarrow>
     (\<forall>me. fst (wl_display_prepare_read lib me) \<noteq> 0 \<longrightarrow>
        queued (snd (wl_display_dispatch_pending lib (snd (wl_display_prepare_read lib me)))) < queued me) \<and>
     (\<forall>me. time me \<le> time (snd (wl_display_prepare_read lib me))) \<and>
     (\<forall>me. time me \<le> time (snd (wl_display_dispatch_pending lib me))) \<and>
     (\<forall>me. time me \<le> time (snd (wl_display_flush lib me))) \<and>
     (\<forall>me. time me \<le> time (snd (wl_display_read_events lib me))) \<and>
     (\<forall>me. time me \<le> time (snd (predicate me))) \<and>
     (\<forall>me. time me \<le> fst (steady_clock_now lib me) \<and>
           fst (steady_clock_now lib me) \<le> time (snd (steady_clock_now lib me))) \<and>
     (\<forall>ms me. time me < time (snd (poll lib ms me)))"

lemma timelyD:
  assumes "timely lib predicate time queued"
  shows "wl_display_prepare_read lib me = (r, me') \<Longrightarrow> time me \<le> time me'"
    and "wl_display_dispatch_pending lib me = (r, me') \<Longrightarrow> time me \<le> time me'"
    and "wl_display_flush lib me = (r, me') \<Longrightarrow> time me \<le> time me'"
    and "wl_display_read_events lib me = (r, me') \<Longrightarrow> time me \<le> time me'"
    and "predicate me = (b, me') \<Longrightarrow> time me \<le> time me'"
    and "steady_clock_now lib me = (t, me') \<Longrightarrow> time me \<le> t \<and> t \<le> time me'"
    and "poll lib ms me = (r, me') \<Longrightarrow> time me < time me'"
    and "wl_display_prepare_read lib me = (r, me') \<Longrightarrow> r \<noteq> 0 \<Longrightarrow>
      queued (snd (wl_display_dispatch_pending lib me')) < queued me"
proof -
  note t = assms [unfolded timely_def]
  show "wl_display_prepare_read lib me = (r, me') \<Longrightarrow> time me \<le> time me'"
    using t by (metis snd_conv)
  show "wl_display_dispatch_pending lib me = (r, me') \<Longrightarrow> time me \<le> time me'"
    using t by (metis snd_conv)
  show "wl_display_flush lib me = (r, me') \<Longrightarrow> time me \<le> time me'"
    using t by (metis snd_conv)
  show "wl_display_read_events lib me = (r, me') \<Longrightarrow> time me \<le> time me'"
    using t by (metis snd_conv)
  show "predicate me = (b, me') \<Longrightarrow> time me \<le> time me'"
    using t by (metis snd_conv)
  show "steady_clock_now lib me = (t, me') \<Longrightarrow> time me \<le> t \<and> t \<le> time me'"
    using t by (metis fst_conv snd_conv)
  show "poll lib ms me = (r, me') \<Longrightarrow> time me < time me'"
    using t by (metis snd_conv)
  show "wl_display_prepare_read lib me = (r, me') \<Longrightarrow> r \<noteq> 0 \<Longrightarrow>
      queued (snd (wl_display_dispatch_pending lib me')) < queued me"
    using t by (metis fst_conv snd_conv)
qed

lemma prepare_read_loop_returns:
  assumes "timely lib predicate time queued"
  shows "\<exists>r me'. prepare_read_loop lib me = Some (r, me') \<and> time me \<le> time me'"
proof (induction "queued me" arbitrary: me rule: less_induct)
  case less
  obtain r me1 where 1: "wl_display_prepare_read lib me = (r, me1)" by fastforce
  obtain d me2 where 2: "wl_display_dispatch_pending lib me1 = (d, me2)" by fastforce
  have t: "time me \<le> time me1" "time me1 \<le> time me2" using timelyD(1,2) [OF assms] 1 2 by blast+
  show ?case
  proof (cases "r \<noteq> 0 \<and> \<not> d < 0")
    case True
    then have "queued me2 < queued me" using timelyD(8) [OF assms 1] 2 by simp
    then obtain r' me' where "prepare_read_loop lib me2 = Some (r', me')" "time me2 \<le> time me'"
      using less by blast
    with True t show ?thesis by (subst prepare_read_loop.simps) (auto simp: 1 2)
  next
    case False
    obtain e :: "unit result" where "throw_wayland_error lib me2 = (e, me2)"
      by (metis throw_wayland_error_simps(3) prod.collapse)
    with False t show ?thesis by (subst prepare_read_loop.simps) (auto simp: 1 2)
  qed
qed

text \<open>A turn that does not throw ends later than it began, and began before the end of the time.\<close>

lemma wait_and_dispatch_takes_time:
  assumes "timely lib predicate time queued" and "wait_and_dispatch lib end_time me = (Inr u, me')"
  shows "time me < time me'" and "time me \<le> end_time"
proof -
  obtain x me1 where 1: "wl_display_flush lib me = (x, me1)" by fastforce
  obtain now me2 where 2: "steady_clock_now lib me1 = (now, me2)" by fastforce
  obtain p me3 where 3: "poll lib (maximum_wait_ms (end_time - now)) me2 = (p, me3)" by fastforce
  obtain r me4 where 4: "wl_display_read_events lib me3 = (r, me4)" by fastforce
  obtain d me5 where 5: "wl_display_dispatch_pending lib me4 = (d, me5)" by fastforce
  note run = assms(2) [unfolded wait_and_dispatch_def 1 2 prod.case Let_def]
  have now: "\<not> end_time - now < 0" using run by (auto split: if_splits)
  have me': "me' = me5" using run now by (auto simp: 3 4 5 split: if_splits)
  have "time me \<le> time me1" "time me1 \<le> now" "now \<le> time me2" "time me2 < time me3"
      "time me3 \<le> time me4" "time me4 \<le> time me5"
    using timelyD(3) [OF assms(1) 1] timelyD(6) [OF assms(1) 2] timelyD(7) [OF assms(1) 3]
      timelyD(4) [OF assms(1) 4] timelyD(2) [OF assms(1) 5] by auto
  then show "time me < time me'" "time me \<le> end_time" using now me' by auto
qed

lemma dispatch_loop_returns:
  assumes "timely lib predicate time queued"
  shows "\<exists>r me'. dispatch_loop lib predicate end_time me = Some (r, me')"
proof (induction "nat (end_time - time me + 1)" arbitrary: me rule: less_induct)
  case less
  obtain ok me1 where 1: "predicate me = (ok, me1)" by fastforce
  obtain r me2 where 2: "prepare_read_loop lib me1 = Some (r, me2)" "time me1 \<le> time me2"
    using prepare_read_loop_returns [OF assms] by blast
  obtain q me3 where 3: "wait_and_dispatch lib end_time me2 = (q, me3)" by fastforce
  show ?case
  proof (cases "ok \<or> (\<exists>e. r = Inl e) \<or> (\<exists>e. q = Inl e)")
    case True
    then show ?thesis
      by (subst dispatch_loop.simps) (auto simp: 1 2 3 split: sum.split)
  next
    case False
    then obtain u where q: "q = Inr u" by (cases q) auto
    from False have ok: "\<not> ok" and r: "r = Inr ()" by (auto intro: sum.exhaust [of r])
    have "time me < time me3" "time me \<le> end_time"
      using wait_and_dispatch_takes_time [OF assms 3 [unfolded q]] 2(2) timelyD(5) [OF assms 1] by auto
    then have "nat (end_time - time me3 + 1) < nat (end_time - time me + 1)" by simp
    then obtain r' me' where "dispatch_loop lib predicate end_time me3 = Some (r', me')"
      using less by blast
    then show ?thesis
      by (subst dispatch_loop.simps) (simp add: 1 ok 2(1) r 3 q)
  qed
qed

section \<open>What the outcome says\<close>

text \<open>Induction along a run that ends.\<close>

lemma dispatch_loop_run [consumes 1, case_names found unprepared stopped again]:
  assumes run: "dispatch_loop lib predicate end_time me = Some y"
    and found: "\<And>me me'. predicate me = (True, me') \<Longrightarrow> P me (Inr (), me')"
    and unprepared: "\<And>me me1 e me2. predicate me = (False, me1) \<Longrightarrow>
      prepare_read_loop lib me1 = Some (Inl e, me2) \<Longrightarrow> P me (Inl e, me2)"
    and stopped: "\<And>me me1 u me2 e me3. predicate me = (False, me1) \<Longrightarrow>
      prepare_read_loop lib me1 = Some (Inr u, me2) \<Longrightarrow>
      wait_and_dispatch lib end_time me2 = (Inl e, me3) \<Longrightarrow> P me (Inl e, me3)"
    and again: "\<And>me me1 u me2 u' me3 y. predicate me = (False, me1) \<Longrightarrow>
      prepare_read_loop lib me1 = Some (Inr u, me2) \<Longrightarrow>
      wait_and_dispatch lib end_time me2 = (Inr u', me3) \<Longrightarrow> P me3 y \<Longrightarrow> P me y"
  shows "P me y"
proof -
  have "lib' = lib \<Longrightarrow> predicate' = predicate \<Longrightarrow> end_time' = end_time \<Longrightarrow> P me' y'"
    if "dispatch_loop lib' predicate' end_time' me' = Some y'" for lib' predicate' end_time' me' y'
  proof (induction rule: dispatch_loop.raw_induct [OF _ that])
    case (1 loop l pr e m r)
    obtain ok m1 where p: "pr m = (ok, m1)" by fastforce
    show ?case
    proof (cases ok)
      case True
      with 1 p found show ?thesis by auto
    next
      case False
      with 1(2) p obtain x m2 where x: "prepare_read_loop l m1 = Some (x, m2)"
        by (auto split: bind_splits)
      obtain z m3 where z: "wait_and_dispatch l e m2 = (z, m3)" by fastforce
      show ?thesis
      proof (cases x)
        case (Inl ex)
        with 1 p False x unprepared show ?thesis by auto
      next
        case (Inr u)
        show ?thesis
        proof (cases z)
          case (Inl ex)
          with 1 p False x \<open>x = Inr u\<close> z stopped show ?thesis by auto
        next
          case (Inr u')
          with 1(2) p False x \<open>x = Inr u\<close> z have "loop l pr e m3 = Some r" by simp
          then have "P m3 r" using 1(1,3-) by blast
          with 1(3-) p False x \<open>x = Inr u\<close> z Inr again [of m m1 u m2 u' m3 r] show ?thesis by auto
        qed
      qed
    qed
  qed
  from this [OF run] show ?thesis by simp
qed

lemma dispatch_loop_Inr:
  assumes "dispatch_loop lib predicate end_time me = Some y" and "fst y = Inr ()"
  shows "\<exists>me0. predicate me0 = (True, snd y)"
  using assms by (induction rule: dispatch_loop_run) auto

subsection \<open>Announced reads\<close>

text \<open>
  libwayland counts the reads that were announced (\<open>intents\<close>): \<^verbatim>\<open>wl_display_prepare_read\<close>
  announces one when it returns zero, and \<^verbatim>\<open>wl_display_read_events\<close> and
  \<^verbatim>\<open>wl_display_cancel_read\<close> end it. While one is left over, reads of other threads wait.
\<close>

definition read_protocol ::
    "'w libwayland \<Rightarrow> ('w client \<Rightarrow> bool \<times> 'w client) \<Rightarrow> ('w client \<Rightarrow> int) \<Rightarrow> bool" where
  "read_protocol lib predicate intents \<longleftrightarrow>
     (\<forall>me. intents (snd (wl_display_prepare_read lib me)) =
        intents me + (if fst (wl_display_prepare_read lib me) = 0 then 1 else 0)) \<and>
     (\<forall>me. intents (snd (wl_display_read_events lib me)) = intents me - 1) \<and>
     (\<forall>me. intents (wl_display_cancel_read lib me) = intents me - 1) \<and>
     (\<forall>me. intents (snd (wl_display_dispatch_pending lib me)) = intents me) \<and>
     (\<forall>me. intents (snd (wl_display_flush lib me)) = intents me) \<and>
     (\<forall>me. intents (snd (steady_clock_now lib me)) = intents me) \<and>
     (\<forall>ms me. intents (snd (poll lib ms me)) = intents me) \<and>
     (\<forall>me. intents (snd (predicate me)) = intents me)"

lemma read_protocolD:
  assumes "read_protocol lib predicate intents"
  shows "wl_display_prepare_read lib me = (r, me') \<Longrightarrow> intents me' = intents me + (if r = 0 then 1 else 0)"
    and "wl_display_read_events lib me = (r, me') \<Longrightarrow> intents me' = intents me - 1"
    and "intents (wl_display_cancel_read lib me) = intents me - 1"
    and "wl_display_dispatch_pending lib me = (r, me') \<Longrightarrow> intents me' = intents me"
    and "wl_display_flush lib me = (r, me') \<Longrightarrow> intents me' = intents me"
    and "steady_clock_now lib me = (t, me') \<Longrightarrow> intents me' = intents me"
    and "poll lib ms me = (r, me') \<Longrightarrow> intents me' = intents me"
    and "predicate me = (b, me') \<Longrightarrow> intents me' = intents me"
proof -
  note p = assms [unfolded read_protocol_def]
  show "wl_display_prepare_read lib me = (r, me') \<Longrightarrow> intents me' = intents me + (if r = 0 then 1 else 0)"
    using p by (metis fst_conv snd_conv)
  show "wl_display_read_events lib me = (r, me') \<Longrightarrow> intents me' = intents me - 1"
    using p by (metis snd_conv)
  show "intents (wl_display_cancel_read lib me) = intents me - 1"
    using p by blast
  show "wl_display_dispatch_pending lib me = (r, me') \<Longrightarrow> intents me' = intents me"
    using p by (metis snd_conv)
  show "wl_display_flush lib me = (r, me') \<Longrightarrow> intents me' = intents me"
    using p by (metis snd_conv)
  show "steady_clock_now lib me = (t, me') \<Longrightarrow> intents me' = intents me"
    using p by (metis snd_conv)
  show "poll lib ms me = (r, me') \<Longrightarrow> intents me' = intents me"
    using p by (metis snd_conv)
  show "predicate me = (b, me') \<Longrightarrow> intents me' = intents me"
    using p by (metis snd_conv)
qed

lemma prepare_read_loop_intents:
  assumes "read_protocol lib predicate intents" and "prepare_read_loop lib me = Some (r, me')"
  shows "intents me' = intents me + (case r of Inl _ \<Rightarrow> 0 | Inr _ \<Rightarrow> 1)"
proof -
  have "lib' = lib \<Longrightarrow> intents (snd y) = intents m + (case fst y of Inl _ \<Rightarrow> 0 | Inr _ \<Rightarrow> 1)"
    if "prepare_read_loop lib' m = Some y" for lib' m y
  proof (induction rule: prepare_read_loop.raw_induct [OF _ that])
    case (1 loop l m y)
    obtain r1 m1 where p: "wl_display_prepare_read l m = (r1, m1)" by fastforce
    obtain d m2 where d: "wl_display_dispatch_pending l m1 = (d, m2)" by fastforce
    have i: "intents m1 = intents m + (if r1 = 0 then 1 else 0)" "intents m2 = intents m1"
      using read_protocolD(1,4) [OF assms(1)] p d 1(3) by simp_all
    show ?case
    proof (cases "r1 = 0")
      case True
      with 1(2) p i show ?thesis by auto
    next
      case False
      show ?thesis
      proof (cases "d < 0")
        case True
        with 1(2) False p d have y: "y = throw_wayland_error l m2" by simp
        then have "snd y = m2" by simp
        moreover obtain e where "fst y = Inl e"
          using y by (cases "fst y") auto
        ultimately show ?thesis using i False by simp
      next
        case d0: False
        with 1(2) False p d have "loop l m2 = Some y" by simp
        from 1(1) [OF this 1(3)] i False show ?thesis by simp
      qed
    qed
  qed
  from this [OF assms(2)] show ?thesis by simp
qed

lemma wait_and_dispatch_intents:
  assumes "read_protocol lib predicate intents" and "wait_and_dispatch lib end_time me = (r, me')"
  shows "intents me' = intents me - 1 \<or> (r = Inl timeout_exn \<and> intents me' = intents me)"
proof -
  obtain x me1 where 1: "wl_display_flush lib me = (x, me1)" by fastforce
  obtain now me2 where 2: "steady_clock_now lib me1 = (now, me2)" by fastforce
  obtain p me3 where 3: "poll lib (maximum_wait_ms (end_time - now)) me2 = (p, me3)" by fastforce
  obtain q me4 where 4: "wl_display_read_events lib me3 = (q, me4)" by fastforce
  obtain d me5 where 5: "wl_display_dispatch_pending lib me4 = (d, me5)" by fastforce
  note run = assms(2) [unfolded wait_and_dispatch_def 1 2 prod.case Let_def]
  have i: "intents me1 = intents me" "intents me2 = intents me" "intents me3 = intents me"
      "intents me4 = intents me - 1" "intents me5 = intents me - 1"
    using read_protocolD(5) [OF assms(1) 1] read_protocolD(6) [OF assms(1) 2] read_protocolD(7) [OF assms(1) 3]
      read_protocolD(2) [OF assms(1) 4] read_protocolD(4) [OF assms(1) 5] by simp_all
  have throw: "throw_wayland_error lib m = (r, me') \<Longrightarrow> me' = m" for m
    by (metis snd_conv throw_wayland_error_simps(3))
  show ?thesis
    using run i read_protocolD(3) [OF assms(1), of me3] throw
    by (auto simp: 3 4 5 split: if_splits)
qed

lemma dispatch_loop_intents:
  assumes "dispatch_loop lib predicate end_time me = Some y" and "read_protocol lib predicate intents"
  shows "intents (snd y) = intents me \<or> (fst y = Inl timeout_exn \<and> intents (snd y) = intents me + 1)"
  using assms
proof (induction rule: dispatch_loop_run)
  case (found me me')
  then show ?case using read_protocolD(8) by fastforce
next
  case (unprepared me me1 e me2)
  then show ?case
    using read_protocolD(8) [OF unprepared(3,1)] prepare_read_loop_intents [OF unprepared(3,2)] by simp
next
  case (stopped me me1 u me2 e me3)
  then show ?case
    using read_protocolD(8) [OF stopped(4,1)] prepare_read_loop_intents [OF stopped(4,2)]
      wait_and_dispatch_intents [OF stopped(4,3)] by auto
next
  case (again me me1 u me2 u' me3 y)
  then show ?case
    using read_protocolD(8) [OF again(5,1)] prepare_read_loop_intents [OF again(5,2)]
      wait_and_dispatch_intents [OF again(5,3)] by auto
qed

text \<open>
  The library of the examples, in which every wait is answered by one event: when that event makes
  the predicate true, one turn of the loop is enough.
\<close>

lemma ok_lib_one_turn:
  assumes "\<not> P (env me)" and "P (tick (env me))" and "0 \<le> timeout_s"
  shows "dispatch_until (ok_lib tick clock) (\<lambda>me. (P (env me), me)) timeout_s me =
    Some (Inr (), me\<lparr>env := tick (env me)\<rparr>)"
proof -
  let ?lib = "ok_lib tick clock" and ?P = "\<lambda>me. (P (env me), me)"
  have prep: "prepare_read_loop ?lib me = Some (Inr (), me)"
    by (subst prepare_read_loop.simps) (simp add: ok_lib_def)
  have turn: "wait_and_dispatch ?lib (clock (env me) + timeout_s * 1000000000) me =
      (Inr (), me\<lparr>env := tick (env me)\<rparr>)"
    using assms(3) by (simp add: wait_and_dispatch_def ok_lib_def)
  have last: "dispatch_loop ?lib ?P end_time (me\<lparr>env := tick (env me)\<rparr>) = Some (Inr (), me\<lparr>env := tick (env me)\<rparr>)" for end_time
    using assms(2) by (subst dispatch_loop.simps) simp
  have "dispatch_loop ?lib ?P (clock (env me) + timeout_s * 1000000000) me = Some (Inr (), me\<lparr>env := tick (env me)\<rparr>)"
    using assms(1) prep turn last by (subst dispatch_loop.simps) simp
  then show ?thesis by (simp add: dispatch_until_def ok_lib_def)
qed

section \<open>Properties\<close>


lemma test_lib_timely: "timely test_lib (\<lambda>me. (env me \<ge> 3, me)) (\<lambda>me. int (env me) * 1000000) (\<lambda>me. 0)"
  by (simp add: timely_def test_lib_def ok_lib_def)


text \<open>
  Claim C26. The bookkeeping of announced reads: every way out of \<^verbatim>\<open>dispatch_until\<close> leaves as many
  reads announced as it found, except possibly one, a timeout, which may leave one more.
\<close>

theorem dispatch_until_read_intents:
  assumes "read_protocol lib predicate intents" and "dispatch_until lib predicate timeout_s me = Some (r, me')"
  shows "intents me' = intents me \<or> (r = Inl timeout_exn \<and> intents me' = intents me + 1)"
proof -
  obtain now me1 where now: "steady_clock_now lib me = (now, me1)" by fastforce
  with assms(2) have run: "dispatch_loop lib predicate (now + timeout_s * 1000000000) me1 = Some (r, me')"
    by (simp add: dispatch_until_def)
  show ?thesis
    using dispatch_loop_intents [OF run assms(1)] read_protocolD(6) [OF assms(1) now] by simp
qed

text \<open>A library that counts the announced reads in the test's state.\<close>

definition counting_lib :: "nat \<Rightarrow> int libwayland" where
  "counting_lib clock =
     \<lparr>new_proxy = (\<lambda>cs. Some (length cs)), interface_version = (\<lambda>name. 5),
      wl_display_connect_to_fd = (\<lambda>fd. Some 1000), wl_display_connect = Some 1001,
      wl_display_roundtrip = (\<lambda>me. (0, me)), wl_display_get_error = (\<lambda>me. 0),
      wl_display_get_protocol_error = (\<lambda>me. (None, 0)), wl_display_flush = (\<lambda>me. (0, me)),
      wl_display_prepare_read = (\<lambda>me. (0, me\<lparr>env := env me + 1\<rparr>)),
      wl_display_dispatch_pending = (\<lambda>me. (0, me)),
      wl_display_read_events = (\<lambda>me. (0, me\<lparr>env := env me - 1\<rparr>)),
      wl_display_cancel_read = (\<lambda>me. me\<lparr>env := env me - 1\<rparr>),
      poll = (\<lambda>ms me. (0, me)),
      steady_clock_now = (\<lambda>me. (if env me = 0 then 0 else int clock, me)), errno = (\<lambda>me. 0),
      RecordProperty = (\<lambda>k v w. w)\<rparr>"

lemma counting_simps:
  "wl_display_flush (counting_lib clock) me = (0, me)"
  "wl_display_prepare_read (counting_lib clock) me = (0, me\<lparr>env := env me + 1\<rparr>)"
  "wl_display_cancel_read (counting_lib clock) me = me\<lparr>env := env me - 1\<rparr>"
  "poll (counting_lib clock) ms me = (0, me)"
  "steady_clock_now (counting_lib clock) me = (if env me = 0 then 0 else int clock, me)"
  by (simp_all add: counting_lib_def)

lemma env_new_client [simp]: "env (new_client exts w) = w"
  by (simp add: new_client_def)

lemma counting_lib_protocol: "read_protocol (counting_lib clock) (\<lambda>me. (False, me)) env"
  by (simp add: read_protocol_def counting_lib_def)

lemma counting_run:
  "dispatch_until (counting_lib clock) (\<lambda>me. (False, me)) 1 (new_client None 0) =
     Some (Inl timeout_exn, (new_client None 0)\<lparr>env := if clock > 1000000000 then 1 else 0\<rparr>)"
proof -
  have prep: "prepare_read_loop (counting_lib clock) me = Some (Inr (), me\<lparr>env := env me + 1\<rparr>)" for me
    by (subst prepare_read_loop.simps) (simp add: counting_simps)
  have clk: "steady_clock_now (counting_lib clock) (new_client None 0) = (0, new_client None 0)"
    by (simp add: counting_simps)
  have same: "(new_client None 0)\<lparr>env := 0\<rparr> = new_client None (0 :: int)"
    by (simp add: new_client_def)
  show ?thesis
    unfolding dispatch_until_def clk prod.case
    by (subst dispatch_loop.simps)
       (simp add: prep wait_and_dispatch_def counting_simps Let_def same)
qed

theorem dispatch_until_read_intents_witness:
  "env ((new_client None 0)\<lparr>env := if (5 :: nat) > 1000000000 then 1 else (0 :: int)\<rparr>) = env (new_client None (0 :: int)) \<or>
   env ((new_client None 0)\<lparr>env := if (5 :: nat) > 1000000000 then 1 else (0 :: int)\<rparr>) = env (new_client None (0 :: int)) + 1"
  using dispatch_until_read_intents [OF counting_lib_protocol counting_run, of 5] by blast

text \<open>
  The exception is real: when the predicate does not hold, a read has been announced, and
  the clock has passed the end of the time, \<^verbatim>\<open>dispatch_until\<close> throws the timeout without ending the
  announced read.
\<close>

theorem timeout_leaks_read_intent:
  assumes "read_protocol lib predicate intents"
    and "steady_clock_now lib me = (start, me1)" and "predicate me1 = (False, me2)"
    and "wl_display_prepare_read lib me2 = (0, me3)" and "wl_display_flush lib me3 = (n, me4)"
    and "steady_clock_now lib me4 = (now, me5)" and "now > start + timeout_s * 1000000000"
  shows "dispatch_until lib predicate timeout_s me = Some (Inl timeout_exn, me5) \<and>
    intents me5 = intents me + 1"
proof -
  have "prepare_read_loop lib me2 = Some (Inr (), me3)"
    by (subst prepare_read_loop.simps) (simp add: assms(4))
  then have "dispatch_loop lib predicate (start + timeout_s * 1000000000) me1 = Some (Inl timeout_exn, me5)"
    using assms(3,5-7) by (subst dispatch_loop.simps) (simp add: wait_and_dispatch_def Let_def)
  moreover have "intents me5 = intents me + 1"
    using read_protocolD(6) [OF assms(1,2)] read_protocolD(8) [OF assms(1,3)] read_protocolD(1) [OF assms(1,4)]
      read_protocolD(5) [OF assms(1,5)] read_protocolD(6) [OF assms(1,6)] by simp
  ultimately show ?thesis by (simp add: dispatch_until_def assms(2))
qed

theorem timeout_leaks_read_intent_witness:
  "dispatch_until (counting_lib 2000000000) (\<lambda>me. (False, me)) 1 (new_client None 0) =
     Some (Inl timeout_exn, (new_client None 0)\<lparr>env := 1\<rparr>)"
  using timeout_leaks_read_intent [OF counting_lib_protocol, where clock1 = 2000000000 and
      me = "new_client None 0" and start = 0 and ?me1.0 = "new_client None 0" and ?me2.0 = "new_client None 0" and
      ?me3.0 = "(new_client None 0)\<lparr>env := 1\<rparr>" and ?me4.0 = "(new_client None 0)\<lparr>env := 1\<rparr>" and n = 0 and
      ?me5.0 = "(new_client None 0)\<lparr>env := 1\<rparr>" and now = 2000000000 and timeout_s = 1]
  by (simp add: counting_lib_def new_client_def)

text \<open>
  The time given to \<^verbatim>\<open>poll\<close>: for every time left within a timeout of up to 2147483
  seconds the number of milliseconds fits in an \<^verbatim>\<open>int\<close>, is positive, and is longer than the time
  left but by at most one millisecond, so a timeout reported by \<^verbatim>\<open>poll\<close> is never early.
\<close>

theorem poll_wait_covers_time_left:
  assumes "0 \<le> time_left" and "time_left \<le> timeout_s * 1000000000" and "timeout_s \<le> 2147483"
  shows "0 < maximum_wait_ms time_left \<and> maximum_wait_ms time_left < 2 ^ 31 \<and>
    time_left < maximum_wait_ms time_left * 1000000 \<and>
    maximum_wait_ms time_left * 1000000 \<le> time_left + 1000000"
proof -
  let ?ms = "time_left div 1000000 + 1"
  have "time_left \<le> 2147483000000000" using assms by linarith
  then have "time_left div 1000000 \<le> 2147483000000000 div 1000000" by (rule zdiv_mono1) simp
  then have "0 < ?ms" "?ms \<le> 2147483001" using assms(1) by (simp_all add: pos_imp_zdiv_nonneg_iff)
  then have "maximum_wait_ms time_left = ?ms" by (simp add: maximum_wait_ms_def as_int_def)
  moreover have "time_left mod 1000000 < 1000000" "0 \<le> time_left mod 1000000" by simp_all
  moreover have "time_left = time_left div 1000000 * 1000000 + time_left mod 1000000" by simp
  ultimately show ?thesis using \<open>0 < ?ms\<close> \<open>?ms \<le> 2147483001\<close> by (simp add: algebra_simps) linarith
qed

theorem poll_wait_covers_time_left_witness:
  "1999999 < maximum_wait_ms 1999999 * 1000000"
  using poll_wait_covers_time_left [of 1999999 10] by simp

end
