(* ===== verification/Client_Composition.thy ===== *)
theory Client_Composition
  imports Client_Input Client_Dispatch
begin

text \<open>
  The whole client: \<^verbatim>\<open>Client::Impl\<close> of \<^verbatim>\<open>src/in_process_server.cpp\<close> with its registry, its
  outputs (theory \<open>Client_Registry\<close>) and its input members (theory \<open>Client_Input\<close>) in one state,
  the public methods of \<^verbatim>\<open>wlcs::Client\<close>, and what they promise together. The handlers of the
  registry call \<^verbatim>\<open>server_roundtrip\<close>, so that other handlers run while one of them has not
  returned; the specification knows none of this and is a plain function of the list of events.
\<close>

section \<open>State\<close>

text \<open>The environment of the registry side is the input side, and its environment the test.\<close>

type_synonym 'v whole_client = "'v client_input client"

section \<open>The listeners\<close>

text \<open>
  One constructor for every listener the client installs: the registry, the seats (with the proxy the
  event came for), the input devices, and the outputs (each \<^verbatim>\<open>Output\<close> object is the data of its
  own listener, so its number says which one).
\<close>

datatype client_event =
    Registry_event registry_event
  | Seat_event handle seat_event
  | Input_event input_event
  | Output_event nat output_event

text \<open>Running the handler of an event. libwayland aborts when the listener has no handler.\<close>

fun on_event :: "'v client_input libwayland \<Rightarrow> client_event \<Rightarrow> ('v whole_client, unit) eff" where
  "on_event lib (Registry_event e) me = registry_listener lib e me"
| "on_event lib (Seat_event h e) me = (Inr (), seat_listener lib h e me)"
| "on_event lib (Input_event e) me =
     (case dispatch_input e (env me) of
        None \<Rightarrow> (Inl (Undefined_behaviour ''the listener has no handler''), me)
      | Some i \<Rightarrow> (Inr (), me\<lparr>env := i\<rparr>))"
| "on_event lib (Output_event n e) me =
     (case output_listener e (outputs me ! n, env me) of
        (out, i) \<Rightarrow> (Inr (), me\<lparr>outputs := (outputs me)[n := out], env := i\<rparr>))"

section \<open>The public methods of \<^verbatim>\<open>Client\<close>\<close>

definition the_xdg_shell_stable :: "'w client \<Rightarrow> handle" where
  "the_xdg_shell_stable me = xdg_shell_stable me"

definition the_pointer :: "'w client \<Rightarrow> handle" where
  "the_pointer me = client_pointer me"

text \<open>The accessors of \<^verbatim>\<open>Client::Impl\<close> that return a member, the methods that call them, and the three shells.\<close>

datatype client_object = Display | Compositor | Subcompositor | Shm | Seat

fun impl_object :: "client_object \<Rightarrow> 'w client \<Rightarrow> handle" where
  "impl_object Display me = display me"
| "impl_object Compositor me = compositor me"
| "impl_object Subcompositor me = subcompositor me"
| "impl_object Shm me = shm me"
| "impl_object Seat me = seat me"

definition get_object :: "client_object \<Rightarrow> 'w client \<Rightarrow> handle" where
  "get_object ob me = impl_object ob me"

datatype client_shell = Wl_shell | Xdg_shell_v6 | Xdg_shell_stable

fun get_shell :: "'w libwayland \<Rightarrow> client_shell \<Rightarrow> ('w client, handle) eff" where
  "get_shell lib Wl_shell me = the_shell lib me"
| "get_shell lib Xdg_shell_v6 me = the_xdg_shell_v6 lib me"
| "get_shell lib Xdg_shell_stable me = (Inr (the_xdg_shell_stable me), me)"

text \<open>What a test asks about the input; two of the questions may throw.\<close>

record input_answers =
  ask_keyboard_focused_window :: handle
  ask_window_under_cursor :: handle
  ask_touched_window :: "handle result"
  ask_pointer_position :: "(int \<times> int) result"
  ask_touch_position :: "(int \<times> int) result"
  ask_latest_serial :: "u32 option"
  ask_last_key_event :: "key_event option"

definition client_input_answers :: "'v client_input \<Rightarrow> input_answers" where
  "client_input_answers me =
     \<lparr>ask_keyboard_focused_window = keyboard_focused_window me,
      ask_window_under_cursor = window_under_cursor me,
      ask_touched_window = touched_window me,
      ask_pointer_position = pointer_position me,
      ask_touch_position = touch_position me,
      ask_latest_serial = latest_serial me,
      ask_last_key_event = last_key_event me\<rparr>"

text \<open>The notifiers a test registers.\<close>

datatype 'v pointer_notifier =
    On_enter "(handle \<times> int \<times> int, 'v) notifier"
  | On_leave "(handle, 'v) notifier"
  | On_motion "(int \<times> int, 'v) notifier"
  | On_button "(u32 \<times> u32 \<times> bool, 'v) notifier"

fun add_pointer_notification :: "'v pointer_notifier \<Rightarrow> 'v whole_client \<Rightarrow> 'v whole_client" where
  "add_pointer_notification (On_enter n) me = me\<lparr>env := add_pointer_enter_notification n (env me)\<rparr>"
| "add_pointer_notification (On_leave n) me = me\<lparr>env := add_pointer_leave_notification n (env me)\<rparr>"
| "add_pointer_notification (On_motion n) me = me\<lparr>env := add_pointer_motion_notification n (env me)\<rparr>"
| "add_pointer_notification (On_button n) me = me\<lparr>env := add_pointer_button_notification n (env me)\<rparr>"

text \<open>
  The methods that talk to the display server; \<open>None\<close> when the call does not return. The object
  that \<^verbatim>\<open>bind_if_supported\<close> returns is the test's, not the client's.
\<close>

datatype 'v client_call =
    Dispatch_until "'v whole_client \<Rightarrow> bool \<times> 'v whole_client" int
  | Roundtrip
  | Flush
  | Bind_if_supported string version_specifier

fun perform_call ::
    "'v client_input libwayland \<Rightarrow> 'v client_call \<Rightarrow> 'v whole_client \<Rightarrow> (handle result \<times> 'v whole_client) option" where
  "perform_call lib (Dispatch_until predicate timeout) me =
     map_option (apfst (map_sum id (\<lambda>_. nullptr))) (dispatch_until lib predicate timeout me)"
| "perform_call lib Roundtrip me = Some (apfst (map_sum id (\<lambda>_. nullptr)) (server_roundtrip lib me))"
| "perform_call lib Flush me = Some (apfst (map_sum id (\<lambda>_. nullptr)) (client_flush lib me))"
| "perform_call lib (Bind_if_supported name version) me = Some (bind_if_supported lib name version me)"

text \<open>Everything a test can do with a client between its construction and its destruction.\<close>

datatype 'v client_op =
    Call "'v client_call"
  | Ask_shell client_shell
  | Add_pointer_notification "'v pointer_notifier"
  | Add_output_done_notifier nat "'v client_input \<Rightarrow> 'v client_input"
  | Run_on_destruction "'v client_input callback"

fun perform :: "'v client_input libwayland \<Rightarrow> 'v client_op \<Rightarrow> 'v whole_client \<Rightarrow> 'v whole_client option" where
  "perform lib (Call c) me = map_option snd (perform_call lib c me)"
| "perform lib (Ask_shell s) me = Some (snd (get_shell lib s me))"
| "perform lib (Add_pointer_notification n) me = Some (add_pointer_notification n me)"
| "perform lib (Add_output_done_notifier i f) me =
     Some (me\<lparr>outputs := snd (add_output_done_notifier i f (outputs me))\<rparr>)"
| "perform lib (Run_on_destruction f) me = Some (run_on_destruction f me)"

section \<open>Specification: a function of the events\<close>

text \<open>
  What the display server can make a client show: the announced globals, the input state, and the
  state of each output. Notifiers, the test's own state and the numbers of proxies are left out.
\<close>

definition strip :: "'v client_input \<Rightarrow> unit client_input" where
  "strip i =
     \<lparr>keyboard_focused_surface = keyboard_focused_surface i,
      current_pointer_location = current_pointer_location i,
      pending_pointer_location = pending_pointer_location i,
      pending_pointer_leave = pending_pointer_leave i, pending_buttons = pending_buttons i,
      current_touches = current_touches i, pending_touches = pending_touches i,
      pending_up_touches = pending_up_touches i, latest_serial = latest_serial i,
      last_key_event = last_key_event i,
      enter_notifiers = [], leave_notifiers = [], motion_notifiers = [], button_notifiers = [],
      failures = failures i, closed_fds = closed_fds i, world = ()\<rparr>"

definition strip_output :: "'w output_obj \<Rightarrow> unit output_obj" where
  "strip_output out =
     \<lparr>current = (current out)\<lparr>wl_output := nullptr\<rparr>, pending = (pending out)\<lparr>wl_output := nullptr\<rparr>,
      done_notifiers = []\<rparr>"

record client_view =
  shown_globals :: "string \<rightharpoonup> global"
  shown_names :: "u32 \<rightharpoonup> string"
  shown_input :: "unit client_input"
  shown_outputs :: "unit output_obj list"

definition view :: "'v whole_client \<Rightarrow> client_view" where
  "view me =
     \<lparr>shown_globals = globals me, shown_names = global_type_names me, shown_input = strip (env me),
      shown_outputs = map strip_output (outputs me)\<rparr>"

definition empty_view :: client_view where
  "empty_view =
     \<lparr>shown_globals = Map.empty, shown_names = Map.empty, shown_input = initial_input (), shown_outputs = []\<rparr>"

fun view_event :: "client_event \<Rightarrow> client_view \<Rightarrow> client_view" where
  "view_event (Registry_event (Global_announced ident iface version)) v =
     v\<lparr>shown_globals := (shown_globals v)(iface \<mapsto> \<lparr>global_id = ident, global_version = version\<rparr>),
       shown_names := (shown_names v)(ident \<mapsto> iface),
       shown_outputs := shown_outputs v @ (if iface = ''wl_output'' then [Output nullptr] else [])\<rparr>"
| "view_event (Registry_event (Global_withdrawn ident)) v =
     (case shown_names v ident of
        None \<Rightarrow> v
      | Some iface \<Rightarrow> v\<lparr>shown_globals := (shown_globals v)(iface := None),
                        shown_names := (shown_names v)(ident := None)\<rparr>)"
| "view_event (Seat_event h e) v = v"
| "view_event (Input_event e) v =
     (case dispatch_input e (shown_input v) of None \<Rightarrow> v | Some i \<Rightarrow> v\<lparr>shown_input := i\<rparr>)"
| "view_event (Output_event n e) v =
     v\<lparr>shown_outputs := (shown_outputs v)[n := fst (output_listener e (shown_outputs v ! n, ()))]\<rparr>"

text \<open>
  What a display server may send: a name that is not in use, events of outputs that exist, and
  touch events the client has handlers for.
\<close>

fun sendable :: "client_event \<Rightarrow> client_view \<Rightarrow> bool" where
  "sendable (Registry_event (Global_announced ident iface version)) v \<longleftrightarrow> shown_names v ident = None"
| "sendable (Output_event n e) v \<longleftrightarrow> n < length (shown_outputs v)"
| "sendable (Input_event e) v \<longleftrightarrow> dispatch_input e (shown_input v) \<noteq> None"
| "sendable _ v \<longleftrightarrow> True"


section \<open>Running handlers\<close>

text \<open>
  The handlers of a new seat and of a new output end with a call of \<^verbatim>\<open>server_roundtrip\<close>. \<open>quiet lib\<close>
  is the library with a roundtrip in which nothing happens; with it such a handler ends in the state
  in which it makes that call.
\<close>

definition quiet :: "'w libwayland \<Rightarrow> 'w libwayland" where
  "quiet lib = lib\<lparr>wl_display_roundtrip := \<lambda>me. (0, me)\<rparr>"

fun pauses :: "client_event \<Rightarrow> bool" where
  "pauses (Registry_event (Global_announced ident iface version)) \<longleftrightarrow> iface = ''wl_seat'' \<or> iface = ''wl_output''"
| "pauses _ \<longleftrightarrow> False"

text \<open>Closures of the test leave the members of the client alone.\<close>

definition notifiers_ok :: "'v whole_client \<Rightarrow> bool" where
  "notifiers_ok me \<longleftrightarrow> (\<forall>out \<in> set (outputs me). \<forall>f \<in> set (done_notifiers out). \<forall>i. strip (f i) = strip i)"

definition unseen :: "'v whole_client \<Rightarrow> 'v whole_client \<Rightarrow> bool" where
  "unseen me me' \<longleftrightarrow> view me' = view me \<and> (notifiers_ok me \<longrightarrow> notifiers_ok me')"

text \<open>
  \<open>delivers lib me es me'\<close>: the handlers of the events \<open>es\<close> were started in this order, and the client
  went from \<open>me\<close> to \<open>me'\<close>. In \<open>nested\<close> the handlers of \<open>ns\<close> run inside the handler of \<open>e\<close>.
\<close>

inductive delivers :: "'v client_input libwayland \<Rightarrow> 'v whole_client \<Rightarrow> client_event list \<Rightarrow> 'v whole_client \<Rightarrow> bool"
  for lib where
  none: "delivers lib me [] me"
| silent: "delivers lib me es m1 \<Longrightarrow> unseen m1 m2 \<Longrightarrow> delivers lib me es m2"
| handled: "delivers lib me es m1 \<Longrightarrow> sendable e (view m1) \<Longrightarrow> \<not> pauses e \<Longrightarrow>
     on_event lib e m1 = (r, m2) \<Longrightarrow> delivers lib me (es @ [e]) m2"
| nested: "delivers lib me es m1 \<Longrightarrow> sendable e (view m1) \<Longrightarrow> pauses e \<Longrightarrow>
     delivers lib (snd (on_event (quiet lib) e m1)) ns m2 \<Longrightarrow> on_event lib e m1 = (r, m2) \<Longrightarrow>
     delivers lib me (es @ e # ns) m2"

text \<open>
  The program's state has the queues of libwayland in it, and so a record \<open>hist\<close> of the events that were
  taken from them. \<open>unheard\<close>: nothing the client shows changes and no event is taken.
\<close>

definition heard :: "('v \<Rightarrow> client_event list) \<Rightarrow> 'v whole_client \<Rightarrow> client_event list" where
  "heard hist me = hist (world (env me))"

definition unheard :: "('v \<Rightarrow> client_event list) \<Rightarrow> 'v whole_client \<Rightarrow> 'v whole_client \<Rightarrow> bool" where
  "unheard hist me me' \<longleftrightarrow> unseen me me' \<and> heard hist me' = heard hist me"

text \<open>The client got from one state to another by the handlers of the events that were taken meanwhile.\<close>

definition reaches ::
    "('v \<Rightarrow> client_event list) \<Rightarrow> 'v client_input libwayland \<Rightarrow> 'v whole_client \<Rightarrow> 'v whole_client \<Rightarrow> bool" where
  "reaches hist lib me me' \<longleftrightarrow> (\<exists>es. delivers lib me es me' \<and> heard hist me' = heard hist me @ es)"

text \<open>
  What the documentation of libwayland says: a client is changed only by its own handlers, each run for an
  event that was taken from the queue, and these run only inside \<^verbatim>\<open>wl_display_roundtrip\<close> and
  \<^verbatim>\<open>wl_display_dispatch_pending\<close>.
\<close>

definition event_driven :: "('v \<Rightarrow> client_event list) \<Rightarrow> 'v client_input libwayland \<Rightarrow> bool" where
  "event_driven hist lib \<longleftrightarrow>
     (\<forall>me. reaches hist lib me (snd (wl_display_roundtrip lib me))) \<and>
     (\<forall>me. reaches hist lib me (snd (wl_display_dispatch_pending lib me))) \<and>
     (\<forall>me. unheard hist me (snd (wl_display_flush lib me))) \<and>
     (\<forall>me. unheard hist me (snd (wl_display_prepare_read lib me))) \<and>
     (\<forall>me. unheard hist me (snd (wl_display_read_events lib me))) \<and>
     (\<forall>me. unheard hist me (wl_display_cancel_read lib me)) \<and>
     (\<forall>ms me. unheard hist me (snd (poll lib ms me))) \<and>
     (\<forall>me. unheard hist me (snd (steady_clock_now lib me))) \<and>
     (\<forall>k x i. strip (RecordProperty lib k x i) = strip i \<and> hist (world (RecordProperty lib k x i)) = hist (world i))"

definition client_ok :: "'v whole_client \<Rightarrow> bool" where
  "client_ok me \<longleftrightarrow> registry_inv me \<and> input_ok (env me) \<and> notifiers_ok me"

text \<open>The closures a test may pass: a predicate or a done notifier that leaves the client's members alone.\<close>

fun op_ok :: "('v \<Rightarrow> client_event list) \<Rightarrow> 'v client_op \<Rightarrow> bool" where
  "op_ok hist (Call (Dispatch_until predicate timeout)) \<longleftrightarrow> (\<forall>me. unheard hist me (snd (predicate me)))"
| "op_ok hist (Add_output_done_notifier i f) \<longleftrightarrow> (\<forall>w. strip (f w) = strip w)"
| "op_ok hist _ \<longleftrightarrow> True"

text \<open>A test's use of a client: its construction, then any of its methods in any order.\<close>

inductive session :: "('v \<Rightarrow> client_event list) \<Rightarrow> 'v client_input libwayland \<Rightarrow> 'v whole_client \<Rightarrow> bool"
  for hist lib where
  construct: "hist w = [] \<Longrightarrow> client_ctor lib extensions socket (initial_input w) = (r, me) \<Longrightarrow> session hist lib me"
| use_method: "session hist lib me \<Longrightarrow> op_ok hist op \<Longrightarrow> perform lib op me = Some me' \<Longrightarrow> session hist lib me'"

section \<open>Lemmas\<close>

subsection \<open>One handler\<close>

lemma strip_simps [simp]:
  "keyboard_focused_surface (strip i) = keyboard_focused_surface i"
  "current_pointer_location (strip i) = current_pointer_location i"
  "pending_pointer_location (strip i) = pending_pointer_location i"
  "pending_pointer_leave (strip i) = pending_pointer_leave i"
  "pending_buttons (strip i) = pending_buttons i"
  "current_touches (strip i) = current_touches i"
  "pending_touches (strip i) = pending_touches i"
  "pending_up_touches (strip i) = pending_up_touches i"
  "latest_serial (strip i) = latest_serial i"
  "last_key_event (strip i) = last_key_event i"
  "failures (strip i) = failures i" "closed_fds (strip i) = closed_fds i"
  "enter_notifiers (strip i) = []" "leave_notifiers (strip i) = []"
  "motion_notifiers (strip i) = []" "button_notifiers (strip i) = []"
  by (simp_all add: strip_def)

text \<open>What a strip depends on: every member except the notifiers and the test.\<close>

lemma strip_update [simp]:
  "strip (i\<lparr>enter_notifiers := n1\<rparr>) = strip i" "strip (i\<lparr>leave_notifiers := n2\<rparr>) = strip i"
  "strip (i\<lparr>motion_notifiers := n3\<rparr>) = strip i" "strip (i\<lparr>button_notifiers := n4\<rparr>) = strip i"
  "strip (i\<lparr>world := w\<rparr>) = strip i"
  "strip (i\<lparr>keyboard_focused_surface := h\<rparr>) = (strip i)\<lparr>keyboard_focused_surface := h\<rparr>"
  "strip (i\<lparr>current_pointer_location := l\<rparr>) = (strip i)\<lparr>current_pointer_location := l\<rparr>"
  "strip (i\<lparr>pending_pointer_location := l\<rparr>) = (strip i)\<lparr>pending_pointer_location := l\<rparr>"
  "strip (i\<lparr>pending_pointer_leave := b\<rparr>) = (strip i)\<lparr>pending_pointer_leave := b\<rparr>"
  "strip (i\<lparr>pending_buttons := bs\<rparr>) = (strip i)\<lparr>pending_buttons := bs\<rparr>"
  "strip (i\<lparr>current_touches := ts\<rparr>) = (strip i)\<lparr>current_touches := ts\<rparr>"
  "strip (i\<lparr>pending_touches := ts\<rparr>) = (strip i)\<lparr>pending_touches := ts\<rparr>"
  "strip (i\<lparr>pending_up_touches := us\<rparr>) = (strip i)\<lparr>pending_up_touches := us\<rparr>"
  "strip (i\<lparr>latest_serial := s\<rparr>) = (strip i)\<lparr>latest_serial := s\<rparr>"
  "strip (i\<lparr>last_key_event := k\<rparr>) = (strip i)\<lparr>last_key_event := k\<rparr>"
  "strip (i\<lparr>failures := fs\<rparr>) = (strip i)\<lparr>failures := fs\<rparr>"
  "strip (i\<lparr>closed_fds := cs\<rparr>) = (strip i)\<lparr>closed_fds := cs\<rparr>"
  by (simp_all add: strip_def)

lemma strip_initial [simp]: "strip (initial_input w) = initial_input ()"
  by (simp add: strip_def initial_input_def)

lemma strip_fixed [simp]: "strip (strip i) = strip i"
  by (simp add: strip_def)

lemma input_ok_strip [simp]: "input_ok (strip i) = input_ok i"
  by (simp add: input_ok_def)

lemma strip_gtest_fail [simp]: "strip (gtest_fail f i) = gtest_fail f (strip i)"
  by (simp add: gtest_fail_def)

lemma strip_buttons: "strip (notify_of_pointer_buttons bs i) = strip i"
  using notify_of_pointer_buttons_frame [of bs i] by auto

lemma strip_frame_buttons: "strip (frame_buttons i) = (strip i)\<lparr>pending_buttons := []\<rparr>"
  by (auto simp: frame_buttons_def strip_buttons)


lemma strip_no_notifiers [simp]:
  "(strip i)\<lparr>leave_notifiers := [], world := ()\<rparr> = strip i"
  "(strip i)\<lparr>button_notifiers := [], world := ()\<rparr> = strip i"
  by (simp_all add: strip_def)

lemma frame_buttons_strip: "frame_buttons (strip i) = strip (frame_buttons i)"
proof -
  have "notify_of_pointer_button b (strip i) = strip i" for b
    by (simp add: notify_of_pointer_button_def)
  then have "notify_of_pointer_buttons bs (strip i) = strip i" for bs
    by (induction bs) (simp_all add: notify_of_pointer_buttons_def)
  then show ?thesis by (simp add: frame_buttons_def strip_buttons)
qed

lemma notify_leave_strip: "notify_of_pointer_leave surf (strip i) = strip (notify_of_pointer_leave surf i)"
  by (simp add: handler_defs)

lemma frame_location_strip: "frame_location (strip i) = strip (frame_location i)"
  by (auto simp: frame_location_def handler_defs Let_def split: option.split)

lemma pointer_frame_strip: "pointer_frame (strip i) = strip (pointer_frame i)"
proof -
  let ?off = "\<lambda>i. i\<lparr>current_pointer_location := None, pending_pointer_leave := False\<rparr>"
  have off: "?off (strip i) = strip (?off i)" by simp
  show ?thesis
    unfolding pointer_frame_def off
    by (simp add: frame_buttons_strip frame_location_strip notify_leave_strip del: strip_update split: option.split)
qed

lemma strip_dispatch: "dispatch_input e (strip i) = map_option strip (dispatch_input e i)"
proof (cases e)
  case (Keyboard_event k)
  then show ?thesis by (cases k) (auto simp: keyboard_handler_defs Let_def)
next
  case (Pointer_event p)
  then show ?thesis
    by (cases p) (auto simp: pointer_frame_strip pointer_enter_def pointer_leave_def pointer_motion_def
        pointer_button_def Let_def split: option.split)
next
  case (Touch_event t)
  then show ?thesis by (cases t) (auto simp: touch_handler_defs Let_def split: option.split)
qed


lemma strip_output_new [simp]: "strip_output (Output h) = Output nullptr"
  by (simp add: strip_output_def Output_def OutputState_def)

lemma strip_output_listener:
  "strip_output (fst (output_listener e (out, i))) = fst (output_listener e (strip_output out, ()))"
  by (cases e)
     (simp_all add: strip_output_def geometry_thunk_def mode_thunk_def scale_thunk_def name_thunk_def
        description_thunk_def done_thunk_def commit_pending_eq overlay_def OutputState_def Let_def)

lemma output_listener_done_notifiers [simp]:
  "done_notifiers (fst (output_listener e (out, i))) = done_notifiers out"
  by (cases e)
     (simp_all add: geometry_thunk_def mode_thunk_def scale_thunk_def name_thunk_def description_thunk_def
        done_thunk_def commit_pending_eq Let_def)

lemma output_listener_strip:
  assumes "\<forall>f \<in> set (done_notifiers out). \<forall>i. strip (f i) = strip i"
  shows "strip (snd (output_listener e (out, i))) = strip i"
proof -
  have "strip (fold (\<lambda>f. f) fs i) = strip i" if "\<forall>f \<in> set fs. \<forall>i. strip (f i) = strip i" for fs
    using that by (induction fs arbitrary: i) auto
  with assms show ?thesis by (cases e) (simp_all add: done_thunk_def commit_pending_eq Let_def)
qed

lemma view_simps [simp]:
  "shown_globals (view me) = globals me" "shown_names (view me) = global_type_names me"
  "shown_input (view me) = strip (env me)" "shown_outputs (view me) = map strip_output (outputs me)"
  by (simp_all add: view_def)

lemma unseen_refl [simp]: "unseen me me"
  by (simp add: unseen_def)

lemma unseen_calls [simp]: "unseen me (do_call c me)"
  by (simp add: unseen_def view_def notifiers_ok_def do_call_def)

lemma client_ok_view:
  "client_ok me \<longleftrightarrow> (\<forall>iface g. shown_globals (view me) iface = Some g \<longrightarrow>
       shown_names (view me) (global_id g) = Some iface) \<and>
     input_ok (shown_input (view me)) \<and> notifiers_ok me"
  by (simp add: client_ok_def registry_inv_def)

lemma unseen_ok: "unseen me me' \<Longrightarrow> client_ok me \<Longrightarrow> client_ok me'"
  unfolding client_ok_view unseen_def by simp

lemma on_event_quiet: "\<not> pauses e \<Longrightarrow> on_event (quiet lib) e me = on_event lib e me"
proof (cases e)
  case (Registry_event x)
  moreover assume "\<not> pauses e"
  ultimately show ?thesis
    by (cases x) (simp_all add: global_handler_def Let_def safe_bind_def call_new_def quiet_def)
next
  case (Seat_event h x)
  then show ?thesis by (cases x) (simp_all add: seat_capabilities_def call_new_def quiet_def)
qed simp_all

text \<open>A handler that pauses is its state before the roundtrip, and then the roundtrip.\<close>

lemma on_event_pauses:
  "pauses e \<Longrightarrow> on_event lib e me = server_roundtrip lib (snd (on_event (quiet lib) e me))"
  by (cases e rule: pauses.cases)
     (auto simp: global_handler_def Let_def safe_bind_def call_new_def quiet_def server_roundtrip_def)

lemma view_announced:
  "view (snd (global_handler (quiet lib) ident iface v me)) =
     view_event (Registry_event (Global_announced ident iface v)) (view me)"
  by (simp add: view_def global_handler_def Let_def safe_bind_def call_new_def quiet_def server_roundtrip_def do_call_def)

lemma notifiers_ok_cong: "outputs me' = outputs me \<Longrightarrow> notifiers_ok me' = notifiers_ok me"
  by (simp add: notifiers_ok_def)

lemma notifiers_ok_announced:
  "notifiers_ok me \<Longrightarrow> notifiers_ok (snd (global_handler (quiet lib) ident iface v me))"
  by (auto simp: notifiers_ok_def global_handler_def Let_def safe_bind_def call_new_def quiet_def
      server_roundtrip_def do_call_def Output_def)

lemma seat_listener_unseen: "unseen me (seat_listener lib h e me)"
  by (cases e)
     (simp_all add: unseen_def view_def notifiers_ok_def seat_capabilities_def call_new_def do_call_def Let_def)

lemma output_event_view:
  assumes "n < length (outputs me)" and "notifiers_ok me"
  shows "view (snd (on_event lib (Output_event n e) me)) = view_event (Output_event n e) (view me)"
    and "notifiers_ok (snd (on_event lib (Output_event n e) me))"
proof -
  obtain out i where l: "output_listener e (outputs me ! n, env me) = (out, i)" by fastforce
  have silent: "\<forall>f \<in> set (done_notifiers (outputs me ! n)). \<forall>i. strip (f i) = strip i"
    using assms nth_mem unfolding notifiers_ok_def by blast
  have "strip i = strip (env me)" using output_listener_strip [OF silent, of e "env me"] l by simp
  moreover have "strip_output out = fst (output_listener e (strip_output (outputs me ! n), ()))"
    using strip_output_listener [of e "outputs me ! n" "env me"] l by simp
  ultimately show "view (snd (on_event lib (Output_event n e) me)) = view_event (Output_event n e) (view me)"
    using assms(1) by (simp add: l view_def map_update)
  have "done_notifiers out = done_notifiers (outputs me ! n)"
    using output_listener_done_notifiers [of e "outputs me ! n" "env me"] l by simp
  then show "notifiers_ok (snd (on_event lib (Output_event n e) me))"
    using assms(2) silent set_update_subset_insert [of "outputs me" n out] by (auto simp: l notifiers_ok_def)
qed

text \<open>One event, up to the roundtrip if there is one.\<close>

lemma on_event_view:
  assumes "client_ok me" and "sendable e (view me)"
  shows "view (snd (on_event (quiet lib) e me)) = view_event e (view me)"
    and "client_ok (snd (on_event (quiet lib) e me))"
proof -
  have n: "notifiers_ok me" and i: "input_ok (env me)" and r: "registry_inv me"
    using assms(1) by (simp_all add: client_ok_def)
  have *: "view (snd (on_event (quiet lib) e me)) = view_event e (view me) \<and>
      client_ok (snd (on_event (quiet lib) e me))"
  proof (cases e)
    case (Registry_event x)
    show ?thesis
    proof (cases x)
      case (Global_announced ident iface v)
      have "registry_inv (snd (global_handler (quiet lib) ident iface v me))"
        using assms(2) r Registry_event Global_announced
        by (intro registry_inv_handler) (simp_all add: roundtrip_keeps_registry_def quiet_def)
      moreover have "env (snd (global_handler (quiet lib) ident iface v me)) = env me"
        by (simp add: global_handler_def Let_def safe_bind_def call_new_def quiet_def server_roundtrip_def do_call_def)
      ultimately show ?thesis
        using Registry_event Global_announced view_announced [of lib ident iface v me]
          notifiers_ok_announced [OF n, of lib ident iface v] i by (simp add: client_ok_def)
    next
      case (Global_withdrawn ident)
      have "view (global_removed ident me) = view_event e (view me)"
        using Registry_event Global_withdrawn by (simp add: view_def global_removed_def split: option.split)
      moreover have "notifiers_ok (global_removed ident me)" "env (global_removed ident me) = env me"
        using n by (auto simp: notifiers_ok_def global_removed_def split: option.splits)
      ultimately show ?thesis
        using Registry_event Global_withdrawn registry_inv_removed [OF r, of ident] i by (simp add: client_ok_def)
    qed
  next
    case (Seat_event h x)
    then show ?thesis using seat_listener_unseen [of me "quiet lib" h x] assms(1) unseen_ok
      by (auto simp: unseen_def)
  next
    case (Input_event x)
    with assms(2) obtain i' where i': "dispatch_input x (env me) = Some i'" by (auto simp: strip_dispatch)
    then show ?thesis
      using Input_event n r i dispatch_input_ok [OF i i']
      by (simp add: client_ok_def strip_dispatch view_def notifiers_ok_def registry_inv_def)
  next
    case (Output_event k x)
    with assms(2) have k: "k < length (outputs me)" by simp
    have "client_ok (snd (on_event (quiet lib) e me))"
      using assms(1) output_event_view [OF k n, of "quiet lib" x] Output_event
      unfolding client_ok_view by simp
    then show ?thesis using Output_event output_event_view [OF k n] by simp
  qed
  show "view (snd (on_event (quiet lib) e me)) = view_event e (view me)"
    and "client_ok (snd (on_event (quiet lib) e me))"
    using * by blast+
qed


subsection \<open>Sequences of handlers\<close>

lemma delivers_view:
  "delivers lib me es me' \<Longrightarrow> client_ok me \<Longrightarrow> client_ok me' \<and> view me' = fold view_event es (view me)"
proof (induction rule: delivers.induct)
  case (silent me es m1 m2)
  then have "client_ok m2" using unseen_ok by blast
  with silent show ?case by (simp add: unseen_def)
next
  case (handled me es m1 e r m2)
  then show ?case using on_event_view [of m1 e lib] on_event_quiet [of e lib m1] by simp
next
  case (nested me es m1 e ns m2 r)
  then show ?case using on_event_view [of m1 e lib] by simp
qed simp

lemma delivers_trans: "delivers lib m1 es' m2 \<Longrightarrow> delivers lib me es m1 \<Longrightarrow> delivers lib me (es @ es') m2"
proof (induction arbitrary: es rule: delivers.induct)
  case (handled m0 es0 m1 e r m2)
  then show ?case using delivers.handled [of lib me "es @ es0" m1 e r m2] by simp
next
  case (nested m0 es0 m1 e ns m2 r)
  then show ?case using delivers.nested [of lib me "es @ es0" m1 e ns m2 r] by simp
qed (auto intro: delivers.silent)

lemma reaches_refl [simp]: "reaches hist lib me me"
  unfolding reaches_def using delivers.none by fastforce

lemma reaches_unheard: "unheard hist me me' \<Longrightarrow> reaches hist lib me me'"
  unfolding reaches_def unheard_def using delivers.silent [OF delivers.none] by fastforce

lemma reaches_own:
  "unseen me me' \<Longrightarrow> world (env me') = world (env me) \<Longrightarrow> reaches hist lib me me'"
  by (rule reaches_unheard) (simp add: unheard_def heard_def)

lemma reaches_trans: "reaches hist lib me m1 \<Longrightarrow> reaches hist lib m1 m2 \<Longrightarrow> reaches hist lib me m2"
  unfolding reaches_def using delivers_trans by (metis append_assoc)

lemma event_drivenD:
  assumes "event_driven hist lib"
  shows "wl_display_roundtrip lib me = (n, me') \<Longrightarrow> reaches hist lib me me'"
    and "wl_display_dispatch_pending lib me = (n, me') \<Longrightarrow> reaches hist lib me me'"
    and "wl_display_flush lib me = (n, me') \<Longrightarrow> reaches hist lib me me'"
    and "wl_display_prepare_read lib me = (n, me') \<Longrightarrow> reaches hist lib me me'"
    and "wl_display_read_events lib me = (n, me') \<Longrightarrow> reaches hist lib me me'"
    and "reaches hist lib me (wl_display_cancel_read lib me)"
    and "poll lib ms me = (n, me') \<Longrightarrow> reaches hist lib me me'"
    and "steady_clock_now lib me = (n, me') \<Longrightarrow> reaches hist lib me me'"
    and "strip (RecordProperty lib k x i) = strip i" and "hist (world (RecordProperty lib k x i)) = hist (world i)"
proof -
  note law = assms [unfolded event_driven_def]
  show "strip (RecordProperty lib k x i) = strip i" "hist (world (RecordProperty lib k x i)) = hist (world i)"
    using law by blast+
  show "reaches hist lib me (wl_display_cancel_read lib me)" using law reaches_unheard by blast
  have "reaches hist lib me (snd (wl_display_roundtrip lib me))"
      "reaches hist lib me (snd (wl_display_dispatch_pending lib me))"
    using law by blast+
  then show "wl_display_roundtrip lib me = (n, me') \<Longrightarrow> reaches hist lib me me'"
      "wl_display_dispatch_pending lib me = (n, me') \<Longrightarrow> reaches hist lib me me'" by simp_all
  have "reaches hist lib me (snd (wl_display_flush lib me))" "reaches hist lib me (snd (wl_display_prepare_read lib me))"
      "reaches hist lib me (snd (wl_display_read_events lib me))" "reaches hist lib me (snd (poll lib ms me))"
      "reaches hist lib me (snd (steady_clock_now lib me))"
    using law reaches_unheard by blast+
  then show "wl_display_flush lib me = (n, me') \<Longrightarrow> reaches hist lib me me'"
      "wl_display_prepare_read lib me = (n, me') \<Longrightarrow> reaches hist lib me me'"
      "wl_display_read_events lib me = (n, me') \<Longrightarrow> reaches hist lib me me'"
      "poll lib ms me = (n, me') \<Longrightarrow> reaches hist lib me me'"
      "steady_clock_now lib me = (n, me') \<Longrightarrow> reaches hist lib me me'" by simp_all
qed

lemma throw_same: "throw_wayland_error lib m = (r, me') \<Longrightarrow> me' = m"
  by (metis snd_conv throw_wayland_error_simps(3))

lemma server_roundtrip_reaches:
  assumes "event_driven hist lib" and "server_roundtrip lib me = (r, me')"
  shows "reaches hist lib me me'"
proof -
  obtain n m where "wl_display_roundtrip lib me = (n, m)" by fastforce
  with assms event_drivenD(1) [OF assms(1) this] throw_same show ?thesis
    by (auto simp: server_roundtrip_def split: if_splits)
qed

lemma client_flush_reaches:
  assumes "event_driven hist lib" and "client_flush lib me = (r, me')"
  shows "reaches hist lib me me'"
proof -
  obtain n m where "wl_display_flush lib me = (n, m)" by fastforce
  with assms event_drivenD(3) [OF assms(1) this] throw_same show ?thesis
    by (auto simp: client_flush_def split: if_splits)
qed

lemma prepare_read_loop_reaches:
  assumes "event_driven hist lib" and "prepare_read_loop lib me = Some (r, me')"
  shows "reaches hist lib me me'"
proof -
  have "lib' = lib \<Longrightarrow> reaches hist lib m (snd y)" if "prepare_read_loop lib' m = Some y" for lib' m y
  proof (induction rule: prepare_read_loop.raw_induct [OF _ that])
    case (1 loop l m y)
    note IH = 1(1) and run = 1(2) and l = 1(3)
    obtain r1 m1 where p: "wl_display_prepare_read l m = (r1, m1)" by fastforce
    obtain d m2 where d: "wl_display_dispatch_pending l m1 = (d, m2)" by fastforce
    have m: "reaches hist lib m m1" "reaches hist lib m m2"
      using event_drivenD(2,4) [OF assms(1)] p d l reaches_trans by blast+
    consider "r1 = 0" | "r1 \<noteq> 0" "d < 0" | "r1 \<noteq> 0" "\<not> d < 0" by blast
    then show ?case
    proof cases
      case 1
      with run p m show ?thesis by auto
    next
      case 2
      with run p d have "y = throw_wayland_error l m2" by simp
      with m show ?thesis by simp
    next
      case 3
      with run p d have "loop l m2 = Some y" by simp
      from IH [OF this l] m reaches_trans show ?thesis by blast
    qed
  qed
  from this [OF assms(2)] show ?thesis by simp
qed

lemma wait_and_dispatch_reaches:
  assumes "event_driven hist lib" and "wait_and_dispatch lib end_time me = (r, me')"
  shows "reaches hist lib me me'"
proof -
  obtain x me1 where 1: "wl_display_flush lib me = (x, me1)" by fastforce
  obtain now me2 where 2: "steady_clock_now lib me1 = (now, me2)" by fastforce
  obtain p me3 where 3: "poll lib (maximum_wait_ms (end_time - now)) me2 = (p, me3)" by fastforce
  obtain q me4 where 4: "wl_display_read_events lib me3 = (q, me4)" by fastforce
  obtain d me5 where 5: "wl_display_dispatch_pending lib me4 = (d, me5)" by fastforce
  have m: "reaches hist lib me me2" "reaches hist lib me me3" "reaches hist lib me me4" "reaches hist lib me me5"
      "reaches hist lib me (wl_display_cancel_read lib me3)"
    using event_drivenD(3) [OF assms(1) 1] event_drivenD(8) [OF assms(1) 2] event_drivenD(7) [OF assms(1) 3]
      event_drivenD(5) [OF assms(1) 4] event_drivenD(2) [OF assms(1) 5] event_drivenD(6) [OF assms(1), of me3]
    by (blast intro: reaches_trans)+
  note run = assms(2) [unfolded wait_and_dispatch_def 1 2 prod.case Let_def]
  show ?thesis using run m throw_same by (auto simp: 3 4 5 split: if_splits)
qed

lemma dispatch_loop_reaches:
  assumes "dispatch_loop lib predicate end_time me = Some y"
    and "event_driven hist lib" and "\<forall>me. unheard hist me (snd (predicate me))"
  shows "reaches hist lib me (snd y)"
proof -
  have p: "reaches hist lib m m'" if "predicate m = (b, m')" for m b m'
    using assms(3) that reaches_unheard by (metis snd_conv)
  note prep = prepare_read_loop_reaches [OF assms(2)] and turn = wait_and_dispatch_reaches [OF assms(2)]
  from assms(1) show ?thesis
  proof (induction rule: dispatch_loop_run)
    case (found me me')
    then show ?case using p by simp
  next
    case (unprepared me me1 e me2)
    then show ?case using p prep reaches_trans by (metis snd_conv)
  next
    case (stopped me me1 u me2 e me3)
    then show ?case using p prep turn reaches_trans by (metis snd_conv)
  next
    case (again me me1 u me2 u' me3 y)
    then show ?case using p prep turn reaches_trans by metis
  qed
qed

lemma dispatch_until_reaches:
  assumes "event_driven hist lib" and "\<forall>me. unheard hist me (snd (predicate me))"
    and "dispatch_until lib predicate timeout_s me = Some (r, me')"
  shows "reaches hist lib me me'"
proof -
  obtain now me1 where now: "steady_clock_now lib me = (now, me1)" by fastforce
  with assms(3) have "dispatch_loop lib predicate (now + timeout_s * 1000000000) me1 = Some (r, me')"
    by (simp add: dispatch_until_def)
  from dispatch_loop_reaches [OF this assms(1,2)] event_drivenD(8) [OF assms(1) now]
  show ?thesis using reaches_trans by fastforce
qed


subsection \<open>The methods of a client\<close>

lemma do_call_env [simp]: "env (do_call c me) = env me"
  by (simp add: do_call_def)

lemma unseen_env: "strip w = strip (env me) \<Longrightarrow> unseen me (me\<lparr>env := w\<rparr>)"
  by (simp add: unseen_def view_def notifiers_ok_def)

lemma skip_reaches:
  assumes "event_driven hist lib" and "ExtensionExpectedlyNotSupported lib name sp me = (r, me')"
  shows "reaches hist lib me me'"
  using assms(2) event_drivenD(9,10) [OF assms(1)]
  by (auto simp: ExtensionExpectedlyNotSupported_def Let_def unheard_def heard_def intro!: reaches_unheard unseen_env)

lemma bind_reaches:
  assumes "event_driven hist lib" and "bind_if_supported lib name sp me = (r, me')"
  shows "reaches hist lib me me'"
proof -
  have call: "reaches hist lib me (do_call c me)" for c by (rule reaches_own) simp_all
  show ?thesis
    using assms(2)
    by (auto simp: bind_if_supported_def call_new_def call split: sum.splits option.splits if_splits
        dest: skip_reaches [OF assms(1)] throw_same)
qed

lemma get_shell_reaches:
  assumes "event_driven hist lib" and "get_shell lib s me = (r, me')"
  shows "reaches hist lib me me'"
  using assms(2) skip_reaches [OF assms(1)]
  by (cases s) (auto simp: the_shell_def the_xdg_shell_v6_def split: if_splits)

lemma add_pointer_notification_unseen: "unseen me (add_pointer_notification n me)"
  by (cases n)
     (simp_all add: unseen_env add_pointer_enter_notification_def add_pointer_leave_notification_def
        add_pointer_motion_notification_def add_pointer_button_notification_def)

lemma add_pointer_notification_world [simp]: "world (env (add_pointer_notification n me)) = world (env me)"
  by (cases n)
     (simp_all add: add_pointer_enter_notification_def add_pointer_leave_notification_def
        add_pointer_motion_notification_def add_pointer_button_notification_def)

lemma add_output_done_notifier_unseen:
  assumes "\<forall>w. strip (f w) = strip w"
  shows "unseen me (me\<lparr>outputs := snd (add_output_done_notifier i f (outputs me))\<rparr>)"
proof (cases "i < length (outputs me)")
  case True
  let ?out = "(outputs me ! i)\<lparr>done_notifiers := done_notifiers (outputs me ! i) @ [f]\<rparr>"
  have outs: "snd (add_output_done_notifier i f (outputs me)) = (outputs me)[i := ?out]"
    using True by (simp add: add_output_done_notifier_def output_count_def)
  have "map strip_output ((outputs me)[i := ?out]) = map strip_output (outputs me)"
    using True by (intro nth_equalityI) (auto simp: nth_list_update strip_output_def)
  moreover have "notifiers_ok (me\<lparr>outputs := (outputs me)[i := ?out]\<rparr>)" if "notifiers_ok me"
    unfolding notifiers_ok_def
  proof (intro ballI allI)
    fix out g w
    assume "out \<in> set (outputs (me\<lparr>outputs := (outputs me)[i := ?out]\<rparr>))" and g: "g \<in> set (done_notifiers out)"
    then consider "out = ?out" | "out \<in> set (outputs me)"
      using set_update_subset_insert [of "outputs me" i ?out] by auto
    then show "strip (g w) = strip w"
    proof cases
      case 1
      then show ?thesis using g assms that nth_mem [OF True] unfolding notifiers_ok_def by auto
    next
      case 2
      then show ?thesis using g that unfolding notifiers_ok_def by blast
    qed
  qed
  ultimately show ?thesis unfolding outs by (simp add: unseen_def view_def)
next
  case False
  then have "snd (add_output_done_notifier i f (outputs me)) = outputs me"
    by (simp add: add_output_done_notifier_def)
  then show ?thesis by simp
qed

lemma perform_call_reaches:
  assumes "event_driven hist lib" and "op_ok hist (Call c)" and "perform_call lib c me = Some (r, me')"
  shows "reaches hist lib me me'"
proof (cases c)
  case (Dispatch_until predicate timeout)
  with assms(2,3) obtain r' where "dispatch_until lib predicate timeout me = Some (r', me')" by auto
  with Dispatch_until assms(1,2) show ?thesis by (intro dispatch_until_reaches) auto
next
  case Roundtrip
  with assms(3) show ?thesis
    by (cases "server_roundtrip lib me") (auto intro: server_roundtrip_reaches [OF assms(1)])
next
  case Flush
  with assms(3) show ?thesis
    by (cases "client_flush lib me") (auto intro: client_flush_reaches [OF assms(1)])
next
  case (Bind_if_supported name version)
  with assms(3) show ?thesis by (auto intro: bind_reaches [OF assms(1)])
qed

lemma perform_reaches:
  assumes "event_driven hist lib" and "op_ok hist op" and "perform lib op me = Some me'"
  shows "reaches hist lib me me'"
proof (cases op)
  case (Call c)
  with assms show ?thesis by (auto intro: perform_call_reaches)
next
  case (Ask_shell s)
  with assms show ?thesis by (auto intro: get_shell_reaches [where r = "fst (get_shell lib s me)"])
next
  case (Add_output_done_notifier i f)
  with assms show ?thesis by (auto intro!: reaches_own add_output_done_notifier_unseen)
next
  case (Run_on_destruction f)
  with assms show ?thesis
    by (auto simp: run_on_destruction_def unseen_def view_def notifiers_ok_def intro!: reaches_own)
qed (use assms in \<open>auto intro: reaches_own add_pointer_notification_unseen\<close>)

lemma ctor_result:
  assumes "client_ctor lib extensions socket w = (r, me)"
  shows "me = new_client extensions w \<or>
    (\<exists>l c d h. server_roundtrip lib (do_call l ((do_call c ((new_client extensions w)\<lparr>display := d\<rparr>))\<lparr>registry := h\<rparr>)) = (r, me))"
  using assms unfolding client_ctor_def Let_def call_new_def prod.case
  by (split sum.splits option.splits) (auto split: option.splits)

lemma ctor_reaches:
  assumes "event_driven hist lib" and "client_ctor lib extensions socket w = (r, me)"
  shows "reaches hist lib (new_client extensions w) me"
proof -
  have start: "reaches hist lib (new_client extensions w)
      (do_call l ((do_call c ((new_client extensions w)\<lparr>display := d\<rparr>))\<lparr>registry := h\<rparr>))" for l c d h
    by (intro reaches_own) (simp_all add: unseen_def view_def notifiers_ok_def new_client_def do_call_def)
  from ctor_result [OF assms(2)] show ?thesis
    using server_roundtrip_reaches [OF assms(1)] start reaches_trans by (metis reaches_refl)
qed

lemma new_client_start:
  "view (new_client extensions (initial_input w)) = empty_view" "client_ok (new_client extensions (initial_input w))"
  by (simp_all add: view_def empty_view_def new_client_def client_ok_def registry_inv_def notifiers_ok_def initial_input_ok)

lemma session_reaches:
  assumes "session hist lib me" and "event_driven hist lib"
  shows "\<exists>extensions w. hist w = [] \<and> reaches hist lib (new_client extensions (initial_input w)) me"
  using assms(1)
proof (induction rule: session.induct)
  case (construct w extensions socket r me)
  then show ?case using ctor_reaches [OF assms(2)] by blast
next
  case (use_method me op me')
  then show ?case using perform_reaches [OF assms(2)] reaches_trans by metis
qed

lemma answers_strip: "client_input_answers (strip i) = client_input_answers i"
  by (simp add: client_input_answers_def keyboard_focused_window_def window_under_cursor_def touched_window_def
      pointer_position_def touch_position_def)


section \<open>Properties\<close>



subsection \<open>Witnesses\<close>

text \<open>
  A library that announces an output in the first roundtrip and moves the pointer in every roundtrip: the
  handler of the output starts a roundtrip of its own, so there the pointer moves before it returns.
  The state of the test is the record of the events.
\<close>

type_synonym demo_state = "client_event list whole_client"

definition demo_moves :: "client_event list \<Rightarrow> demo_state \<Rightarrow> demo_state" where
  "demo_moves w me =
     me\<lparr>env := (pointer_frame (pointer_enter 7 (Some 4) 2560 5120 (env me)))\<lparr>world := w\<rparr>\<rparr>"

definition demo_announced :: client_event where
  "demo_announced = Registry_event (Global_announced 3 ''wl_output'' 2)"

definition demo_pointer_events :: "client_event list" where
  "demo_pointer_events =
     [Input_event (Pointer_event (Pointer_enter 7 (Some 4) 2560 5120)), Input_event (Pointer_event Pointer_frame)]"

definition demo_base :: "client_event list client_input libwayland" where
  "demo_base = ok_lib id (\<lambda>i. 0)"

definition demo_lib :: "client_event list client_input libwayland" where
  "demo_lib = demo_base\<lparr>wl_display_roundtrip := \<lambda>me.
     (1, if global_type_names me 3 = None
         then demo_moves (world (env me) @ demo_announced # demo_pointer_events)
                (snd (on_event (quiet demo_base) demo_announced me))
         else demo_moves (world (env me) @ demo_pointer_events) me)\<rparr>"

lemma demo_moves_heard [simp]: "heard (\<lambda>w. w) (demo_moves w me) = w"
  by (simp add: heard_def demo_moves_def)

lemma demo_moves_silent: "delivers lib me es (demo_moves w m) \<Longrightarrow> delivers lib me es (demo_moves w' m)"
proof (erule delivers.silent)
  have "demo_moves w' m = (demo_moves w m)\<lparr>env := (env (demo_moves w m))\<lparr>world := w'\<rparr>\<rparr>"
    by (simp add: demo_moves_def)
  then show "unseen (demo_moves w m) (demo_moves w' m)" by (simp add: unseen_env)
qed

lemma demo_moves_delivers: "delivers demo_lib me demo_pointer_events (demo_moves w me)"
proof -
  let ?e = "Input_event (Pointer_event (Pointer_enter 7 (Some 4) 2560 5120))"
  let ?m = "me\<lparr>env := pointer_enter 7 (Some 4) 2560 5120 (env me)\<rparr>"
  let ?w = "world (pointer_frame (pointer_enter 7 (Some 4) 2560 5120 (env me)))"
  have "delivers demo_lib me ([] @ [?e]) ?m"
    by (rule delivers.handled [OF delivers.none]) simp_all
  then have "delivers demo_lib me (([] @ [?e]) @ [Input_event (Pointer_event Pointer_frame)]) (demo_moves ?w me)"
    by (rule delivers.handled) (simp_all add: demo_moves_def)
  then have "delivers demo_lib me demo_pointer_events (demo_moves ?w me)"
    by (simp only: demo_pointer_events_def append.simps)
  then show ?thesis by (rule demo_moves_silent)
qed

lemma demo_quiet: "on_event (quiet demo_lib) demo_announced me = on_event (quiet demo_base) demo_announced me"
  by (simp add: demo_announced_def global_handler_def Let_def safe_bind_def call_new_def quiet_def
      server_roundtrip_def demo_lib_def)

lemma demo_names: "global_type_names (snd (on_event (quiet demo_base) demo_announced me)) 3 = Some ''wl_output''"
  by (simp add: demo_announced_def global_handler_def Let_def safe_bind_def call_new_def quiet_def
      server_roundtrip_def do_call_def)

lemma demo_nested:
  assumes "global_type_names me 3 = None"
  shows "delivers demo_lib me (demo_announced # demo_pointer_events)
    (demo_moves w (snd (on_event (quiet demo_base) demo_announced me)))"
proof -
  let ?m = "snd (on_event (quiet demo_lib) demo_announced me)"
  have p: "pauses demo_announced" by (simp add: demo_announced_def)
  have "on_event demo_lib demo_announced me = (Inr (), demo_moves (world (env ?m) @ demo_pointer_events) ?m)"
    unfolding on_event_pauses [OF p, of demo_lib me] demo_quiet
    by (simp add: server_roundtrip_def demo_lib_def demo_names del: on_event.simps)
  then have "delivers demo_lib me ([] @ demo_announced # demo_pointer_events)
      (demo_moves (world (env ?m) @ demo_pointer_events) ?m)"
    using assms demo_moves_delivers [of ?m] p
    by (intro delivers.nested [OF delivers.none]) (simp_all add: demo_announced_def)
  then have "delivers demo_lib me (demo_announced # demo_pointer_events)
      (demo_moves (world (env ?m) @ demo_pointer_events) ?m)"
    by (simp only: append.simps)
  from demo_moves_silent [OF this] show ?thesis unfolding demo_quiet .
qed

lemma demo_lib_event_driven: "event_driven (\<lambda>w. w) demo_lib"
proof -
  have "reaches (\<lambda>w. w) demo_lib me (snd (wl_display_roundtrip demo_lib me))" for me
    using demo_nested [of me] demo_moves_delivers [of me] unfolding reaches_def
    by (cases "global_type_names me 3 = None") (auto simp: demo_lib_def heard_def demo_moves_def)
  then show ?thesis
    by (simp add: event_driven_def demo_lib_def demo_base_def ok_lib_def unheard_def)
qed

definition demo_client :: demo_state where
  "demo_client = snd (client_ctor demo_lib None (Inr 5) (initial_input []))"

lemma demo_session: "session (\<lambda>w. w) demo_lib demo_client"
  unfolding demo_client_def
proof (rule session.construct)
  show "client_ctor demo_lib None (Inr 5) (initial_input []) =
      (fst (client_ctor demo_lib None (Inr 5) (initial_input [])), snd (client_ctor demo_lib None (Inr 5) (initial_input [])))"
    by simp
qed simp

lemma demo_heard: "heard (\<lambda>w. w) demo_client = demo_announced # demo_pointer_events"
  by (simp add: demo_client_def client_ctor_def call_new_def server_roundtrip_def demo_lib_def demo_base_def ok_lib_def
      do_call_def new_client_def initial_input_def Let_def)

lemma demo_cursor: "window_under_cursor (env demo_client) = Some 4"
  by (simp add: demo_client_def client_ctor_def call_new_def server_roundtrip_def demo_lib_def demo_base_def ok_lib_def
      demo_moves_def demo_announced_def global_handler_def quiet_def safe_bind_def do_call_def new_client_def initial_input_def
      pointer_enter_def pointer_frame_def frame_location_def frame_buttons_def handler_defs window_under_cursor_def Let_def)



end
