(* ===== verification/Xdg_Output_Objects.thy ===== *)
theory Xdg_Output_Objects
  imports Client_Registry
begin

text \<open>
  \<^verbatim>\<open>XdgOutputManagerV1\<close> and \<^verbatim>\<open>XdgOutputV1\<close> of \<^verbatim>\<open>src/xdg_output_v1.cpp\<close> together with the client
  whose outputs they describe. An object of version 3 learns of \<^verbatim>\<open>wl_output.done\<close> through a notifier
  that it leaves with the client for good, and that must do nothing once the object is gone: it holds
  a \<^verbatim>\<open>std::weak_ptr\<close>. The theory \<open>Outputs\<close> has one object and an event \<open>Wl_output_done\<close> for
  it; here the objects live in a heap and the event is what the client's outputs make of it.
\<close>

section \<open>State\<close>

text \<open>
  The \<^verbatim>\<open>Impl\<close>s by the identity of their control blocks, which is never used twice, and the index each
  was made with.
\<close>

record xdg_heap =
  xdg_at :: "nat \<rightharpoonup> xdg_output"
  made_for :: "nat \<Rightarrow> nat"
  next_xdg :: nat

type_synonym xclient = "xdg_heap client"

section \<open>Operations\<close>

definition XdgOutputManagerV1 :: "xdg_heap libwayland \<Rightarrow> (xclient, handle) eff" where
  "XdgOutputManagerV1 lib = bind_if_supported lib ''zxdg_output_manager_v1'' AnyVersion"

text \<open>\<open>version\<close> is the generated \<^verbatim>\<open>zxdg_output_v1_get_version\<close>.\<close>

definition xdg_impl_ctor ::
    "xdg_heap libwayland \<Rightarrow> (handle \<Rightarrow> u32) \<Rightarrow> handle \<Rightarrow> nat \<Rightarrow> (xclient, nat) eff" where
  "xdg_impl_ctor lib version manager output_index me =
     (case output_state_at (outputs me) output_index of
        Inl e \<Rightarrow> (Inl e, me)
      | Inr state \<Rightarrow>
          (case call_new lib (New_object ''zxdg_output_manager_v1_get_xdg_output'' [manager, wl_output state] []) me of
             (h, me) \<Rightarrow>
               let a = next_xdg (env me);
                   me = do_call (Add_listener ''zxdg_output_v1'' h) me
               in (Inr a, me\<lparr>env := (env me)\<lparr>xdg_at := (xdg_at (env me))(a \<mapsto> XdgOutputV1 h (version h)),
                                               made_for := (made_for (env me))(a := output_index),
                                               next_xdg := Suc a\<rparr>\<rparr>)))"

definition xdg_impl_destructor :: "nat \<Rightarrow> xclient \<Rightarrow> xclient" where
  "xdg_impl_destructor a me =
     (case xdg_at (env me) a of
        None \<Rightarrow> me
      | Some impl \<Rightarrow>
          do_call (Destroy ''zxdg_output_v1'' (xdg_proxy impl)) (me\<lparr>env := (env me)\<lparr>xdg_at := (xdg_at (env me))(a := None)\<rparr>\<rparr>))"

text \<open>The notifier: \<^verbatim>\<open>weak.lock()\<close> gives the object only while it exists.\<close>

definition weak_done :: "nat \<Rightarrow> xdg_heap \<Rightarrow> xdg_heap" where
  "weak_done a w =
     (case xdg_at w a of
        None \<Rightarrow> w
      | Some impl \<Rightarrow> w\<lparr>xdg_at := (xdg_at w)(a \<mapsto> impl\<lparr>dirty := False\<rparr>)\<rparr>)"

definition XdgOutputV1_ctor ::
    "xdg_heap libwayland \<Rightarrow> (handle \<Rightarrow> u32) \<Rightarrow> handle \<Rightarrow> nat \<Rightarrow> (xclient, nat) eff" where
  "XdgOutputV1_ctor lib version manager output_index me =
     (case xdg_impl_ctor lib version manager output_index me of
        (Inl e, me) \<Rightarrow> (Inl e, me)
      | (Inr a, me) \<Rightarrow>
          if xdg_version (the (xdg_at (env me) a)) \<ge> 3
          then (case add_output_done_notifier output_index (weak_done a) (outputs me) of
                  (Inl e, outs) \<Rightarrow> (Inl e, xdg_impl_destructor a (me\<lparr>outputs := outs\<rparr>))
                | (Inr _, outs) \<Rightarrow> (Inr a, me\<lparr>outputs := outs\<rparr>))
          else (Inr a, me))"

text \<open>An event of the object itself; its user data is the \<^verbatim>\<open>Impl\<close>.\<close>

definition xdg_object_event :: "nat \<Rightarrow> xdg_output_event \<Rightarrow> (xclient, unit) eff" where
  "xdg_object_event a e me =
     (case xdg_at (env me) a of
        None \<Rightarrow> (Inl (Undefined_behaviour ''event for a destroyed XdgOutputV1''), me)
      | Some impl \<Rightarrow> (Inr (), me\<lparr>env := (env me)\<lparr>xdg_at := (xdg_at (env me))(a \<mapsto> xdg_output_listener e impl)\<rparr>\<rparr>))"

text \<open>An event of the client's output with the number \<open>i\<close>.\<close>

definition client_output_event :: "nat \<Rightarrow> output_event \<Rightarrow> xclient \<Rightarrow> xclient" where
  "client_output_event i e me =
     (case output_listener e (outputs me ! i, env me) of
        (out, w) \<Rightarrow> me\<lparr>outputs := (outputs me)[i := out], env := w\<rparr>)"

section \<open>Histories\<close>

inductive xdg_history :: "xdg_heap libwayland \<Rightarrow> (handle \<Rightarrow> u32) \<Rightarrow> xclient \<Rightarrow> bool" for lib version where
  start: "xdg_at (env me) = Map.empty \<Longrightarrow> outputs me = [] \<Longrightarrow> xdg_history lib version me"
| new_output: "xdg_history lib version me \<Longrightarrow> xdg_history lib version (me\<lparr>outputs := outputs me @ [Output h]\<rparr>)"
| make: "xdg_history lib version me \<Longrightarrow> XdgOutputV1_ctor lib version manager i me = (r, me') \<Longrightarrow>
    xdg_history lib version me'"
| destroy: "xdg_history lib version me \<Longrightarrow> xdg_history lib version (xdg_impl_destructor a me)"
| object: "xdg_history lib version me \<Longrightarrow> xdg_object_event a e me = (r, me') \<Longrightarrow> xdg_history lib version me'"
| wl_output: "xdg_history lib version me \<Longrightarrow> i < length (outputs me) \<Longrightarrow>
    xdg_history lib version (client_output_event i e me)"
| other: "xdg_history lib version me \<Longrightarrow> outputs me' = outputs me \<Longrightarrow> env me' = env me \<Longrightarrow> xdg_history lib version me'"

section \<open>Lemmas\<close>

text \<open>The objects that listen to an output: they are of version 3 and were made for it.\<close>

definition listens :: "xdg_heap \<Rightarrow> nat \<Rightarrow> nat \<Rightarrow> bool" where
  "listens w i a \<longleftrightarrow> made_for w a = i \<and> (\<exists>impl. xdg_at w a = Some impl \<and> xdg_version impl \<ge> 3)"

text \<open>
  The notifiers of an output are those of the objects made for it, in the order of their making; the
  identities they hold were given out, and among the objects that exist they are exactly those that listen.
\<close>

definition notifies :: "xdg_heap \<Rightarrow> nat \<Rightarrow> xdg_heap output_obj \<Rightarrow> bool" where
  "notifies w i out \<longleftrightarrow> (\<exists>ids. done_notifiers out = map weak_done ids \<and>
     (\<forall>a. xdg_at w a \<noteq> None \<longrightarrow> (a \<in> set ids \<longleftrightarrow> listens w i a)) \<and> (\<forall>a \<in> set ids. a < next_xdg w))"

definition xdg_inv :: "xclient \<Rightarrow> bool" where
  "xdg_inv me \<longleftrightarrow>
     (\<forall>a. xdg_at (env me) a \<noteq> None \<longrightarrow> a < next_xdg (env me) \<and> made_for (env me) a < length (outputs me)) \<and>
     (\<forall>i < length (outputs me). notifies (env me) i (outputs me ! i))"

lemma weak_done_fold:
  "fold (\<lambda>f. f) (map weak_done ids) w =
     w\<lparr>xdg_at := \<lambda>a. if a \<in> set ids then map_option (\<lambda>impl. impl\<lparr>dirty := False\<rparr>) (xdg_at w a) else xdg_at w a\<rparr>"
proof (induction ids arbitrary: w)
  case (Cons b ids)
  have "weak_done b w = w\<lparr>xdg_at := (xdg_at w)(b := map_option (\<lambda>impl. impl\<lparr>dirty := False\<rparr>) (xdg_at w b))\<rparr>"
    by (simp add: weak_done_def fun_upd_idem split: option.split)
  then show ?case using Cons.IH [of "weak_done b w"]
    by (auto simp: fun_eq_iff option.map_comp comp_def intro!: xdg_heap.equality)
qed simp


lemma output_listener_keeps: "done_notifiers (fst (output_listener e (out, w))) = done_notifiers out"
  by (cases e)
     (simp_all add: geometry_thunk_def mode_thunk_def scale_thunk_def name_thunk_def description_thunk_def
        done_thunk_def commit_pending_eq Let_def)

lemma output_listener_env:
  "snd (output_listener e (out, w)) = (if e = Done then fold (\<lambda>f. f) (done_notifiers out) w else w)"
  by (cases e) (simp_all add: done_thunk_def commit_pending_eq Let_def)

lemma notifies_cong:
  assumes "notifies w i out" and "done_notifiers out' = done_notifiers out"
    and "\<And>a. xdg_at w' a \<noteq> None \<Longrightarrow> xdg_at w a \<noteq> None \<and> listens w' i a = listens w i a"
    and "next_xdg w \<le> next_xdg w'"
  shows "notifies w' i out'"
proof -
  obtain ids where ids: "done_notifiers out = map weak_done ids" "\<forall>a \<in> set ids. a < next_xdg w"
      "\<forall>a. xdg_at w a \<noteq> None \<longrightarrow> (a \<in> set ids \<longleftrightarrow> listens w i a)"
    using assms(1) unfolding notifies_def by blast
  have "\<forall>a \<in> set ids. a < next_xdg w'" using ids(2) assms(4) by (meson order_less_le_trans)
  with ids(1,3) assms(2,3) show ?thesis unfolding notifies_def by metis
qed

text \<open>What a change of the heap must respect to keep the invariant, when the outputs keep their notifiers.\<close>

lemma xdg_inv_heap:
  assumes "xdg_inv me" and "length (outputs me') = length (outputs me)"
    and "\<And>i. i < length (outputs me) \<Longrightarrow> done_notifiers (outputs me' ! i) = done_notifiers (outputs me ! i)"
    and "\<And>a. xdg_at (env me') a \<noteq> None \<Longrightarrow> xdg_at (env me) a \<noteq> None \<and>
      xdg_version (the (xdg_at (env me') a)) = xdg_version (the (xdg_at (env me) a))"
    and "made_for (env me') = made_for (env me)" and "next_xdg (env me') = next_xdg (env me)"
  shows "xdg_inv me'"
  unfolding xdg_inv_def
proof (intro conjI allI impI)
  fix a
  assume "xdg_at (env me') a \<noteq> None"
  then have "xdg_at (env me) a \<noteq> None" using assms(4) by blast
  then have "a < next_xdg (env me) \<and> made_for (env me) a < length (outputs me)"
    using assms(1) unfolding xdg_inv_def by blast
  then show "a < next_xdg (env me')" "made_for (env me') a < length (outputs me')"
    unfolding assms(2,5,6) by simp_all
next
  fix i
  assume i: "i < length (outputs me')"
  have "listens (env me') i a = listens (env me) i a" if "xdg_at (env me') a \<noteq> None" for a
    using assms(4) [OF that] that assms(5) by (auto simp: listens_def)
  moreover have "notifies (env me) i (outputs me ! i)" "i < length (outputs me)"
    using assms(1,2) i unfolding xdg_inv_def by simp_all
  ultimately show "notifies (env me') i (outputs me' ! i)"
    using assms(3,4,6) notifies_cong [of "env me" i "outputs me ! i" "outputs me' ! i" "env me'"] by simp
qed

lemma xdg_inv_made:
  assumes "xdg_inv me" and "XdgOutputV1_ctor lib version manager n me = (r, me')"
  shows "xdg_inv me'"
proof (cases "n < length (outputs me)")
  case False
  then have "\<exists>e. output_state_at (outputs me) n = Inl e" by (auto simp: output_state_at_def)
  then have "me' = me" using assms(2) by (auto simp: XdgOutputV1_ctor_def xdg_impl_ctor_def)
  with assms(1) show ?thesis by simp
next
  case True
  let ?c = "New_object ''zxdg_output_manager_v1_get_xdg_output'' [manager, wl_output (current (outputs me ! n))] []"
  let ?h = "new_proxy lib (calls me @ [?c])" and ?a = "next_xdg (env me)"
  let ?x = "XdgOutputV1 ?h (version ?h)"
  let ?outs = "if version ?h \<ge> 3 then (outputs me)[n := (outputs me ! n)\<lparr>done_notifiers :=
      done_notifiers (outputs me ! n) @ [weak_done ?a]\<rparr>] else outputs me"
  have st: "output_state_at (outputs me) n = Inr (current (outputs me ! n))"
    using True by (simp add: output_state_at_def output_count_def)
  have eqs: "env me' = (env me)\<lparr>xdg_at := (xdg_at (env me))(?a \<mapsto> ?x), made_for := (made_for (env me))(?a := n),
        next_xdg := Suc ?a\<rparr>" "outputs me' = ?outs"
    using assms(2) True st
    by (auto simp: XdgOutputV1_ctor_def xdg_impl_ctor_def call_new_def do_call_def Let_def
        add_output_done_notifier_def output_count_def split: if_splits)
  have fresh: "xdg_at (env me) ?a = None" using assms(1) by (metis xdg_inv_def less_irrefl)
  show ?thesis
    unfolding xdg_inv_def
  proof (intro conjI allI impI)
    fix a
    assume "xdg_at (env me') a \<noteq> None"
    then show "a < next_xdg (env me')" "made_for (env me') a < length (outputs me')"
      using assms(1) True by (auto simp: eqs xdg_inv_def less_Suc_eq split: if_splits)
  next
    fix i
    assume "i < length (outputs me')"
    then have i: "i < length (outputs me)" by (simp add: eqs split: if_splits)
    then obtain ids where ids: "done_notifiers (outputs me ! i) = map weak_done ids" "\<forall>a \<in> set ids. a < ?a"
        "\<forall>a. xdg_at (env me) a \<noteq> None \<longrightarrow> (a \<in> set ids \<longleftrightarrow> listens (env me) i a)"
      using assms(1) unfolding xdg_inv_def notifies_def by blast
    let ?ids = "if i = n \<and> version ?h \<ge> 3 then ids @ [?a] else ids"
    have "done_notifiers (outputs me' ! i) = map weak_done ?ids"
      using True ids(1) by (auto simp: eqs nth_list_update)
    moreover have "a \<in> set ?ids \<longleftrightarrow> listens (env me') i a" if "xdg_at (env me') a \<noteq> None" for a
    proof (cases "a = ?a")
      case True
      then show ?thesis using ids(2) by (auto simp: listens_def eqs)
    next
      case False
      with that ids(3) show ?thesis by (auto simp: listens_def eqs)
    qed
    moreover have "\<forall>a \<in> set ?ids. a < next_xdg (env me')" using ids(2) by (auto simp: eqs less_Suc_eq)
    ultimately show "notifies (env me') i (outputs me' ! i)" unfolding notifies_def by blast
  qed
qed

lemma client_output_event_parts:
  "outputs (client_output_event i e me) = (outputs me)[i := fst (output_listener e (outputs me ! i, env me))]"
  "env (client_output_event i e me) = snd (output_listener e (outputs me ! i, env me))"
  "length (outputs (client_output_event i e me)) = length (outputs me)"
  by (simp_all add: client_output_event_def split: prod.split)

lemma output_done_heap:
  assumes "xdg_inv me" and "i < length (outputs me)"
  shows "env (client_output_event i Done me) = (env me)\<lparr>xdg_at := \<lambda>a.
    if listens (env me) i a then map_option (\<lambda>impl. impl\<lparr>dirty := False\<rparr>) (xdg_at (env me) a) else xdg_at (env me) a\<rparr>"
proof -
  obtain ids where ids: "done_notifiers (outputs me ! i) = map weak_done ids"
      "\<forall>a. xdg_at (env me) a \<noteq> None \<longrightarrow> (a \<in> set ids \<longleftrightarrow> listens (env me) i a)"
    using assms unfolding xdg_inv_def notifies_def by blast
  have "env (client_output_event i Done me) = fold (\<lambda>f. f) (map weak_done ids) (env me)"
    unfolding client_output_event_parts(2) output_listener_env ids(1) by simp
  moreover have "(if a \<in> set ids then map_option (\<lambda>impl. impl\<lparr>dirty := False\<rparr>) (xdg_at (env me) a) else xdg_at (env me) a) =
      (if listens (env me) i a then map_option (\<lambda>impl. impl\<lparr>dirty := False\<rparr>) (xdg_at (env me) a) else xdg_at (env me) a)" for a
    using ids(2) by (cases "xdg_at (env me) a") auto
  ultimately show ?thesis unfolding weak_done_fold by simp
qed

lemma xdg_inv_output_event:
  assumes "xdg_inv me" and "i < length (outputs me)"
  shows "xdg_inv (client_output_event i e me)"
proof -
  note outs = client_output_event_parts(1) [of i e me]
  have heap: "env (client_output_event i e me) = env me" if "e \<noteq> Done"
    using that unfolding client_output_event_parts(2) output_listener_env by simp
  have done_kept: "done_notifiers (outputs (client_output_event i e me) ! j) = done_notifiers (outputs me ! j)"
    if "j < length (outputs me)" for j
    using that unfolding outs by (cases "j = i") (simp_all add: output_listener_keeps)
  show ?thesis
  proof (cases "e = Done")
    case True
    show ?thesis
      using done_kept output_done_heap [OF assms] True
      by (intro xdg_inv_heap [OF assms(1)]) (auto simp: client_output_event_parts(3) listens_def split: if_splits)
  next
    case False
    then show ?thesis using done_kept heap by (intro xdg_inv_heap [OF assms(1)]) (simp_all add: client_output_event_parts(3))
  qed
qed

lemma xdg_inv_history: "xdg_history lib version me \<Longrightarrow> xdg_inv me"
proof (induction rule: xdg_history.induct)
  case (start me)
  then show ?case by (simp add: xdg_inv_def)
next
  case (new_output me h)
  have "notifies (env me) (length (outputs me)) (Output h)"
    using new_output.IH by (auto simp: notifies_def Output_def listens_def xdg_inv_def)
  with new_output.IH show ?case by (auto simp: xdg_inv_def nth_append less_Suc_eq)
next
  case (make me manager i r me')
  then show ?case using xdg_inv_made by blast
next
  case (destroy me a)
  show ?case
    by (rule xdg_inv_heap [OF destroy.IH]) (auto simp: xdg_impl_destructor_def do_call_def split: option.splits if_splits)
next
  case (object me a e r me')
  then show ?case
    by (intro xdg_inv_heap [OF object.IH]) (auto simp: xdg_object_event_def split: option.splits if_splits)
next
  case (wl_output me i e)
  then show ?case using xdg_inv_output_event by blast
next
  case (other me me')
  then show ?case by (intro xdg_inv_heap [OF other.IH]) simp_all
qed

section \<open>Properties\<close>

text \<open>
  Claim C40. \<^verbatim>\<open>wl_output.done\<close> reaches the right objects: after any history of outputs, of \<^verbatim>\<open>XdgOutputV1\<close>
  objects made, destroyed and changed by events, the \<^verbatim>\<open>done\<close> event of an output acts on every object made for
  that output as the event \<^verbatim>\<open>wl_output.done\<close> of the object's own state machine does, and leaves every
  other object alone, those of other outputs, of older versions, and those that have been destroyed.
\<close>

theorem output_done_finishes_its_xdg_outputs:
  assumes "xdg_history lib version me" and "i < length (outputs me)"
  shows "xdg_at (env (client_output_event i Done me)) a =
    (if made_for (env me) a = i then map_option (xdg_output_listener Wl_output_done) (xdg_at (env me) a)
     else xdg_at (env me) a)"
  using output_done_heap [OF xdg_inv_history [OF assms(1)] assms(2)]
  by (cases "xdg_at (env me) a") (auto simp: listens_def xdg_output_done_notifier_def not_le)


text \<open>
  A client with two outputs, an object for each of them and one that is destroyed: the \<^verbatim>\<open>done\<close> of the first
  output finishes the change of the first object only.
\<close>

definition demo_xclient :: xclient where
  "demo_xclient = (new_client None \<lparr>xdg_at = Map.empty, made_for = (\<lambda>_. 0), next_xdg = 0\<rparr>)
     \<lparr>outputs := [Output (Some 7), Output (Some 8)]\<rparr>"

definition demo_xlib :: "xdg_heap libwayland" where
  "demo_xlib = ok_lib id (\<lambda>_. 0)"

definition demo_make :: "nat \<Rightarrow> xclient \<Rightarrow> xclient" where
  "demo_make i me = snd (XdgOutputV1_ctor demo_xlib (\<lambda>h. 3) (Some 9) i me)"

definition demo_changed :: xclient where
  "demo_changed =
     snd (xdg_object_event 1 (Logical_size 4 4) (snd (xdg_object_event 0 (Logical_size 2 3)
       (xdg_impl_destructor 2 (demo_make 0 (demo_make 1 (demo_make 0 demo_xclient)))))))"

lemma demo_changed_history: "xdg_history demo_xlib (\<lambda>h. 3) demo_changed"
proof -
  let ?none = "new_client None \<lparr>xdg_at = Map.empty, made_for = (\<lambda>_. 0), next_xdg = 0\<rparr> :: xclient"
  have "xdg_history demo_xlib (\<lambda>h. 3) ?none" by (rule xdg_history.start) (simp_all add: new_client_def)
  from xdg_history.new_output [OF xdg_history.new_output [OF this, of "Some 7"], of "Some 8"]
  have base: "xdg_history demo_xlib (\<lambda>h. 3) demo_xclient" by (simp add: demo_xclient_def new_client_def)
  have make: "xdg_history demo_xlib (\<lambda>h. 3) (demo_make i me)" if "xdg_history demo_xlib (\<lambda>h. 3) me" for i me
    unfolding demo_make_def by (rule xdg_history.make [OF that surjective_pairing])
  have event: "xdg_history demo_xlib (\<lambda>h. 3) (snd (xdg_object_event a e me))" if "xdg_history demo_xlib (\<lambda>h. 3) me" for a e me
    by (rule xdg_history.object [OF that surjective_pairing])
  show ?thesis unfolding demo_changed_def by (intro event xdg_history.destroy make base)
qed

lemma demo_changed_objects:
  "length (outputs demo_changed) = 2" "made_for (env demo_changed) 0 = 0" "made_for (env demo_changed) 1 = 1"
  "map_option dirty (xdg_at (env demo_changed) 0) = Some True" "map_option dirty (xdg_at (env demo_changed) 1) = Some True"
  "map_option xdg_version (xdg_at (env demo_changed) 0) = Some 3"
  by (simp_all add: demo_changed_def demo_make_def XdgOutputV1_ctor_def xdg_impl_ctor_def xdg_impl_destructor_def xdg_object_event_def
      demo_xclient_def demo_xlib_def ok_lib_def new_client_def output_state_at_def add_output_done_notifier_def output_count_def
      call_new_def do_call_def XdgOutputV1_def Let_def nth_list_update)

theorem output_done_finishes_its_xdg_outputs_witness:
  "map_option dirty (xdg_at (env (client_output_event 0 Done demo_changed)) 0) = Some False \<and>
   map_option dirty (xdg_at (env (client_output_event 0 Done demo_changed)) 1) = Some True"
proof -
  obtain x where x: "xdg_at (env demo_changed) 0 = Some x" "xdg_version x = 3"
    using demo_changed_objects(6) by auto
  have i: "0 < length (outputs demo_changed)" using demo_changed_objects(1) by simp
  show ?thesis
    unfolding output_done_finishes_its_xdg_outputs [OF demo_changed_history i]
    using demo_changed_objects(2,3,5) x by (simp add: xdg_output_done_notifier_def)
qed

end
