(* ===== verification/Shm_Buffer.thy ===== *)
theory Shm_Buffer
  imports Client_Registry
begin

text \<open>
  Shared memory buffers: \<^verbatim>\<open>create_anonymous_file\<close> of \<^verbatim>\<open>src/helpers.cpp\<close> and
  \<^verbatim>\<open>ShmBuffer::Impl\<close> of \<^verbatim>\<open>src/in_process_server.cpp\<close>. The system calls are the parameter
  \<open>sys\<close>, functions on the state \<open>env\<close> of a client.
\<close>

section \<open>System calls\<close>

record 'w sys =
  memfd_create :: "bool \<Rightarrow> 'w \<Rightarrow> int \<times> 'w"
  open_tmpfile :: "'w \<Rightarrow> int \<times> 'w"
  mkostemp :: "'w \<Rightarrow> int \<times> 'w"
  unlink :: "'w \<Rightarrow> int \<times> 'w"
  ftruncate :: "int \<Rightarrow> int \<Rightarrow> 'w \<Rightarrow> int \<times> 'w"
  close_fd :: "int \<Rightarrow> 'w \<Rightarrow> 'w"
  mmap :: "int \<Rightarrow> int \<Rightarrow> 'w \<Rightarrow> int option \<times> 'w"
  munmap :: "int \<Rightarrow> int \<Rightarrow> 'w \<Rightarrow> 'w"
  sys_errno :: "'w \<Rightarrow> int"

definition ENOENT :: int where "ENOENT = 2"
definition EISDIR :: int where "EISDIR = 21"
definition EINVAL :: int where "EINVAL = 22"
definition ENOSYS :: int where "ENOSYS = 38"
definition EOPNOTSUPP :: int where "EOPNOTSUPP = 95"

section \<open>Anonymous files\<close>

definition error_indicates_tmpfile_not_supported :: "int \<Rightarrow> bool" where
  "error_indicates_tmpfile_not_supported err \<longleftrightarrow>
     err = EISDIR \<or> err = ENOENT \<or> err = EOPNOTSUPP \<or> err = EINVAL"

text \<open>The file named by \<^verbatim>\<open>mkostemp\<close>, unlinked at once.\<close>

definition open_named_file :: "'w sys \<Rightarrow> 'w \<Rightarrow> int \<times> 'w" where
  "open_named_file sys w =
     (case mkostemp sys w of (fd, w) \<Rightarrow>
        if fd \<noteq> -1 then
          (case unlink sys w of (r, w) \<Rightarrow> if r < 0 then (-1, close_fd sys fd w) else (fd, w))
        else (fd, w))"

definition open_in_shm :: "'w sys \<Rightarrow> 'w \<Rightarrow> int \<times> 'w" where
  "open_in_shm sys w =
     (case open_tmpfile sys w of (fd, w) \<Rightarrow>
        if fd = -1 \<and> error_indicates_tmpfile_not_supported (sys_errno sys w)
        then open_named_file sys w else (fd, w))"

definition open_anonymous :: "'w sys \<Rightarrow> 'w \<Rightarrow> int \<times> 'w" where
  "open_anonymous sys w =
     (case memfd_create sys True w of (fd, w) \<Rightarrow>
      case (if fd = -1 \<and> sys_errno sys w = EINVAL then memfd_create sys False w else (fd, w)) of (fd, w) \<Rightarrow>
        if fd = -1 \<and> sys_errno sys w = ENOSYS then open_in_shm sys w else (fd, w))"

text \<open>\<^verbatim>\<open>size\<close> is a \<^verbatim>\<open>size_t\<close>; \<^verbatim>\<open>ftruncate\<close> takes a signed length of the same width.\<close>

definition as_off_t :: "nat \<Rightarrow> int" where
  "as_off_t n = (if n < 2 ^ 63 then int n else int n - 2 ^ 64)"

definition create_anonymous_file :: "'w sys \<Rightarrow> nat \<Rightarrow> ('w, int) eff" where
  "create_anonymous_file sys file_size w =
     (case open_anonymous sys w of (fd, w) \<Rightarrow>
        if fd = -1 then (Inl (System_error (sys_errno sys w) ''Failed to open temporary file''), w)
        else
          case ftruncate sys fd (as_off_t file_size) w of (r, w) \<Rightarrow>
            if r = -1 then
              let w = close_fd sys fd w
              in (Inl (System_error (sys_errno sys w) ''Failed to resize temporary file''), w)
            else (Inr fd, w))"

section \<open>Buffers\<close>

record 'w shm_buffer =
  buffer_size :: int
  buffer_data :: int
  wl_buffer :: handle
  release_notifiers :: "('w \<Rightarrow> bool \<times> 'w) list"

text \<open>Multiplication of \<^verbatim>\<open>int\<close>s, undefined when the product does not fit.\<close>

definition int_mult :: "int \<Rightarrow> int \<Rightarrow> int option" where
  "int_mult a b = (if - (2 ^ 31) \<le> a * b \<and> a * b < 2 ^ 31 then Some (a * b) else None)"

definition as_size_t :: "int \<Rightarrow> nat" where
  "as_size_t z = nat (z mod 2 ^ 64)"

definition WL_SHM_FORMAT_ARGB8888 :: u32 where "WL_SHM_FORMAT_ARGB8888 = 0"

definition in_env :: "('w \<Rightarrow> 'a \<times> 'w) \<Rightarrow> 'w client \<Rightarrow> 'a \<times> 'w client" where
  "in_env f me = (case f (env me) of (x, w) \<Rightarrow> (x, me\<lparr>env := w\<rparr>))"

text \<open>The second half of the constructor, once the file is open.\<close>

definition map_buffer ::
    "'w libwayland \<Rightarrow> 'w sys \<Rightarrow> int \<Rightarrow> int \<Rightarrow> int \<Rightarrow> int \<Rightarrow> int \<Rightarrow> ('w client, 'w shm_buffer) eff" where
  "map_buffer lib sys width height stride sz fd me =
     (case in_env (mmap sys sz fd) me of
        (None, me) \<Rightarrow>
          let me = me\<lparr>env := close_fd sys fd (env me)\<rparr> in
          (Inl (System_error (sys_errno sys (env me)) ''Failed to map buffer''), me)
      | (Some addr, me) \<Rightarrow>
          (case call_new lib (Create_pool (shm me) fd sz) me of (pool, me) \<Rightarrow>
           case call_new lib (Pool_create_buffer pool 0 width height stride WL_SHM_FORMAT_ARGB8888) me of
             (buffer, me) \<Rightarrow>
               let me = do_call (Destroy ''wl_shm_pool'' pool) me;
                   me = me\<lparr>env := close_fd sys fd (env me)\<rparr>;
                   me = do_call (Add_listener ''wl_buffer'' buffer) me
               in (Inr \<lparr>buffer_size = sz, buffer_data = addr, wl_buffer = buffer, release_notifiers = []\<rparr>, me)))"

definition shm_buffer_ctor ::
    "'w libwayland \<Rightarrow> 'w sys \<Rightarrow> int \<Rightarrow> int \<Rightarrow> ('w client, 'w shm_buffer) eff" where
  "shm_buffer_ctor lib sys width height me =
     (case int_mult width 4 of
        None \<Rightarrow> (Inl (Undefined_behaviour ''signed overflow in width * 4''), me)
      | Some stride \<Rightarrow>
          (case int_mult stride height of
             None \<Rightarrow> (Inl (Undefined_behaviour ''signed overflow in stride * height''), me)
           | Some sz \<Rightarrow>
               (case in_env (create_anonymous_file sys (as_size_t sz)) me of
                  (Inl e, me) \<Rightarrow> (Inl e, me)
                | (Inr fd, me) \<Rightarrow> map_buffer lib sys width height stride sz fd me)))"

text \<open>The destructor, as a callback on the log and the environment.\<close>

definition shm_buffer_destructor :: "'w sys \<Rightarrow> 'w shm_buffer \<Rightarrow> 'w callback" where
  "shm_buffer_destructor sys b st =
     (case st of (cs, w) \<Rightarrow>
        (cs @ [Destroy ''wl_buffer'' (wl_buffer b)], munmap sys (buffer_data b) (buffer_size b) w))"

text \<open>\<^verbatim>\<open>data()\<close>: the start of the memory and its length.\<close>

definition shm_buffer_data :: "'w shm_buffer \<Rightarrow> int \<times> nat" where
  "shm_buffer_data b = (buffer_data b, as_size_t (buffer_size b))"

definition add_release_listener :: "('w \<Rightarrow> bool \<times> 'w) \<Rightarrow> 'w shm_buffer \<Rightarrow> 'w shm_buffer" where
  "add_release_listener f b = b\<lparr>release_notifiers := release_notifiers b @ [f]\<rparr>"

text \<open>
  \<^verbatim>\<open>on_release\<close>. First every notifier is called, in order, and the iterators of those that
  return \<^verbatim>\<open>false\<close> are collected; an iterator is its index here.
\<close>

fun call_notifiers :: "nat \<Rightarrow> ('w \<Rightarrow> bool \<times> 'w) list \<Rightarrow> 'w \<Rightarrow> nat list \<times> 'w" where
  "call_notifiers i [] w = ([], w)"
| "call_notifiers i (n # ns) w =
     (case n w of (keep, w1) \<Rightarrow>
      case call_notifiers (Suc i) ns w1 of (expired, w2) \<Rightarrow>
        (if keep then expired else i # expired, w2))"

text \<open>
  Then they are erased one after the other. Erasing an element of a vector invalidates the
  iterators at and after it, so using a later one of the (ascending) list is undefined.
\<close>

fun erase_expired :: "nat list \<Rightarrow> nat option \<Rightarrow> 'a list \<Rightarrow> 'a list result" where
  "erase_expired [] valid_below xs = Inr xs"
| "erase_expired (i # rest) valid_below xs =
     (case valid_below of
        Some k \<Rightarrow> if i < k then erase_expired rest (Some i) (take i xs @ drop (Suc i) xs)
                  else Inl (Undefined_behaviour ''erase with an invalidated iterator'')
      | None \<Rightarrow> erase_expired rest (Some i) (take i xs @ drop (Suc i) xs))"

definition on_release :: "('w shm_buffer \<times> 'w, unit) eff" where
  "on_release st =
     (case st of (b, w) \<Rightarrow>
       case call_notifiers 0 (release_notifiers b) w of (expired, w) \<Rightarrow>
         case erase_expired expired None (release_notifiers b) of
           Inl e \<Rightarrow> (Inl e, (b, w))
         | Inr ns \<Rightarrow> (Inr (), (b\<lparr>release_notifiers := ns\<rparr>, w)))"

text \<open>\<^verbatim>\<open>Client::Impl::create_buffer\<close>: the client keeps the buffer until it is destroyed.\<close>

definition create_buffer ::
    "'w libwayland \<Rightarrow> 'w sys \<Rightarrow> int \<Rightarrow> int \<Rightarrow> ('w client, 'w shm_buffer) eff" where
  "create_buffer lib sys width height me =
     (case shm_buffer_ctor lib sys width height me of
        (Inl e, me) \<Rightarrow> (Inl e, me)
      | (Inr b, me) \<Rightarrow> (Inr b, run_on_destruction (shm_buffer_destructor sys b) me))"

section \<open>Lemmas\<close>

text \<open>
  Descriptors: \<open>fds w\<close> are the open ones. A call that opens one returns a new descriptor or -1;
  closing a descriptor closes it; the other calls leave them alone.
\<close>

definition opens :: "('w \<Rightarrow> int set) \<Rightarrow> ('w \<Rightarrow> int \<times> 'w) \<Rightarrow> bool" where
  "opens fds f \<longleftrightarrow>
     (\<forall>w fd w'. f w = (fd, w') \<longrightarrow>
        (if fd = -1 then fds w' = fds w else fd \<ge> 0 \<and> fd \<notin> fds w \<and> fds w' = insert fd (fds w)))"

definition fd_laws :: "'w sys \<Rightarrow> ('w \<Rightarrow> int set) \<Rightarrow> bool" where
  "fd_laws sys fds \<longleftrightarrow>
     opens fds (memfd_create sys True) \<and> opens fds (memfd_create sys False) \<and>
     opens fds (open_tmpfile sys) \<and> opens fds (mkostemp sys) \<and>
     (\<forall>w. fds (snd (unlink sys w)) = fds w) \<and>
     (\<forall>fd n w. fds (snd (ftruncate sys fd n w)) = fds w) \<and>
     (\<forall>n fd w. fds (snd (mmap sys n fd w)) = fds w) \<and>
     (\<forall>fd w. fds (close_fd sys fd w) = fds w - {fd})"

lemma opensD:
  assumes "opens fds f" and "f w = (fd, w')"
  shows "fd = -1 \<Longrightarrow> fds w' = fds w" and "fd \<noteq> -1 \<Longrightarrow> fd \<ge> 0 \<and> fd \<notin> fds w \<and> fds w' = insert fd (fds w)"
  using assms unfolding opens_def by metis+

lemma opensI:
  assumes "\<And>w fd w'. f w = (fd, w') \<Longrightarrow>
      (if fd = -1 then fds w' = fds w else fd \<ge> 0 \<and> fd \<notin> fds w \<and> fds w' = insert fd (fds w))"
  shows "opens fds f"
  using assms by (simp add: opens_def)

lemma fd_lawsD:
  assumes "fd_laws sys fds"
  shows "unlink sys w = (r, w') \<Longrightarrow> fds w' = fds w"
    and "ftruncate sys fd n w = (r, w') \<Longrightarrow> fds w' = fds w"
    and "mmap sys n fd w = (a, w') \<Longrightarrow> fds w' = fds w"
    and "fds (close_fd sys fd w) = fds w - {fd}"
    and "opens fds (memfd_create sys seal)" and "opens fds (open_tmpfile sys)" and "opens fds (mkostemp sys)"
proof -
  note l = assms [unfolded fd_laws_def]
  show "unlink sys w = (r, w') \<Longrightarrow> fds w' = fds w" using l by (metis snd_conv)
  show "ftruncate sys fd n w = (r, w') \<Longrightarrow> fds w' = fds w" using l by (metis snd_conv)
  show "mmap sys n fd w = (a, w') \<Longrightarrow> fds w' = fds w" using l by (metis snd_conv)
  show "fds (close_fd sys fd w) = fds w - {fd}" using l by simp
  show "opens fds (memfd_create sys seal)" using l by (cases seal) simp_all
  show "opens fds (open_tmpfile sys)" "opens fds (mkostemp sys)" using l by simp_all
qed

lemma opens_named_file:
  assumes "fd_laws sys fds"
  shows "opens fds (open_named_file sys)"
proof (rule opensI)
  fix w fd w'
  assume run: "open_named_file sys w = (fd, w')"
  obtain f1 w1 where 1: "mkostemp sys w = (f1, w1)" by fastforce
  obtain r w2 where 2: "unlink sys w1 = (r, w2)" by fastforce
  note o1 = opensD [OF fd_lawsD(7) [OF assms] 1] and u = fd_lawsD(1) [OF assms 2]
  show "if fd = -1 then fds w' = fds w else fd \<ge> 0 \<and> fd \<notin> fds w \<and> fds w' = insert fd (fds w)"
    using run o1 u fd_lawsD(4) [OF assms, of f1 w2]
    by (auto simp: open_named_file_def 1 2 split: if_splits)
qed

lemma opens_in_shm:
  assumes "fd_laws sys fds"
  shows "opens fds (open_in_shm sys)"
proof (rule opensI)
  fix w fd w'
  assume run: "open_in_shm sys w = (fd, w')"
  obtain f1 w1 where 1: "open_tmpfile sys w = (f1, w1)" by fastforce
  note o1 = opensD [OF fd_lawsD(6) [OF assms] 1] and o2 = opensD [OF opens_named_file [OF assms], of w1 fd w']
  show "if fd = -1 then fds w' = fds w else fd \<ge> 0 \<and> fd \<notin> fds w \<and> fds w' = insert fd (fds w)"
    using run o1 o2 by (auto simp: open_in_shm_def 1 split: if_splits)
qed

lemma opens_anonymous:
  assumes "fd_laws sys fds"
  shows "opens fds (open_anonymous sys)"
proof (rule opensI)
  fix w fd w'
  assume run: "open_anonymous sys w = (fd, w')"
  obtain f1 w1 where 1: "memfd_create sys True w = (f1, w1)" by fastforce
  obtain f2 w2 where 2: "(if f1 = -1 \<and> sys_errno sys w1 = EINVAL then memfd_create sys False w1 else (f1, w1)) = (f2, w2)"
    by fastforce
  note o1 = opensD [OF fd_lawsD(5) [OF assms] 1] and o2 = opensD [OF fd_lawsD(5) [OF assms, of False], of w1 f2 w2]
    and o3 = opensD [OF opens_in_shm [OF assms], of w2 fd w']
  have s2: "if f2 = -1 then fds w2 = fds w else f2 \<ge> 0 \<and> f2 \<notin> fds w \<and> fds w2 = insert f2 (fds w)"
    using 2 o1 o2 by (auto split: if_splits)
  show "if fd = -1 then fds w' = fds w else fd \<ge> 0 \<and> fd \<notin> fds w \<and> fds w' = insert fd (fds w)"
    using run o3 s2 by (auto simp: open_anonymous_def 1 2 split: if_splits)
qed

text \<open>The notifiers that want to be called again, as the containers of the prelude have it.\<close>

definition kept_notifiers :: "('w \<Rightarrow> bool \<times> 'w) list \<Rightarrow> 'w \<Rightarrow> ('w \<Rightarrow> bool \<times> 'w) list" where
  "kept_notifiers ns w = map (\<lambda>n. n ()) (fst (erase_remove_if (map (\<lambda>n u. n) ns) () w))"

lemma kept_notifiers_simps [simp]:
  "kept_notifiers [] w = []"
  "kept_notifiers (n # ns) w = (if fst (n w) then [n] else []) @ kept_notifiers ns (snd (n w))"
  by (simp_all add: kept_notifiers_def erase_remove_if_Cons del: erase_remove_if.simps(2))

lemma call_notifiers_expired:
  "call_notifiers i ns w = (expired, w') \<Longrightarrow>
     w' = fold (\<lambda>n w. snd (n w)) ns w \<and> length expired + length (kept_notifiers ns w) = length ns \<and>
     sorted_wrt (<) expired \<and> (\<forall>e \<in> set expired. i \<le> e) \<and>
     (expired = [] \<longrightarrow> kept_notifiers ns w = ns) \<and>
     (\<forall>k. expired = [k] \<longrightarrow> kept_notifiers ns w = take (k - i) ns @ drop (Suc (k - i)) ns)"
proof (induction i ns w arbitrary: expired w' rule: call_notifiers.induct)
  case (2 i n ns w)
  obtain keep w1 where n: "n w = (keep, w1)" by fastforce
  obtain ex w2 where ex: "call_notifiers (Suc i) ns w1 = (ex, w2)" by fastforce
  from 2(2) n ex have e: "expired = (if keep then ex else i # ex)" "w' = w2" by auto
  note IH = 2(1) [OF n [symmetric] ex]
  show ?case
  proof (cases keep)
    case True
    have "take (k - i) (n # ns) @ drop (Suc (k - i)) (n # ns) = n # take (k - Suc i) ns @ drop (Suc (k - Suc i)) ns"
      if "ex = [k]" for k
    proof -
      have "Suc i \<le> k" using IH that by simp
      then have "k - i = Suc (k - Suc i)" by simp
      then show ?thesis by simp
    qed
    with True IH n e show ?thesis by (auto intro: Suc_leD)
  next
    case False
    with IH n e show ?thesis by (auto intro: Suc_leD simp: Suc_le_eq)
  qed
qed simp

lemma erase_two_undefined:
  assumes "sorted_wrt (<) (i # j # rest)"
  shows "erase_expired (i # j # rest) None xs = Inl (Undefined_behaviour ''erase with an invalidated iterator'')"
  using assms by simp

lemma anonymous_file_opens:
  assumes "fd_laws sys fds" and "create_anonymous_file sys n w = (r, w')"
  shows "case r of Inr fd \<Rightarrow> fd \<ge> 0 \<and> fd \<notin> fds w \<and> fds w' = insert fd (fds w) | Inl e \<Rightarrow> fds w' = fds w"
proof -
  obtain fd w1 where 1: "open_anonymous sys w = (fd, w1)" by fastforce
  obtain q w2 where 2: "ftruncate sys fd (as_off_t n) w1 = (q, w2)" by fastforce
  note o1 = opensD [OF opens_anonymous [OF assms(1)] 1] and o2 = fd_lawsD(2) [OF assms(1) 2]
  show ?thesis
    using assms(2) o1 o2 fd_lawsD(4) [OF assms(1), of fd w2]
    by (auto simp: create_anonymous_file_def 1 2 Let_def split: if_splits)
qed

lemma map_buffer_closes:
  assumes "fd_laws sys fds" and "map_buffer lib sys width height stride sz fd me = (r, me')"
  shows "fds (env me') = fds (env me) - {fd} \<and>
    (case r of
       Inr b \<Rightarrow> buffer_size b = sz \<and> (\<exists>pool. calls me' = calls me @
           [Create_pool (shm me) fd sz, Pool_create_buffer pool 0 width height stride WL_SHM_FORMAT_ARGB8888,
            Destroy ''wl_shm_pool'' pool, Add_listener ''wl_buffer'' (wl_buffer b)])
     | Inl e \<Rightarrow> calls me' = calls me)"
proof -
  obtain a w where 2: "mmap sys sz fd (env me) = (a, w)" by fastforce
  have closed: "fds (close_fd sys fd w) = fds (env me) - {fd}"
    using fd_lawsD(3) [OF assms(1) 2] fd_lawsD(4) [OF assms(1), of fd w] by simp
  show ?thesis
  proof (cases a)
    case None
    let ?e = "System_error (sys_errno sys (close_fd sys fd w)) ''Failed to map buffer''"
    have "(Inl ?e, me\<lparr>env := close_fd sys fd w\<rparr>) = (r, me')"
      using assms(2) by (simp add: map_buffer_def in_env_def Let_def 2 None)
    then have "r = Inl ?e" "me' = me\<lparr>env := close_fd sys fd w\<rparr>" by simp_all
    with closed show ?thesis by simp
  next
    case (Some addr)
    let ?p1 = "Create_pool (shm me) fd sz"
    let ?pool = "new_proxy lib (calls me @ [?p1])"
    let ?p2 = "Pool_create_buffer ?pool 0 width height stride WL_SHM_FORMAT_ARGB8888"
    let ?b = "new_proxy lib (calls me @ [?p1, ?p2])"
    have "r = Inr \<lparr>buffer_size = sz, buffer_data = addr, wl_buffer = ?b, release_notifiers = []\<rparr>"
      "me' = me\<lparr>env := close_fd sys fd w, calls := calls me @
         [?p1, ?p2, Destroy ''wl_shm_pool'' ?pool, Add_listener ''wl_buffer'' ?b]\<rparr>"
      using assms(2) by (simp_all add: map_buffer_def in_env_def Let_def call_new_def do_call_def 2 Some)
    with closed show ?thesis by simp
  qed
qed

section \<open>Properties\<close>

text \<open>
  Claim C31. \<^verbatim>\<open>create_anonymous_file\<close> leaks no descriptor on any of its paths (memfd with or without
  sealing, \<^verbatim>\<open>O_TMPFILE\<close>, the named file of the fallback): when it returns, the only new open
  descriptor is the one it returns, and when it throws there is none.
\<close>

theorem anonymous_file_leaks_nothing:
  assumes "fd_laws sys fds" and "create_anonymous_file sys n w = (r, w')"
  shows "case r of Inr fd \<Rightarrow> fd \<ge> 0 \<and> fd \<notin> fds w \<and> fds w' = insert fd (fds w) | Inl e \<Rightarrow> fds w' = fds w"
  using assms by (rule anonymous_file_opens)

text \<open>A system whose state is the list of its open descriptors; \<^verbatim>\<open>memfd\<close> is not available.\<close>

definition old_kernel :: "int list sys" where
  "old_kernel =
     (let new = (\<lambda>w. (int (sum_list (map nat w)) + 1, (int (sum_list (map nat w)) + 1) # w)) in
      \<lparr>memfd_create = (\<lambda>seal w. (-1, w)), open_tmpfile = new, mkostemp = new, unlink = (\<lambda>w. (0, w)),
       ftruncate = (\<lambda>fd n w. (0, w)), close_fd = (\<lambda>fd w. removeAll fd w), mmap = (\<lambda>n fd w. (Some 4096, w)),
       munmap = (\<lambda>a n w. w), sys_errno = (\<lambda>w. ENOSYS)\<rparr>)"

lemma sum_list_bound: "x \<in> set w \<Longrightarrow> x \<le> int (sum_list (map nat w))"
  using member_le_sum_list [of "nat x" "map nat w"] by force

lemma old_kernel_laws: "fd_laws old_kernel set"
proof -
  have "int (sum_list (map nat w)) + 1 \<notin> set w" for w using sum_list_bound [of _ w] by fastforce
  then show ?thesis by (auto simp: fd_laws_def opens_def old_kernel_def Let_def)
qed

lemma old_kernel_file: "create_anonymous_file old_kernel 4096 [3] = (Inr 4, [4, 3])"
  by (simp add: create_anonymous_file_def open_anonymous_def open_in_shm_def old_kernel_def Let_def ENOSYS_def
      EINVAL_def)

theorem anonymous_file_leaks_nothing_witness:
  "(4 :: int) \<notin> set [3] \<and> set [4, 3] = insert (4 :: int) (set [3])"
  using anonymous_file_leaks_nothing [OF old_kernel_laws old_kernel_file] by simp

text \<open>
  Claim C35. What a \<^verbatim>\<open>release\<close> event does: every notifier is called exactly once, in order. If at most
  one of them returns \<^verbatim>\<open>false\<close>, exactly that one is removed. If two or more do, the handler erases
  with an iterator that its own previous erase has invalidated, which is undefined behaviour.
\<close>

theorem on_release_notifiers:
  "if length (release_notifiers b) \<le> Suc (length (kept_notifiers (release_notifiers b) w))
   then on_release (b, w) =
     (Inr (), (b\<lparr>release_notifiers := kept_notifiers (release_notifiers b) w\<rparr>,
               fold (\<lambda>n w. snd (n w)) (release_notifiers b) w))
   else on_release (b, w) =
     (Inl (Undefined_behaviour ''erase with an invalidated iterator''),
      (b, fold (\<lambda>n w. snd (n w)) (release_notifiers b) w))"
proof -
  obtain expired w' where run: "call_notifiers 0 (release_notifiers b) w = (expired, w')" by fastforce
  note e = call_notifiers_expired [OF run]
  consider "expired = []" | k where "expired = [k]" | i j rest where "expired = i # j # rest"
    by (metis list.exhaust)
  then show ?thesis
  proof cases
    case 1
    with e run show ?thesis by (simp add: on_release_def)
  next
    case 2
    with e run show ?thesis by (simp add: on_release_def)
  next
    case 3
    then have "Suc (length (kept_notifiers (release_notifiers b) w)) < length (release_notifiers b)"
      using e by auto
    moreover have "erase_expired expired None (release_notifiers b) =
        Inl (Undefined_behaviour ''erase with an invalidated iterator'')"
      unfolding 3 by (rule erase_two_undefined) (use e 3 in blast)
    ultimately show ?thesis using e run by (simp add: on_release_def)
  qed
qed


lemma old_kernel_buffer:
  "shm_buffer_ctor (ok_lib id (\<lambda>w. 0)) old_kernel 20 10 (new_client None [3]) =
   (Inr \<lparr>buffer_size = 800, buffer_data = 4096, wl_buffer = Some 2, release_notifiers = []\<rparr>,
    (new_client None [3])\<lparr>calls := [Create_pool nullptr 4 800, Pool_create_buffer (Some 1) 0 20 10 80 0,
       Destroy ''wl_shm_pool'' (Some 1), Add_listener ''wl_buffer'' (Some 2)]\<rparr>)"
  by (simp add: shm_buffer_ctor_def map_buffer_def int_mult_def in_env_def create_anonymous_file_def open_anonymous_def
      open_in_shm_def old_kernel_def Let_def ENOSYS_def EINVAL_def new_client_def call_new_def do_call_def
      WL_SHM_FORMAT_ARGB8888_def ok_lib_def)

text \<open>The memory that a buffer hands out is the memory that was mapped, four bytes for each pixel.\<close>

lemma shm_buffer_data_is_mapping:
  assumes "shm_buffer_ctor lib sys width height me = (Inr b, me')" and "0 \<le> width" and "0 \<le> height"
  shows "int (snd (shm_buffer_data b)) = 4 * width * height \<and>
    (\<exists>fd w w'. mmap sys (4 * width * height) fd w = (Some (fst (shm_buffer_data b)), w'))"
proof -
  from assms(1) obtain fd w where m: "map_buffer lib sys width height (width * 4) (width * 4 * height) fd w = (Inr b, me')"
    and fits: "width * 4 * height < 2 ^ 31"
    by (auto simp: shm_buffer_ctor_def int_mult_def split: option.splits sum.splits prod.splits if_splits)
  obtain a w1 where mm: "mmap sys (width * 4 * height) fd (env w) = (a, w1)" by fastforce
  with m obtain addr where "a = Some addr" "buffer_data b = addr" "buffer_size b = width * 4 * height"
    by (cases a) (auto simp: map_buffer_def in_env_def Let_def split: prod.splits)
  with mm fits assms(2,3) show ?thesis
    by (auto simp: shm_buffer_data_def as_size_t_def mult.commute mult.left_commute zmod_trivial_iff)
qed


end
