(* ===== verification/Surfaces.thy ===== *)
theory Surfaces
  imports Client_Dispatch Shm_Buffer
begin

text \<open>
  \<^verbatim>\<open>Surface\<close>, \<^verbatim>\<open>Subsurface\<close> and the surface-creating operations of \<^verbatim>\<open>Client::Impl\<close>
  (\<^verbatim>\<open>src/in_process_server.cpp\<close>), with the xdg shell objects they make
  (\<^verbatim>\<open>src/xdg_shell_v6.cpp\<close>, \<^verbatim>\<open>src/xdg_shell_stable.cpp\<close>). The environment of a client is here
  the heap of the test program: the live \<^verbatim>\<open>Surface::Impl\<close> objects by their address, the static
  vector \<^verbatim>\<open>pending_callbacks\<close>, the closures that are the user data of \<^verbatim>\<open>wl_callback\<close> objects,
  the shared flags the code waits for, and the rest of the program's state.
\<close>

section \<open>State\<close>

text \<open>A frame closure of this file sets a flag; tests pass closures of their own.\<close>

datatype 'v frame_closure = Set_flag nat | User_closure "u32 \<Rightarrow> 'v \<Rightarrow> 'v"

text \<open>
  What the mock \<^verbatim>\<open>configure\<close> of an xdg surface does: acknowledge and set a flag, once; fail the
  test when it is called again after that; acknowledge always; or nothing.
\<close>

datatype configure_action = Ack_once nat | Exhausted | Ack_always | No_action

record 'v surface_impl =
  surf_handle :: handle
  surf_outputs :: "handle list"
  surf_callbacks :: "'v callback list"
  subsurface_handle :: handle
  subsurface_parent :: "nat option"

record 'v surface_world =
  impls :: "nat \<rightharpoonup> 'v surface_impl"
  pending_callbacks :: "(nat \<times> handle) list"
  frame_closures :: "handle \<rightharpoonup> 'v frame_closure"
  configure_actions :: "handle \<rightharpoonup> configure_action"
  flags :: "nat \<Rightarrow> bool"
  next_flag :: nat
  test_failures :: nat
  app :: 'v

type_synonym 'v sclient = "'v surface_world client"

definition upd_world :: "('v surface_world \<Rightarrow> 'v surface_world) \<Rightarrow> 'v sclient \<Rightarrow> 'v sclient" where
  "upd_world f me = me\<lparr>env := f (env me)\<rparr>"

definition surface_of :: "nat \<Rightarrow> 'v sclient \<Rightarrow> handle" where
  "surface_of a me = (case impls (env me) a of None \<Rightarrow> nullptr | Some i \<Rightarrow> surf_handle i)"

definition new_flag :: "'v sclient \<Rightarrow> nat \<times> 'v sclient" where
  "new_flag me =
     (next_flag (env me),
      upd_world (\<lambda>w. w\<lparr>flags := (flags w)(next_flag w := False), next_flag := Suc (next_flag w)\<rparr>) me)"

section \<open>Surfaces\<close>

text \<open>The constructor, for an object at address \<open>a\<close>.\<close>

definition surface_ctor :: "'v surface_world libwayland \<Rightarrow> nat \<Rightarrow> 'v sclient \<Rightarrow> 'v sclient" where
  "surface_ctor lib a me =
     (case call_new lib (Create_surface (compositor me)) me of (h, me) \<Rightarrow>
        do_call (Add_listener ''wl_surface'' h)
          (upd_world (\<lambda>w. w\<lparr>impls := (impls w)(a \<mapsto>
             \<lparr>surf_handle = h, surf_outputs = [], surf_callbacks = [], subsurface_handle = nullptr,
              subsurface_parent = None\<rparr>)\<rparr>) me))"

text \<open>The loop of the destructor over \<^verbatim>\<open>pending_callbacks\<close>: the object's own entries go.\<close>

fun destroy_pending :: "nat \<Rightarrow> (nat \<times> handle) list \<Rightarrow> 'v sclient \<Rightarrow> (nat \<times> handle) list \<times> 'v sclient" where
  "destroy_pending a [] me = ([], me)"
| "destroy_pending a ((owner, h) # cs) me =
     (if owner = a then
        destroy_pending a cs
          (do_call (Destroy ''wl_callback'' h)
             (upd_world (\<lambda>w. w\<lparr>frame_closures := (frame_closures w)(h := None)\<rparr>) me))
      else case destroy_pending a cs me of (rest, me) \<Rightarrow> ((owner, h) # rest, me))"

definition run_app_callback :: "'v callback \<Rightarrow> 'v sclient \<Rightarrow> 'v sclient" where
  "run_app_callback f me =
     (case f (calls me, app (env me)) of (cs, v) \<Rightarrow> upd_world (\<lambda>w. w\<lparr>app := v\<rparr>) (me\<lparr>calls := cs\<rparr>))"

definition surface_destructor :: "nat \<Rightarrow> 'v sclient \<Rightarrow> 'v sclient" where
  "surface_destructor a me =
     (case destroy_pending a (pending_callbacks (env me)) me of (rest, me) \<Rightarrow>
        let me = upd_world (\<lambda>w. w\<lparr>pending_callbacks := rest\<rparr>) me;
            me = (case impls (env me) a of
                    None \<Rightarrow> me
                  | Some i \<Rightarrow> fold run_app_callback (surf_callbacks i) me);
            me = do_call (Destroy ''wl_surface'' (surface_of a me)) me
        in upd_world (\<lambda>w. w\<lparr>impls := (impls w)(a := None)\<rparr>) me)"

definition surface_run_on_destruction :: "nat \<Rightarrow> 'v callback \<Rightarrow> 'v sclient \<Rightarrow> 'v sclient" where
  "surface_run_on_destruction a f =
     upd_world (\<lambda>w. w\<lparr>impls := (impls w)(a := map_option (\<lambda>i. i\<lparr>surf_callbacks := surf_callbacks i @ [f]\<rparr>) (impls w a))\<rparr>)"

definition attach_buffer ::
    "'v surface_world libwayland \<Rightarrow> 'v surface_world sys \<Rightarrow> nat \<Rightarrow> int \<Rightarrow> int \<Rightarrow> ('v sclient, unit) eff" where
  "attach_buffer lib sys a width height me =
     (case create_buffer lib sys width height me of
        (Inl e, me) \<Rightarrow> (Inl e, me)
      | (Inr b, me) \<Rightarrow> (Inr (), do_call (Attach (surface_of a me) (wl_buffer b) 0 0) me))"

definition add_frame_callback ::
    "'v surface_world libwayland \<Rightarrow> nat \<Rightarrow> 'v frame_closure \<Rightarrow> 'v sclient \<Rightarrow> 'v sclient" where
  "add_frame_callback lib a on_frame me =
     (case call_new lib (Frame (surface_of a me)) me of (callback, me) \<Rightarrow>
        do_call (Add_listener ''wl_callback'' callback)
          (upd_world (\<lambda>w. w\<lparr>pending_callbacks := pending_callbacks w @ [(a, callback)],
                            frame_closures := (frame_closures w)(callback \<mapsto> on_frame)\<rparr>) me))"

fun erase_callback :: "handle \<Rightarrow> (nat \<times> handle) list \<Rightarrow> (nat \<times> handle) list option" where
  "erase_callback h [] = None"
| "erase_callback h ((a, h') # cs) =
     (if h' = h then Some cs else map_option ((#) (a, h')) (erase_callback h cs))"

fun run_frame_closure :: "'v frame_closure \<Rightarrow> u32 \<Rightarrow> 'v surface_world \<Rightarrow> 'v surface_world" where
  "run_frame_closure (Set_flag n) t w = w\<lparr>flags := (flags w)(n := True)\<rparr>"
| "run_frame_closure (User_closure f) t w = w\<lparr>app := f t (app w)\<rparr>"

text \<open>The handler of \<^verbatim>\<open>wl_callback.done\<close>; \<^verbatim>\<open>erase(end())\<close> and a deleted closure are undefined.\<close>

definition frame_callback :: "handle \<Rightarrow> u32 \<Rightarrow> ('v sclient, unit) eff" where
  "frame_callback callback frame_time me =
     (case erase_callback callback (pending_callbacks (env me)) of
        None \<Rightarrow> (Inl (Undefined_behaviour ''erase of the end iterator''), me)
      | Some rest \<Rightarrow>
          let me = upd_world (\<lambda>w. w\<lparr>pending_callbacks := rest\<rparr>) me in
          case frame_closures (env me) callback of
            None \<Rightarrow> (Inl (Undefined_behaviour ''call of a deleted closure''), me)
          | Some closure \<Rightarrow>
              let me = upd_world (run_frame_closure closure frame_time) me;
                  me = do_call (Destroy ''wl_callback'' callback) me
              in (Inr (), upd_world (\<lambda>w. w\<lparr>frame_closures := (frame_closures w)(callback := None)\<rparr>) me))"

text \<open>\<open>proxy_id\<close> is \<^verbatim>\<open>wl_proxy_get_id\<close>.\<close>

definition on_enter :: "(handle \<Rightarrow> u32) \<Rightarrow> handle \<Rightarrow> ('v surface_impl, unit) eff" where
  "on_enter proxy_id out self =
     (if out \<in> set (surf_outputs self)
      then (Inl (Runtime_error (''Got wl_surface.enter(wl_output@'' @ u32_to_string (proxy_id out) @
              '') for an output the surface is already on'')), self)
      else (Inr (), self\<lparr>surf_outputs := surf_outputs self @ [out]\<rparr>))"

definition on_leave :: "(handle \<Rightarrow> u32) \<Rightarrow> handle \<Rightarrow> ('v surface_impl, unit) eff" where
  "on_leave proxy_id out self =
     (if out \<in> set (surf_outputs self)
      then (Inr (), self\<lparr>surf_outputs := removeAll out (surf_outputs self)\<rparr>)
      else (Inl (Runtime_error (''Got wl_surface.leave(wl_output@'' @ u32_to_string (proxy_id out) @
              '') for an output the surface is not on'')), self))"

text \<open>Waiting until a flag is set, for \<open>long_time\<close> seconds (\<^verbatim>\<open>helpers::a_long_time()\<close>).\<close>

definition wait_for_flag ::
    "'v surface_world libwayland \<Rightarrow> int \<Rightarrow> nat \<Rightarrow> 'v sclient \<Rightarrow> (unit result \<times> 'v sclient) option" where
  "wait_for_flag lib long_time n = dispatch_until lib (\<lambda>me. (flags (env me) n, me)) long_time"

definition attach_visible_buffer ::
    "'v surface_world libwayland \<Rightarrow> 'v surface_world sys \<Rightarrow> int \<Rightarrow> nat \<Rightarrow> int \<Rightarrow> int \<Rightarrow> 'v sclient \<Rightarrow>
     (unit result \<times> 'v sclient) option" where
  "attach_visible_buffer lib sys long_time a width height me =
     (case attach_buffer lib sys a width height me of
        (Inl e, me) \<Rightarrow> Some (Inl e, me)
      | (Inr _, me) \<Rightarrow>
          (case new_flag me of (surface_rendered, me) \<Rightarrow>
             let me = add_frame_callback lib a (Set_flag surface_rendered) me;
                 me = do_call (Commit (surface_of a me)) me
             in wait_for_flag lib long_time surface_rendered me))"

section \<open>Subsurfaces\<close>

definition subsurface_ctor :: "'v surface_world libwayland \<Rightarrow> nat \<Rightarrow> nat \<Rightarrow> 'v sclient \<Rightarrow> 'v sclient" where
  "subsurface_ctor lib a parent me =
     (let me = surface_ctor lib a me in
      case call_new lib (Get_subsurface (subcompositor me) (surface_of a me) (surface_of parent me)) me of
        (h, me) \<Rightarrow>
          upd_world (\<lambda>w. w\<lparr>impls := (impls w)(a := map_option
            (\<lambda>i. i\<lparr>subsurface_handle := h, subsurface_parent := Some parent\<rparr>) (impls w a))\<rparr>) me)"

definition subsurface_destructor :: "nat \<Rightarrow> 'v sclient \<Rightarrow> 'v sclient" where
  "subsurface_destructor a me =
     surface_destructor a
       (case impls (env me) a of
          None \<Rightarrow> me
        | Some i \<Rightarrow> do_call (Destroy ''wl_subsurface'' (subsurface_handle i)) me)"

text \<open>Committing the subsurface and then, while there is a parent, the parent.\<close>

partial_function (option) commit_chain :: "nat \<Rightarrow> 'v sclient \<Rightarrow> 'v sclient option" where
  "commit_chain surface_ptr me =
     (let me = do_call (Commit (surface_of surface_ptr me)) me in
      case impls (env me) surface_ptr of
        None \<Rightarrow> Some me
      | Some i \<Rightarrow>
          (case subsurface_parent i of
             Some parent \<Rightarrow> commit_chain parent me
           | None \<Rightarrow> Some me))"

text \<open>
  \<^verbatim>\<open>Subsurface::create_visible\<close>; the local object is destroyed when an exception leaves it.
\<close>

definition or_destroy ::
    "('v sclient \<Rightarrow> 'v sclient) \<Rightarrow> (unit result \<times> 'v sclient) option \<Rightarrow> (unit result \<times> 'v sclient) option" where
  "or_destroy destructor r =
     map_option (\<lambda>(r, me). case r of Inl e \<Rightarrow> (Inl e, destructor me) | Inr _ \<Rightarrow> (Inr (), me)) r"

definition create_visible ::
    "'v surface_world libwayland \<Rightarrow> 'v surface_world sys \<Rightarrow> int \<Rightarrow> nat \<Rightarrow> nat \<Rightarrow> int \<Rightarrow> int \<Rightarrow> int \<Rightarrow> int \<Rightarrow>
     'v sclient \<Rightarrow> (unit result \<times> 'v sclient) option" where
  "create_visible lib sys long_time a parent x y width height me =
     or_destroy (subsurface_destructor a)
       (let me = subsurface_ctor lib a parent me;
            me = do_call (Set_position (case impls (env me) a of None \<Rightarrow> nullptr | Some i \<Rightarrow> subsurface_handle i) x y) me
        in case attach_buffer lib sys a width height me of
             (Inl e, me) \<Rightarrow> Some (Inl e, me)
           | (Inr _, me) \<Rightarrow>
               (case new_flag me of (surface_rendered, me) \<Rightarrow>
                  Option.bind (commit_chain a (add_frame_callback lib a (Set_flag surface_rendered) me))
                    (wait_for_flag lib long_time surface_rendered)))"

section \<open>Toplevel surfaces of a client\<close>

definition create_wl_shell_surface ::
    "'v surface_world libwayland \<Rightarrow> 'v surface_world sys \<Rightarrow> int \<Rightarrow> nat \<Rightarrow> int \<Rightarrow> int \<Rightarrow> 'v sclient \<Rightarrow>
     (unit result \<times> 'v sclient) option" where
  "create_wl_shell_surface lib sys long_time a width height me =
     or_destroy (surface_destructor a)
       (let me = surface_ctor lib a me in
        case the_shell lib me of
          (Inl e, me) \<Rightarrow> Some (Inl e, me)
        | (Inr sh, me) \<Rightarrow>
            (case call_new lib (Get_shell_surface sh (surface_of a me)) me of (shell_surface, me) \<Rightarrow>
               let me = surface_run_on_destruction a
                          (\<lambda>(cs, v). (cs @ [Destroy ''wl_shell_surface'' shell_surface], v)) me;
                   me = do_call (Set_toplevel shell_surface) me;
                   me = do_call (Commit (surface_of a me)) me
               in attach_visible_buffer lib sys long_time a width height me))"

text \<open>\<^verbatim>\<open>XdgSurfaceV6\<close> and \<^verbatim>\<open>XdgToplevelV6\<close>; the other shell's objects below.\<close>

definition xdg_surface_v6_ctor ::
    "'v surface_world libwayland \<Rightarrow> nat \<Rightarrow> ('v sclient, handle) eff" where
  "xdg_surface_v6_ctor lib a me =
     (case the_xdg_shell_v6 lib me of
        (Inl e, me) \<Rightarrow> (Inl e, me)
      | (Inr sh, me) \<Rightarrow>
          if sh = nullptr then (Inl (Runtime_error ''XDG shell unstable V6 not supported by compositor''), me)
          else case call_new lib (Get_xdg_surface ''zxdg_surface_v6'' sh (surface_of a me)) me of
              (h, me) \<Rightarrow> (Inr h, do_call (Add_listener ''zxdg_surface_v6'' h) me))"

definition xdg_surface_stable_ctor ::
    "'v surface_world libwayland \<Rightarrow> nat \<Rightarrow> ('v sclient, handle) eff" where
  "xdg_surface_stable_ctor lib a me =
     (if xdg_shell_stable me = nullptr
      then (Inl (Runtime_error ''XDG shell stable not supported by compositor''), me)
      else case call_new lib (Get_xdg_surface ''xdg_surface'' (xdg_shell_stable me) (surface_of a me)) me of
          (h, me) \<Rightarrow> (Inr h, do_call (Add_listener ''xdg_surface'' h) me))"

definition xdg_toplevel_ctor ::
    "'v surface_world libwayland \<Rightarrow> string \<Rightarrow> handle \<Rightarrow> 'v sclient \<Rightarrow> handle \<times> 'v sclient" where
  "xdg_toplevel_ctor lib kind xdg_surface me =
     (case call_new lib (Get_xdg_toplevel kind xdg_surface) me of
        (h, me) \<Rightarrow> (h, do_call (Add_listener kind h) me))"

definition destroy_xdg :: "string \<Rightarrow> string \<Rightarrow> handle \<Rightarrow> handle \<Rightarrow> 'v callback" where
  "destroy_xdg surface_kind toplevel_kind xdg_surface xdg_toplevel st =
     (case st of (cs, v) \<Rightarrow> (cs @ [Destroy toplevel_kind xdg_toplevel, Destroy surface_kind xdg_surface], v))"

definition create_xdg_shell_v6_surface ::
    "'v surface_world libwayland \<Rightarrow> 'v surface_world sys \<Rightarrow> int \<Rightarrow> nat \<Rightarrow> int \<Rightarrow> int \<Rightarrow> 'v sclient \<Rightarrow>
     (unit result \<times> 'v sclient) option" where
  "create_xdg_shell_v6_surface lib sys long_time a width height me =
     or_destroy (surface_destructor a)
       (case xdg_surface_v6_ctor lib a (surface_ctor lib a me) of
          (Inl e, me) \<Rightarrow> Some (Inl e, me)
        | (Inr xdg_surface, me) \<Rightarrow>
            (case xdg_toplevel_ctor lib ''zxdg_toplevel_v6'' xdg_surface me of (xdg_toplevel, me) \<Rightarrow>
               let me = surface_run_on_destruction a
                          (destroy_xdg ''zxdg_surface_v6'' ''zxdg_toplevel_v6'' xdg_surface xdg_toplevel) me;
                   me = do_call (Commit (surface_of a me)) me
               in attach_visible_buffer lib sys long_time a width height me))"

definition set_configure_action :: "handle \<Rightarrow> configure_action \<Rightarrow> 'v sclient \<Rightarrow> 'v sclient" where
  "set_configure_action h act = upd_world (\<lambda>w. w\<lparr>configure_actions := (configure_actions w)(h \<mapsto> act)\<rparr>)"

text \<open>The \<^verbatim>\<open>xdg_surface.configure\<close> event, with what the mock was told to do.\<close>

definition xdg_surface_configure :: "handle \<Rightarrow> u32 \<Rightarrow> 'v sclient \<Rightarrow> 'v sclient" where
  "xdg_surface_configure h serial me =
     (case configure_actions (env me) h of
        Some (Ack_once n) \<Rightarrow>
          upd_world (\<lambda>w. w\<lparr>flags := (flags w)(n := True)\<rparr>)
            (set_configure_action h Exhausted (do_call (Ack_configure h serial) me))
      | Some Exhausted \<Rightarrow> upd_world (\<lambda>w. w\<lparr>test_failures := Suc (test_failures w)\<rparr>) me
      | Some Ack_always \<Rightarrow> do_call (Ack_configure h serial) me
      | _ \<Rightarrow> me)"

definition create_xdg_shell_stable_surface ::
    "'v surface_world libwayland \<Rightarrow> 'v surface_world sys \<Rightarrow> int \<Rightarrow> nat \<Rightarrow> int \<Rightarrow> int \<Rightarrow> 'v sclient \<Rightarrow>
     (unit result \<times> 'v sclient) option" where
  "create_xdg_shell_stable_surface lib sys long_time a width height me =
     or_destroy (surface_destructor a)
       (case xdg_surface_stable_ctor lib a (surface_ctor lib a me) of
          (Inl e, me) \<Rightarrow> Some (Inl e, me)
        | (Inr xdg_surface, me) \<Rightarrow>
            (case xdg_toplevel_ctor lib ''xdg_toplevel'' xdg_surface me of (xdg_toplevel, me) \<Rightarrow>
             case new_flag me of (initial_configure_received, me) \<Rightarrow>
               let me = set_configure_action xdg_surface (Ack_once initial_configure_received) me;
                   me = surface_run_on_destruction a
                          (destroy_xdg ''xdg_surface'' ''xdg_toplevel'' xdg_surface xdg_toplevel) me;
                   me = do_call (Commit (surface_of a me)) me
               in Option.bind (wait_for_flag lib long_time initial_configure_received me) (\<lambda>(r, me).
                    case r of
                      Inl e \<Rightarrow> Some (Inl e, me)
                    | Inr _ \<Rightarrow>
                        attach_visible_buffer lib sys long_time a width height
                          (set_configure_action xdg_surface Ack_always me))))"

definition create_visible_surface ::
    "'v surface_world libwayland \<Rightarrow> 'v surface_world sys \<Rightarrow> int \<Rightarrow> nat \<Rightarrow> int \<Rightarrow> int \<Rightarrow> 'v sclient \<Rightarrow>
     (unit result \<times> 'v sclient) option" where
  "create_visible_surface lib sys long_time a width height me =
     (if shell me \<noteq> nullptr then create_wl_shell_surface lib sys long_time a width height me
      else if xdg_shell_stable me \<noteq> nullptr then create_xdg_shell_stable_surface lib sys long_time a width height me
      else if xdg_shell_v6 me \<noteq> nullptr then create_xdg_shell_v6_surface lib sys long_time a width height me
      else Some (Inl (Runtime_error ''compositor does not support any known shell protocols''), me))"

section \<open>Lemmas: frame callbacks\<close>

lemma upd_world_simps [simp]:
  "env (upd_world f me) = f (env me)" "calls (upd_world f me) = calls me" "env (do_call c me) = env me"
  by (simp_all add: upd_world_def do_call_def)

text \<open>The \<^verbatim>\<open>wl_callback\<close> objects that exist: libwayland delivers events to these only.\<close>

fun callback_call :: "call \<Rightarrow> handle set \<Rightarrow> handle set" where
  "callback_call (Add_listener k h) s = (if k = ''wl_callback'' then insert h s else s)"
| "callback_call (Destroy k h) s = (if k = ''wl_callback'' then s - {h} else s)"
| "callback_call _ s = s"

definition live_callbacks :: "call list \<Rightarrow> handle set" where
  "live_callbacks cs = fold callback_call cs {}"

lemma live_callbacks_simps [simp]:
  "live_callbacks [] = {}" "live_callbacks (cs @ [c]) = callback_call c (live_callbacks cs)"
  "live_callbacks (cs @ [c, d]) = callback_call d (callback_call c (live_callbacks cs))"
  by (simp_all add: live_callbacks_def)

text \<open>A destruction callback that leaves frame callbacks alone.\<close>

definition harmless :: "'v callback \<Rightarrow> bool" where
  "harmless f \<longleftrightarrow> (\<forall>cs v. live_callbacks (fst (f (cs, v))) = live_callbacks cs)"

text \<open>
  The invariant: the existing callback objects are those in \<^verbatim>\<open>pending_callbacks\<close>, each once, and
  each has its closure; nothing else has one; the owners are live surfaces.
\<close>

definition frame_inv :: "'v sclient \<Rightarrow> bool" where
  "frame_inv me \<longleftrightarrow>
     distinct (map snd (pending_callbacks (env me))) \<and>
     live_callbacks (calls me) = snd ` set (pending_callbacks (env me)) \<and>
     dom (frame_closures (env me)) = snd ` set (pending_callbacks (env me)) \<and>
     (\<forall>p. p \<in> set (pending_callbacks (env me)) \<longrightarrow> impls (env me) (fst p) \<noteq> None) \<and>
     (\<forall>a i f. impls (env me) a = Some i \<longrightarrow> f \<in> set (surf_callbacks i) \<longrightarrow> harmless f)"

inductive surface_reachable :: "'v surface_world libwayland \<Rightarrow> 'v sclient \<Rightarrow> bool" for lib where
  start: "calls me = [] \<Longrightarrow> pending_callbacks (env me) = [] \<Longrightarrow> frame_closures (env me) = Map.empty \<Longrightarrow>
     impls (env me) = Map.empty \<Longrightarrow> surface_reachable lib me"
| construct: "surface_reachable lib me \<Longrightarrow> impls (env me) a = None \<Longrightarrow>
     surface_reachable lib (surface_ctor lib a me)"
| on_destruction: "surface_reachable lib me \<Longrightarrow> harmless f \<Longrightarrow>
     surface_reachable lib (surface_run_on_destruction a f me)"
| frame: "surface_reachable lib me \<Longrightarrow> impls (env me) a \<noteq> None \<Longrightarrow>
     new_proxy lib (calls me @ [Frame (surface_of a me)]) \<notin> live_callbacks (calls me) \<Longrightarrow>
     surface_reachable lib (add_frame_callback lib a closure me)"
| frame_done: "surface_reachable lib me \<Longrightarrow> h \<in> live_callbacks (calls me) \<Longrightarrow>
     frame_callback h time me = (r, me') \<Longrightarrow> surface_reachable lib me'"
| destroy: "surface_reachable lib me \<Longrightarrow> impls (env me) a \<noteq> None \<Longrightarrow>
     surface_reachable lib (surface_destructor a me)"
| other_call: "surface_reachable lib me \<Longrightarrow>
     live_callbacks (calls me @ [c]) = live_callbacks (calls me) \<Longrightarrow> surface_reachable lib (do_call c me)"

lemma erase_callback_Some:
  assumes "h \<in> snd ` set cs" and "distinct (map snd cs)"
  shows "erase_callback h cs = Some (filter (\<lambda>p. snd p \<noteq> h) cs)"
  using assms
proof (induction cs)
  case (Cons p cs)
  obtain a h' where p: "p = (a, h')" by fastforce
  show ?case
  proof (cases "h' = h")
    case True
    with Cons.prems p have "h \<notin> snd ` set cs" by auto
    then have "filter (\<lambda>p. snd p \<noteq> h) cs = cs" by (auto simp: filter_id_conv)
    with True p show ?thesis by simp
  next
    case False
    with Cons p show ?thesis by auto
  qed
qed simp

lemma frame_callback_ok:
  assumes "frame_inv me" and "h \<in> live_callbacks (calls me)"
  obtains closure where "frame_closures (env me) h = Some closure"
    and "frame_callback h time me = (Inr (),
      upd_world (\<lambda>w. (run_frame_closure closure time
          (w\<lparr>pending_callbacks := filter (\<lambda>p. snd p \<noteq> h) (pending_callbacks (env me))\<rparr>))\<lparr>frame_closures :=
            (frame_closures (env me))(h := None)\<rparr>)
        (do_call (Destroy ''wl_callback'' h) me))"
proof -
  from assms have h: "h \<in> snd ` set (pending_callbacks (env me))"
    and d: "distinct (map snd (pending_callbacks (env me)))"
    and dom: "dom (frame_closures (env me)) = snd ` set (pending_callbacks (env me))"
    by (auto simp: frame_inv_def)
  from h dom obtain closure where c: "frame_closures (env me) h = Some closure" by blast
  have fc: "frame_closures (run_frame_closure closure time w) = frame_closures w" for w
    by (cases closure) simp_all
  show thesis
    using c erase_callback_Some [OF h d]
    by (intro that [of closure]) (simp_all add: frame_callback_def Let_def upd_world_def do_call_def fc)
qed

lemma run_frame_closure_simps [simp]:
  "pending_callbacks (run_frame_closure c t w) = pending_callbacks w"
  "frame_closures (run_frame_closure c t w) = frame_closures w"
  "impls (run_frame_closure c t w) = impls w"
  by (cases c; simp)+

definition forget :: "handle set \<Rightarrow> (handle \<rightharpoonup> 'b) \<Rightarrow> handle \<rightharpoonup> 'b" where
  "forget S m = (\<lambda>h. if h \<in> S then None else m h)"

lemma forget_simps [simp]:
  "forget {} m = m" "forget S (m(h := None)) = forget (insert h S) m" "dom (forget S m) = dom m - S"
  by (auto simp: forget_def fun_eq_iff dom_def)

lemma destroy_pending_eq:
  "destroy_pending a cs me =
     (filter (\<lambda>p. fst p \<noteq> a) cs,
      upd_world (\<lambda>w. w\<lparr>frame_closures := forget (snd ` set (filter (\<lambda>p. fst p = a) cs)) (frame_closures w)\<rparr>)
        (me\<lparr>calls := calls me @ map (\<lambda>p. Destroy ''wl_callback'' (snd p)) (filter (\<lambda>p. fst p = a) cs)\<rparr>))"
proof (induction a cs me rule: destroy_pending.induct)
  case (1 a me)
  then show ?case by (simp add: upd_world_def)
next
  case (2 a owner h cs me)
  then show ?case by (cases "owner = a") (simp_all add: upd_world_def do_call_def)
qed

lemma live_after_destroys:
  "live_callbacks (cs @ map (\<lambda>p. Destroy ''wl_callback'' (snd p)) ps) = live_callbacks cs - snd ` set ps"
proof (induction ps arbitrary: cs)
  case (Cons p ps)
  from Cons [of "cs @ [Destroy ''wl_callback'' (snd p)]"] show ?case by auto
qed simp

lemma fold_run_app_callback:
  assumes "\<And>f. f \<in> set fs \<Longrightarrow> harmless f"
  shows "\<exists>cs v. fold run_app_callback fs me = me\<lparr>calls := cs, env := (env me)\<lparr>app := v\<rparr>\<rparr> \<and>
    live_callbacks cs = live_callbacks (calls me)"
  using assms
proof (induction fs arbitrary: me)
  case Nil
  have "me = me\<lparr>calls := calls me, env := (env me)\<lparr>app := app (env me)\<rparr>\<rparr>" by simp
  then show ?case by (metis fold_simps(1))
next
  case (Cons f fs)
  obtain cs v where f: "f (calls me, app (env me)) = (cs, v)" by fastforce
  have live: "live_callbacks cs = live_callbacks (calls me)"
    using Cons.prems [of f] f unfolding harmless_def by (metis fst_conv list.set_intros(1))
  have "run_app_callback f me = me\<lparr>calls := cs, env := (env me)\<lparr>app := v\<rparr>\<rparr>"
    by (simp add: run_app_callback_def f upd_world_def)
  moreover obtain cs' v' where "fold run_app_callback fs (me\<lparr>calls := cs, env := (env me)\<lparr>app := v\<rparr>\<rparr>) =
      me\<lparr>calls := cs', env := (env me)\<lparr>app := v'\<rparr>\<rparr>" "live_callbacks cs' = live_callbacks cs"
    using Cons.IH [of "me\<lparr>calls := cs, env := (env me)\<lparr>app := v\<rparr>\<rparr>"] Cons.prems by auto
  ultimately show ?case using live by auto
qed

lemma frame_invD:
  assumes "frame_inv me"
  shows "distinct (map snd (pending_callbacks (env me)))"
    and "live_callbacks (calls me) = snd ` set (pending_callbacks (env me))"
    and "dom (frame_closures (env me)) = snd ` set (pending_callbacks (env me))"
    and "p \<in> set (pending_callbacks (env me)) \<Longrightarrow> impls (env me) (fst p) \<noteq> None"
    and "impls (env me) a = Some i \<Longrightarrow> f \<in> set (surf_callbacks i) \<Longrightarrow> harmless f"
  using assms unfolding frame_inv_def by blast+

lemma surface_destructor_eq:
  assumes "frame_inv me" and "impls (env me) a = Some i"
  obtains v cs where "surface_destructor a me =
      me\<lparr>calls := cs, env := (env me)\<lparr>impls := (impls (env me))(a := None),
        pending_callbacks := filter (\<lambda>p. fst p \<noteq> a) (pending_callbacks (env me)),
        frame_closures := forget (snd ` set (filter (\<lambda>p. fst p = a) (pending_callbacks (env me)))) (frame_closures (env me)),
        app := v\<rparr>\<rparr>"
    and "live_callbacks cs =
      live_callbacks (calls me) - snd ` set (filter (\<lambda>p. fst p = a) (pending_callbacks (env me)))"
proof -
  let ?own = "filter (\<lambda>p. fst p = a) (pending_callbacks (env me))"
  let ?me1 = "me\<lparr>calls := calls me @ map (\<lambda>p. Destroy ''wl_callback'' (snd p)) ?own,
      env := (env me)\<lparr>frame_closures := forget (snd ` set ?own) (frame_closures (env me)),
        pending_callbacks := filter (\<lambda>p. fst p \<noteq> a) (pending_callbacks (env me))\<rparr>\<rparr>"
  let ?me2 = "fold run_app_callback (surf_callbacks i) ?me1"
  have harm: "f \<in> set (surf_callbacks i) \<Longrightarrow> harmless f" for f using frame_invD(5) [OF assms] .
  obtain cs v where fold: "?me2 = ?me1\<lparr>calls := cs, env := (env ?me1)\<lparr>app := v\<rparr>\<rparr>"
    and live: "live_callbacks cs = live_callbacks (calls ?me1)"
    using fold_run_app_callback [OF harm, where me = ?me1] by blast
  have "surface_destructor a me =
      upd_world (\<lambda>w. w\<lparr>impls := (impls w)(a := None)\<rparr>) (do_call (Destroy ''wl_surface'' (surface_of a ?me2)) ?me2)"
    using assms(2) by (simp add: surface_destructor_def destroy_pending_eq Let_def upd_world_def)
  also have "\<dots> = me\<lparr>calls := cs @ [Destroy ''wl_surface'' (surface_of a ?me2)],
      env := (env me)\<lparr>impls := (impls (env me))(a := None),
        pending_callbacks := filter (\<lambda>p. fst p \<noteq> a) (pending_callbacks (env me)),
        frame_closures := forget (snd ` set ?own) (frame_closures (env me)), app := v\<rparr>\<rparr>"
    unfolding fold by (simp add: upd_world_def do_call_def)
  finally show thesis
    by (rule that) (use live in \<open>simp add: live_after_destroys\<close>)
qed

lemma frame_inv_destroy:
  assumes "frame_inv me" and "impls (env me) a \<noteq> None"
  shows "frame_inv (surface_destructor a me)"
proof -
  from assms(2) obtain i where i: "impls (env me) a = Some i" by blast
  let ?ps = "pending_callbacks (env me)"
  have d: "distinct (map snd ?ps)" using frame_invD(1) [OF assms(1)] .
  then have "inj_on snd (set ?ps)" by (simp add: distinct_map)
  then have "snd ` set ?ps - snd ` set (filter (\<lambda>p. fst p = a) ?ps) =
      snd ` (set ?ps - set (filter (\<lambda>p. fst p = a) ?ps))"
    by (intro inj_on_image_set_diff [symmetric]) auto
  also have "set ?ps - set (filter (\<lambda>p. fst p = a) ?ps) = set (filter (\<lambda>p. fst p \<noteq> a) ?ps)" by auto
  finally have own: "snd ` set ?ps - snd ` set (filter (\<lambda>p. fst p = a) ?ps) =
      snd ` set (filter (\<lambda>p. fst p \<noteq> a) ?ps)" .
  obtain v cs where eq: "surface_destructor a me =
      me\<lparr>calls := cs, env := (env me)\<lparr>impls := (impls (env me))(a := None),
        pending_callbacks := filter (\<lambda>p. fst p \<noteq> a) ?ps,
        frame_closures := forget (snd ` set (filter (\<lambda>p. fst p = a) ?ps)) (frame_closures (env me)),
        app := v\<rparr>\<rparr>"
    and live: "live_callbacks cs = live_callbacks (calls me) - snd ` set (filter (\<lambda>p. fst p = a) ?ps)"
    using assms(1) i by (rule surface_destructor_eq)
  show ?thesis
    unfolding frame_inv_def eq
    using d own live frame_invD [OF assms(1)] by (auto simp: distinct_map_filter)
qed

lemma frame_inv_reachable: "surface_reachable lib me \<Longrightarrow> frame_inv me"
proof (induction rule: surface_reachable.induct)
  case (start me)
  then show ?case by (simp add: frame_inv_def)
next
  case (construct me a)
  then show ?case
    by (auto simp: frame_inv_def surface_ctor_def call_new_def)
next
  case (on_destruction me f a)
  then show ?case
    by (auto simp: frame_inv_def surface_run_on_destruction_def split: if_splits option.splits)
next
  case (frame me a closure)
  note inv = frame_invD [OF frame.IH]
  let ?h = "new_proxy lib (calls me @ [Frame (surface_of a me)])"
  have "?h \<notin> snd ` set (pending_callbacks (env me))" using frame.hyps(3) inv(2) by simp
  then show ?case
    using inv frame.hyps(2) by (auto simp: frame_inv_def add_frame_callback_def call_new_def)
next
  case (frame_done me h time r me')
  note inv = frame_invD [OF frame_done.IH]
  let ?ps = "pending_callbacks (env me)"
  obtain closure where run: "frame_callback h time me = (Inr (),
      upd_world (\<lambda>w. (run_frame_closure closure time
          (w\<lparr>pending_callbacks := filter (\<lambda>p. snd p \<noteq> h) ?ps\<rparr>))\<lparr>frame_closures := (frame_closures (env me))(h := None)\<rparr>)
        (do_call (Destroy ''wl_callback'' h) me))"
    using frame_done.IH frame_done.hyps(2) by (rule frame_callback_ok)
  have me': "me' = upd_world (\<lambda>w. (run_frame_closure closure time
          (w\<lparr>pending_callbacks := filter (\<lambda>p. snd p \<noteq> h) ?ps\<rparr>))\<lparr>frame_closures := (frame_closures (env me))(h := None)\<rparr>)
        (do_call (Destroy ''wl_callback'' h) me)"
    using frame_done.hyps(3) run by simp
  have "snd ` set (filter (\<lambda>p. snd p \<noteq> h) ?ps) = snd ` set ?ps - {h}" by auto
  then show ?case
    unfolding frame_inv_def me' using inv by (auto simp: distinct_map_filter)
next
  case (destroy me a)
  from destroy.IH destroy.hyps(2) show ?case by (rule frame_inv_destroy)
next
  case (other_call me c)
  then show ?case by (simp add: frame_inv_def)
qed

section \<open>Lemmas: the chain of commits\<close>

definition parent_of :: "'v sclient \<Rightarrow> nat \<Rightarrow> nat option" where
  "parent_of me a = (case impls (env me) a of None \<Rightarrow> None | Some i \<Rightarrow> subsurface_parent i)"

text \<open>\<open>ancestry me as\<close>: each surface of the list is the parent of the one before, the last has none.\<close>

fun ancestry :: "'v sclient \<Rightarrow> nat list \<Rightarrow> bool" where
  "ancestry me [] \<longleftrightarrow> False"
| "ancestry me [a] \<longleftrightarrow> parent_of me a = None"
| "ancestry me (a # b # as) \<longleftrightarrow> parent_of me a = Some b \<and> ancestry me (b # as)"

lemma commit_chain_step:
  "commit_chain a me =
     (let me' = do_call (Commit (surface_of a me)) me
      in case parent_of me a of None \<Rightarrow> Some me' | Some p \<Rightarrow> commit_chain p me')"
  by (subst commit_chain.simps) (simp add: Let_def parent_of_def split: option.split)

lemma commit_chain_returns:
  assumes older: "\<And>b p. parent_of me b = Some p \<Longrightarrow> p < b"
  shows "\<exists>as. ancestry me (a # as) \<and> sorted_wrt (>) (a # as) \<and>
    commit_chain a (me\<lparr>calls := cs\<rparr>) = Some (me\<lparr>calls := cs @ map (\<lambda>b. Commit (surface_of b me)) (a # as)\<rparr>)"
proof (induction a arbitrary: cs rule: less_induct)
  case (less a)
  have same: "surface_of b (me\<lparr>calls := ds\<rparr>) = surface_of b me" "parent_of (me\<lparr>calls := ds\<rparr>) b = parent_of me b" for b ds
    by (simp_all add: surface_of_def parent_of_def)
  show ?case
  proof (cases "parent_of me a")
    case None
    then have "commit_chain a (me\<lparr>calls := cs\<rparr>) = Some (me\<lparr>calls := cs @ [Commit (surface_of a me)]\<rparr>)"
      by (subst commit_chain_step) (simp add: same Let_def do_call_def)
    with None show ?thesis by (intro exI [of _ "[]"]) simp
  next
    case (Some p)
    obtain as where as: "ancestry me (p # as)" "sorted_wrt (>) (p # as)"
      "commit_chain p (me\<lparr>calls := cs @ [Commit (surface_of a me)]\<rparr>) =
        Some (me\<lparr>calls := (cs @ [Commit (surface_of a me)]) @ map (\<lambda>b. Commit (surface_of b me)) (p # as)\<rparr>)"
      using less.IH [OF older [OF Some]] by blast
    have "commit_chain a (me\<lparr>calls := cs\<rparr>) = commit_chain p (me\<lparr>calls := cs @ [Commit (surface_of a me)]\<rparr>)"
      using Some by (subst commit_chain_step) (simp add: same Let_def do_call_def)
    with as Some older [OF Some] show ?thesis by (intro exI [of _ "p # as"]) auto
  qed
qed

section \<open>Properties\<close>

text \<open>
  Claim C11. Frame callbacks are memory safe: however surfaces are created and destroyed, frame
  callbacks added and frame events delivered, delivering an event to any existing callback object
  finds its entry and its closure (never the end iterator, never a deleted closure), runs the
  closure once, and removes both; and the closures on the heap are exactly those of the existing
  callback objects, so none is leaked either.
\<close>

theorem frame_events_are_safe:
  assumes "surface_reachable lib me" and "h \<in> live_callbacks (calls me)"
  shows "dom (frame_closures (env me)) = live_callbacks (calls me) \<and>
    (\<exists>me' closure. frame_callback h time me = (Inr (), me') \<and> frame_closures (env me) h = Some closure \<and>
      live_callbacks (calls me') = live_callbacks (calls me) - {h} \<and>
      dom (frame_closures (env me')) = live_callbacks (calls me') \<and>
      app (env me') = app (run_frame_closure closure time (env me)))"
proof -
  have inv: "frame_inv me" using assms(1) by (rule frame_inv_reachable)
  obtain closure where c: "frame_closures (env me) h = Some closure"
    and run: "frame_callback h time me = (Inr (),
      upd_world (\<lambda>w. (run_frame_closure closure time
          (w\<lparr>pending_callbacks := filter (\<lambda>p. snd p \<noteq> h) (pending_callbacks (env me))\<rparr>))\<lparr>frame_closures :=
            (frame_closures (env me))(h := None)\<rparr>)
        (do_call (Destroy ''wl_callback'' h) me))"
    using inv assms(2) by (rule frame_callback_ok)
  have "app (run_frame_closure closure time (w\<lparr>pending_callbacks := ps\<rparr>)) = app (run_frame_closure closure time w)"
    for w :: "'a surface_world" and ps by (cases closure) simp_all
  with c run frame_invD(2,3) [OF inv] show ?thesis by auto
qed

text \<open>
  Destroying a surface forgets it completely and touches nothing else: no pending entry of
  it remains, its callback objects are destroyed and their closures freed, and the entries and
  closures of all other surfaces stay as they were, in order.
\<close>

theorem surface_destructor_forgets:
  assumes "surface_reachable lib me" and "impls (env me) a = Some i"
  shows "pending_callbacks (env (surface_destructor a me)) = filter (\<lambda>p. fst p \<noteq> a) (pending_callbacks (env me)) \<and>
    live_callbacks (calls (surface_destructor a me)) =
      live_callbacks (calls me) - {h. (a, h) \<in> set (pending_callbacks (env me))} \<and>
    dom (frame_closures (env (surface_destructor a me))) = live_callbacks (calls (surface_destructor a me)) \<and>
    impls (env (surface_destructor a me)) = (impls (env me))(a := None)"
proof -
  have inv: "frame_inv me" using assms(1) by (rule frame_inv_reachable)
  have own: "snd ` set (filter (\<lambda>p. fst p = a) ps) = {h. (a, h) \<in> set ps}" for ps :: "(nat \<times> handle) list"
    by force
  have "dom (frame_closures (env (surface_destructor a me))) = live_callbacks (calls (surface_destructor a me))"
    using frame_invD(2,3) [OF frame_inv_destroy [OF inv]] assms(2) by simp
  moreover obtain v cs where "surface_destructor a me =
      me\<lparr>calls := cs, env := (env me)\<lparr>impls := (impls (env me))(a := None),
        pending_callbacks := filter (\<lambda>p. fst p \<noteq> a) (pending_callbacks (env me)),
        frame_closures := forget (snd ` set (filter (\<lambda>p. fst p = a) (pending_callbacks (env me)))) (frame_closures (env me)),
        app := v\<rparr>\<rparr>"
    and "live_callbacks cs = live_callbacks (calls me) - snd ` set (filter (\<lambda>p. fst p = a) (pending_callbacks (env me)))"
    using inv assms(2) by (rule surface_destructor_eq)
  ultimately show ?thesis unfolding own by simp
qed


text \<open>
  Showing a subsurface commits the whole ancestry: when every parent is older than its
  child, the loop of \<^verbatim>\<open>Subsurface::create_visible\<close> ends after committing the subsurface, its
  parent, and so on up to the toplevel surface, each exactly once and in this order, and changes
  nothing else.
\<close>

theorem commit_chain_commits_ancestry:
  assumes "\<And>b p. parent_of me b = Some p \<Longrightarrow> p < b"
  shows "\<exists>as. ancestry me (a # as) \<and> distinct (a # as) \<and>
    commit_chain a me = Some (me\<lparr>calls := calls me @ map (\<lambda>b. Commit (surface_of b me)) (a # as)\<rparr>)"
proof -
  obtain as where "ancestry me (a # as)" "sorted_wrt (>) (a # as)"
    "commit_chain a (me\<lparr>calls := calls me\<rparr>) = Some (me\<lparr>calls := calls me @ map (\<lambda>b. Commit (surface_of b me)) (a # as)\<rparr>)"
    using commit_chain_returns [where me = me, OF assms] by blast
  moreover from this(2) have "distinct (a # as)"
    by (metis distinct_rev sorted_wrt_rev strict_sorted_iff)
  ultimately show ?thesis by auto
qed

subsection \<open>Witnesses\<close>

definition empty_world :: "nat surface_world" where
  "empty_world =
     \<lparr>impls = Map.empty, pending_callbacks = [], frame_closures = Map.empty, configure_actions = Map.empty,
      flags = (\<lambda>n. False), next_flag = 0, test_failures = 0, app = 0\<rparr>"

abbreviation s_lib :: "nat surface_world libwayland" where
  "s_lib \<equiv> ok_lib (\<lambda>w. w\<lparr>flags := (\<lambda>n. True), app := Suc (app w)\<rparr>) (\<lambda>w. int (app w))"

definition one_surface :: "nat sclient" where
  "one_surface = add_frame_callback s_lib 7 (User_closure (\<lambda>t v. v + 5)) (surface_ctor s_lib 7 (new_client None empty_world))"

lemma one_surface_reachable: "surface_reachable s_lib one_surface"
proof -
  have "surface_reachable s_lib (new_client None empty_world)"
    by (rule surface_reachable.start) (simp_all add: new_client_def empty_world_def)
  then have "surface_reachable s_lib (surface_ctor s_lib 7 (new_client None empty_world))"
    by (rule surface_reachable.construct) (simp add: new_client_def empty_world_def)
  then show ?thesis
    unfolding one_surface_def
    by (rule surface_reachable.frame)
       (simp_all add: surface_ctor_def call_new_def new_client_def do_call_def live_callbacks_def)
qed

lemma one_surface_simps [simp]:
  "live_callbacks (calls one_surface) = {Some 3}" "pending_callbacks (env one_surface) = [(7, Some 3)]"
  "impls (env one_surface) 7 = Some \<lparr>surf_handle = Some 1, surf_outputs = [], surf_callbacks = [],
     subsurface_handle = nullptr, subsurface_parent = None\<rparr>"
  by (simp_all add: one_surface_def add_frame_callback_def surface_ctor_def call_new_def new_client_def
      do_call_def live_callbacks_def upd_world_def ok_lib_def surface_of_def empty_world_def)

theorem frame_events_are_safe_witness:
  "\<exists>me'. frame_callback (Some 3) 16 one_surface = (Inr (), me') \<and> live_callbacks (calls me') = {}"
  using frame_events_are_safe [OF one_surface_reachable, of "Some 3" 16] by auto

theorem surface_destructor_forgets_witness:
  "pending_callbacks (env (surface_destructor 7 one_surface)) = [] \<and>
   live_callbacks (calls (surface_destructor 7 one_surface)) = {}"
  using surface_destructor_forgets [OF one_surface_reachable one_surface_simps(3)] by simp

definition s_sys :: "nat surface_world sys" where
  "s_sys =
     \<lparr>memfd_create = (\<lambda>seal w. (5, w)), open_tmpfile = (\<lambda>w. (-1, w)), mkostemp = (\<lambda>w. (-1, w)),
      unlink = (\<lambda>w. (0, w)), ftruncate = (\<lambda>fd n w. (0, w)), close_fd = (\<lambda>fd w. w),
      mmap = (\<lambda>n fd w. (Some 4096, w)), munmap = (\<lambda>a n w. w), sys_errno = (\<lambda>w. 0)\<rparr>"

lemma attach_visible_example:
  "\<exists>me'. attach_visible_buffer s_lib s_sys 10 a 2 2 me = Some (Inr (), me')"
proof -
  have "\<exists>me'. wait_for_flag s_lib 10 n me = Some (Inr (), me')" for n me
  proof (cases "flags (env me) n")
    case True
    then show ?thesis
      by (simp add: wait_for_flag_def dispatch_until_def dispatch_loop.simps ok_lib_def)
  next
    case False
    then show ?thesis
      unfolding wait_for_flag_def by (subst ok_lib_one_turn [where P = "\<lambda>w. flags w n"]) simp_all
  qed
  moreover obtain me0 where "attach_buffer s_lib s_sys a 2 2 me = (Inr (), me0)"
    by (simp add: attach_buffer_def create_buffer_def shm_buffer_ctor_def map_buffer_def int_mult_def in_env_def
        create_anonymous_file_def open_anonymous_def s_sys_def call_new_def Let_def)
  ultimately show ?thesis by (simp add: attach_visible_buffer_def Let_def split: prod.split)
qed


theorem commit_chain_commits_ancestry_witness:
  "\<exists>as. commit_chain 9 (subsurface_ctor s_lib 9 7 one_surface) =
     Some ((subsurface_ctor s_lib 9 7 one_surface)\<lparr>calls := calls (subsurface_ctor s_lib 9 7 one_surface) @
        map (\<lambda>b. Commit (surface_of b (subsurface_ctor s_lib 9 7 one_surface))) (9 # as)\<rparr>)"
proof -
  have "p < b" if "parent_of (subsurface_ctor s_lib 9 7 one_surface) b = Some p" for b p
    using that
    by (auto simp: parent_of_def subsurface_ctor_def one_surface_def add_frame_callback_def surface_ctor_def
        call_new_def new_client_def empty_world_def Let_def split: if_splits)
  from commit_chain_commits_ancestry [where a = 9, OF this] show ?thesis by blast
qed

end
