(* ===== verification/Surface_Builder.thy ===== *)
theory Surface_Builder
  imports Surfaces Server
begin

text \<open>
  \<^verbatim>\<open>src/surface_builder.cpp\<close>: the ways parametrised tests get a surface of a given size at a given
  position. A builder works on two sides: on the client, where it makes the surface, and on the
  display server, which it asks to place the window. The state is the pair of both.
\<close>

section \<open>Builders\<close>

datatype surface_builder =
    WlShellSurfaceBuilder
  | XdgV6SurfaceBuilder
  | XdgStableSurfaceBuilder int int int int
  | SubsurfaceBuilder "int \<times> int"

fun builder_name :: "surface_builder \<Rightarrow> string" where
  "builder_name WlShellSurfaceBuilder = ''wl_shell_surface''"
| "builder_name XdgV6SurfaceBuilder = ''zxdg_surface_v6''"
| "builder_name (XdgStableSurfaceBuilder left_offset top_offset right_offset bottom_offset) =
     ''xdg_surface_stable'' @
     (if left_offset \<noteq> 0 \<or> top_offset \<noteq> 0 \<or> right_offset \<noteq> 0 \<or> bottom_offset \<noteq> 0
      then ''_'' @ int_to_string left_offset @ ''_'' @ int_to_string top_offset @ ''_'' @ int_to_string right_offset @ ''_'' @ int_to_string bottom_offset
      else '''')"
| "builder_name (SubsurfaceBuilder offset) =
     ''subsurface_at_x'' @ int_to_string (fst offset) @ ''_y'' @ int_to_string (snd offset)"

definition all_surface_types :: "surface_builder list" where
  "all_surface_types =
     [WlShellSurfaceBuilder, XdgV6SurfaceBuilder, XdgStableSurfaceBuilder 0 0 0 0,
      XdgStableSurfaceBuilder 12 5 20 6, SubsurfaceBuilder (0, 0), SubsurfaceBuilder (7, 12)]"

definition toplevel_surface_types :: "surface_builder list" where
  "toplevel_surface_types = [WlShellSurfaceBuilder, XdgV6SurfaceBuilder, XdgStableSurfaceBuilder 0 0 0 0]"

section \<open>Building\<close>

type_synonym ('v, 'p, 's) build =
  "'v sclient \<times> ('p \<times> 's) \<Rightarrow> (unit result \<times> ('v sclient \<times> ('p \<times> 's))) option"

text \<open>A step of the client alone, and what follows it; \<open>unwind\<close> is what an exception destroys.\<close>

definition on_client ::
    "(unit result \<times> 'v sclient) option \<Rightarrow> ('v sclient \<Rightarrow> 'v sclient) \<Rightarrow> 'p \<times> 's \<Rightarrow> ('v, 'p, 's) build \<Rightarrow>
     (unit result \<times> ('v sclient \<times> ('p \<times> 's))) option" where
  "on_client r unwind st continue =
     (case r of
        None \<Rightarrow> None
      | Some (Inl e, me) \<Rightarrow> Some (Inl e, (unwind me, st))
      | Some (Inr _, me) \<Rightarrow> continue (me, st))"

text \<open>
  \<^verbatim>\<open>Server::move_surface_to\<close>: the roundtrip of the client that owns the surface comes first.
  \<open>address\<close> gives the machine address of a Wayland object.
\<close>

definition place_window ::
    "'v surface_world libwayland \<Rightarrow> ('p, 't, 's) proxy_ops \<Rightarrow> (handle \<Rightarrow> nat) \<Rightarrow> ('t, 's) server_impl \<Rightarrow>
     ('v sclient \<Rightarrow> 'v sclient) \<Rightarrow> nat \<Rightarrow> int \<Rightarrow> int \<Rightarrow> ('v, 'p, 's) build" where
  "place_window lib ops address srv unwind a x y mst =
     (case mst of (me, st) \<Rightarrow>
        (case server_roundtrip lib me of
           (Inl e, me) \<Rightarrow> Some (Inl e, (unwind me, st))
         | (Inr _, me) \<Rightarrow>
             map_option (\<lambda>(r, st). (r, (case r of Inl e \<Rightarrow> unwind me | Inr _ \<Rightarrow> me, st)))
               (move_surface_to ops srv (\<lambda>st. Some (Inr (), st)) (address (display me)) (address (surface_of a me)) x y st)))"

text \<open>Sums and differences of \<^verbatim>\<open>int\<close>s, which must not overflow.\<close>

definition int_checked :: "int \<Rightarrow> int option" where
  "int_checked z = (if is_int z then Some z else None)"

definition overflow :: "('v, 'p, 's) build" where
  "overflow mst = Some (Inl (Undefined_behaviour ''signed overflow in a surface builder''), mst)"

definition build_wl_shell ::
    "'v surface_world libwayland \<Rightarrow> 'v surface_world sys \<Rightarrow> int \<Rightarrow> ('p, 't, 's) proxy_ops \<Rightarrow> (handle \<Rightarrow> nat) \<Rightarrow>
     ('t, 's) server_impl \<Rightarrow> nat \<Rightarrow> int \<times> int \<Rightarrow> int \<times> int \<Rightarrow> ('v, 'p, 's) build" where
  "build_wl_shell lib sys long_time ops address srv a position extent mst =
     on_client (create_wl_shell_surface lib sys long_time a (fst extent) (snd extent) (fst mst)) id (snd mst)
       (place_window lib ops address srv (surface_destructor a) a (fst position) (snd position))"

definition build_xdg_v6 ::
    "'v surface_world libwayland \<Rightarrow> 'v surface_world sys \<Rightarrow> int \<Rightarrow> ('p, 't, 's) proxy_ops \<Rightarrow> (handle \<Rightarrow> nat) \<Rightarrow>
     ('t, 's) server_impl \<Rightarrow> nat \<Rightarrow> int \<times> int \<Rightarrow> int \<times> int \<Rightarrow> ('v, 'p, 's) build" where
  "build_xdg_v6 lib sys long_time ops address srv a position extent mst =
     on_client (create_xdg_shell_v6_surface lib sys long_time a (fst extent) (snd extent) (fst mst)) id (snd mst)
       (place_window lib ops address srv (surface_destructor a) a (fst position) (snd position))"

text \<open>
  The stable builder makes the objects itself: it sets the window geometry and shows a buffer
  without waiting for a configure event. Until the objects are handed to the surface, an exception
  destroys them as local variables, the toplevel first.
\<close>

definition destroy_locals :: "nat \<Rightarrow> handle \<Rightarrow> handle \<Rightarrow> 'v sclient \<Rightarrow> 'v sclient" where
  "destroy_locals a xdg_surface xdg_toplevel me =
     surface_destructor a (do_call (Destroy ''xdg_surface'' xdg_surface) (do_call (Destroy ''xdg_toplevel'' xdg_toplevel) me))"

definition show_xdg_stable ::
    "'v surface_world libwayland \<Rightarrow> 'v surface_world sys \<Rightarrow> int \<Rightarrow> ('p, 't, 's) proxy_ops \<Rightarrow> (handle \<Rightarrow> nat) \<Rightarrow>
     ('t, 's) server_impl \<Rightarrow> nat \<Rightarrow> handle \<Rightarrow> handle \<Rightarrow> int list \<Rightarrow> int \<times> int \<Rightarrow> int \<Rightarrow> int \<Rightarrow> ('v, 'p, 's) build" where
  "show_xdg_stable lib sys long_time ops address srv a xdg_surface xdg_toplevel geometry extent x y mst =
     (let me = do_call (Request ''xdg_surface_set_window_geometry'' [xdg_surface] geometry) (fst mst) in
      on_client (attach_visible_buffer lib sys long_time a (fst extent) (snd extent) me)
        (destroy_locals a xdg_surface xdg_toplevel) (snd mst)
        (\<lambda>(me, st). place_window lib ops address srv (surface_destructor a) a x y
           (surface_run_on_destruction a (destroy_xdg ''xdg_surface'' ''xdg_toplevel'' xdg_surface xdg_toplevel) me, st)))"

definition build_xdg_stable ::
    "'v surface_world libwayland \<Rightarrow> 'v surface_world sys \<Rightarrow> int \<Rightarrow> ('p, 't, 's) proxy_ops \<Rightarrow> (handle \<Rightarrow> nat) \<Rightarrow>
     ('t, 's) server_impl \<Rightarrow> int \<Rightarrow> int \<Rightarrow> int \<Rightarrow> int \<Rightarrow> nat \<Rightarrow> int \<times> int \<Rightarrow> int \<times> int \<Rightarrow> ('v, 'p, 's) build" where
  "build_xdg_stable lib sys long_time ops address srv left_offset top_offset right_offset bottom_offset a position extent mst =
     (case xdg_surface_stable_ctor lib a (surface_ctor lib a (fst mst)) of
        (Inl e, me) \<Rightarrow> Some (Inl e, (surface_destructor a me, snd mst))
      | (Inr xdg_surface, me) \<Rightarrow>
          (case xdg_toplevel_ctor lib ''xdg_toplevel'' xdg_surface me of (xdg_toplevel, me) \<Rightarrow>
             (case (int_checked (fst extent - left_offset), int_checked (fst extent - left_offset - right_offset),
                    int_checked (snd extent - bottom_offset), int_checked (snd extent - bottom_offset - top_offset)) of
                (Some _, Some gw, Some _, Some gh) \<Rightarrow>
                  (case (int_checked (fst position + left_offset), int_checked (snd position + top_offset)) of
                     (Some x, Some y) \<Rightarrow>
                       show_xdg_stable lib sys long_time ops address srv a xdg_surface xdg_toplevel [left_offset, top_offset, gw, gh]
                         extent x y (me, snd mst)
                   | _ \<Rightarrow> overflow mst)
              | _ \<Rightarrow> overflow mst)))"

text \<open>
  The subsurface builder makes a main surface of 80 by 50 and gives it to the client, which destroys
  it at its end.
\<close>

definition reset_main_surface :: "nat \<Rightarrow> 'v surface_world callback" where
  "reset_main_surface main cw =
     (case cw of (cs, w) \<Rightarrow>
        (let me = surface_destructor main ((new_client None w)\<lparr>calls := cs\<rparr>) in (calls me, env me)))"

definition build_subsurface ::
    "'v surface_world libwayland \<Rightarrow> 'v surface_world sys \<Rightarrow> int \<Rightarrow> ('p, 't, 's) proxy_ops \<Rightarrow> (handle \<Rightarrow> nat) \<Rightarrow>
     ('t, 's) server_impl \<Rightarrow> int \<times> int \<Rightarrow> nat \<Rightarrow> nat \<Rightarrow> int \<times> int \<Rightarrow> int \<times> int \<Rightarrow> ('v, 'p, 's) build" where
  "build_subsurface lib sys long_time ops address srv offset main a position extent mst =
     on_client (create_visible_surface lib sys long_time main 80 50 (fst mst)) id (snd mst) (\<lambda>mst.
       case (int_checked (fst position - fst offset), int_checked (snd position - snd offset)) of
         (Some x, Some y) \<Rightarrow>
           (case place_window lib ops address srv (surface_destructor main) main x y mst of
              None \<Rightarrow> None
            | Some (Inl e, mst) \<Rightarrow> Some (Inl e, mst)
            | Some (Inr _, (me, st)) \<Rightarrow>
                on_client (create_visible lib sys long_time a main (fst offset) (snd offset) (fst extent) (snd extent)
                    (run_on_destruction (reset_main_surface main) me)) id st
                  (\<lambda>(me, st). Some (Inr (),
                     (do_call (Request ''wl_subsurface_set_desync''
                        [case impls (env me) a of None \<Rightarrow> nullptr | Some i \<Rightarrow> subsurface_handle i] []) me, st))))
       | _ \<Rightarrow> overflow mst)"

fun build ::
    "'v surface_world libwayland \<Rightarrow> 'v surface_world sys \<Rightarrow> int \<Rightarrow> ('p, 't, 's) proxy_ops \<Rightarrow> (handle \<Rightarrow> nat) \<Rightarrow>
     ('t, 's) server_impl \<Rightarrow> surface_builder \<Rightarrow> nat \<Rightarrow> nat \<Rightarrow> int \<times> int \<Rightarrow> int \<times> int \<Rightarrow> ('v, 'p, 's) build" where
  "build lib sys long_time ops address srv WlShellSurfaceBuilder main a position extent =
     build_wl_shell lib sys long_time ops address srv a position extent"
| "build lib sys long_time ops address srv XdgV6SurfaceBuilder main a position extent =
     build_xdg_v6 lib sys long_time ops address srv a position extent"
| "build lib sys long_time ops address srv (XdgStableSurfaceBuilder left_offset top_offset right_offset bottom_offset) main a position extent =
     build_xdg_stable lib sys long_time ops address srv left_offset top_offset right_offset bottom_offset a position extent"
| "build lib sys long_time ops address srv (SubsurfaceBuilder offset) main a position extent =
     build_subsurface lib sys long_time ops address srv offset main a position extent"

section \<open>Lemmas\<close>

text \<open>Where the window goes, and which surface it is.\<close>

fun window_position :: "surface_builder \<Rightarrow> int \<times> int \<Rightarrow> int \<times> int" where
  "window_position (XdgStableSurfaceBuilder left_offset top_offset right_offset bottom_offset) (x, y) = (x + left_offset, y + top_offset)"
| "window_position (SubsurfaceBuilder offset) (x, y) = (x - fst offset, y - snd offset)"
| "window_position b pos = pos"

fun window_surface :: "surface_builder \<Rightarrow> nat \<Rightarrow> nat \<Rightarrow> nat" where
  "window_surface (SubsurfaceBuilder offset) main a = main"
| "window_surface b main a = a"

definition placed ::
    "(handle \<Rightarrow> nat) \<Rightarrow> 's display_server \<Rightarrow> thread \<Rightarrow> nat \<Rightarrow> int \<times> int \<Rightarrow> 's \<Rightarrow> 's \<Rightarrow> 'v itself \<Rightarrow> bool" where
  "placed address srv th a pos s s' _ \<longleftrightarrow>
     (\<exists>me :: 'v sclient. s' = ds_position_window_absolute srv th (address (display me)) (address (surface_of a me)) (fst pos) (snd pos) s)"

lemma on_client_InrE:
  assumes "on_client r unwind st continue = Some (Inr u, mst')"
  obtains me where "continue (me, st) = Some (Inr u, mst')"
proof (cases r)
  case None
  with assms show thesis by (simp add: on_client_def)
next
  case (Some res)
  then show thesis
    using assms that by (cases res; cases "fst res") (auto simp: on_client_def)
qed

context proxy_contract
begin

lemma place_window_places:
  fixes me :: "'v sclient"
  assumes "room p k" and "server_ready p srv sd" and "\<And>h. address h < 2 ^ 64" and "is_int x" and "is_int y"
    and "place_window lib ops address srv unwind a x y (me, (p, s)) = Some (Inr u, (me', (p', s')))"
  shows "p' = p \<and> placed address sd runs_on a (x, y) s s' TYPE('v)"
proof -
  obtain r me1 where rt: "server_roundtrip lib me = (r, me1)" by fastforce
  with assms(6) have r: "r = Inr ()" by (cases r) (auto simp: place_window_def)
  have "move_surface_to ops srv (\<lambda>st. Some (Inr (), st)) (address (display me1)) (address (surface_of a me1)) x y (p, s) =
      Some (Inr (), (p, ds_position_window_absolute sd runs_on (address (display me1)) (address (surface_of a me1)) x y s))"
    using server_calls(3) [OF assms(1,2,4,5) assms(3) assms(3)] by (simp add: move_surface_to_def pthen_def)
  with assms(6) rt r show ?thesis by (auto simp: place_window_def placed_def)
qed

end

text \<open>What every builder does to the server: nothing, or the one placement.\<close>

context proxy_contract
begin

lemma build_places:
  fixes mst :: "'v sclient \<times> ('p \<times> 's)"
  assumes "room p k" and "server_ready p srv sd" and address: "\<And>h. address h < 2 ^ 64"
    and "is_int (fst position)" and "is_int (snd position)" and "snd mst = (p, s)"
    and "build lib sys long_time ops address srv b main a position extent mst = Some (Inr u, (me', (p', s')))"
  shows "p' = p \<and> placed address sd runs_on (window_surface b main a) (window_position b position) s s' TYPE('v)"
proof (cases b)
  case WlShellSurfaceBuilder
  with assms(7) obtain me where
    "place_window lib ops address srv (surface_destructor a) a (fst position) (snd position) (me, (p, s)) = Some (Inr u, (me', (p', s')))"
    by (auto simp: build_wl_shell_def assms(6) elim!: on_client_InrE)
  with place_window_places [OF assms(1,2) address assms(4,5)] WlShellSurfaceBuilder show ?thesis by simp
next
  case XdgV6SurfaceBuilder
  with assms(7) obtain me where
    "place_window lib ops address srv (surface_destructor a) a (fst position) (snd position) (me, (p, s)) = Some (Inr u, (me', (p', s')))"
    by (auto simp: build_xdg_v6_def assms(6) elim!: on_client_InrE)
  with place_window_places [OF assms(1,2) address assms(4,5)] XdgV6SurfaceBuilder show ?thesis by simp
next
  case (XdgStableSurfaceBuilder l t r bo)
  let ?x = "fst position + l" and ?y = "snd position + t"
  obtain me where ok: "is_int ?x" "is_int ?y" and
    "place_window lib ops address srv (surface_destructor a) a ?x ?y (me, (p, s)) = Some (Inr u, (me', (p', s')))"
    using assms(7) unfolding XdgStableSurfaceBuilder build.simps build_xdg_stable_def show_xdg_stable_def Let_def int_checked_def overflow_def
    by (auto simp: assms(6) split: prod.splits sum.splits if_splits elim!: on_client_InrE)
  with place_window_places [OF assms(1,2) address ok] XdgStableSurfaceBuilder show ?thesis
    by (cases position) simp
next
  case (SubsurfaceBuilder offset)
  let ?x = "fst position - fst offset" and ?y = "snd position - snd offset"
  obtain me1 me2 p2 s2 u2 where ok: "is_int ?x" "is_int ?y" and
    place: "place_window lib ops address srv (surface_destructor main) main ?x ?y (me1, (p, s)) = Some (Inr u2, (me2, (p2, s2)))"
    and same: "p' = p2" "s' = s2"
    using assms(7) unfolding SubsurfaceBuilder build.simps build_subsurface_def int_checked_def overflow_def
    by (auto simp: assms(6) split: option.splits prod.splits sum.splits if_splits elim!: on_client_InrE)
  with place_window_places [OF assms(1,2) address ok place] SubsurfaceBuilder show ?thesis
    by (cases position) simp
qed

end

section \<open>Properties\<close>


definition shell_client :: "nat sclient" where
  "shell_client = (new_client None empty_world)\<lparr>shell := Some 9\<rparr>"

lemma build_example:
  "\<exists>me'. build s_lib s_sys 10 test_any (\<lambda>h. 0) (fst test_server) WlShellSurfaceBuilder 0 7 (3, 4) (2, 2)
     (shell_client, (snd test_server, [])) = Some (Inr (), (me', (snd test_server, [(''position'', Event_loop)])))"
proof -
  have "shell (surface_ctor s_lib 7 shell_client) = Some 9"
    by (simp add: surface_ctor_def call_new_def do_call_def upd_world_def shell_client_def)
  then obtain me1 where 1: "create_wl_shell_surface s_lib s_sys 10 7 2 2 shell_client = Some (Inr (), me1)"
    using attach_visible_example
    by (fastforce simp: create_wl_shell_surface_def the_shell_def Let_def or_destroy_def call_new_def)
  obtain room has where contract: "proxy_contract test_any (request_thread log_server) room has"
    and room: "room (snd test_server) 1000" and ready: "proxy_contract.server_ready has (snd test_server) (fst test_server) log_server"
    using server_ctor_ready [OF perfect_os_reliable length_replicate log_server_ctor log_create] by blast
  have "move_surface_to test_any (fst test_server) (\<lambda>st. Some (Inr (), st)) 0 0 3 4 (snd test_server, []) =
      Some (Inr (), (snd test_server, [(''position'', Event_loop)]))"
    using proxy_contract.server_calls(3) [OF contract room ready, of 3 4 0 0 "[]"]
    by (simp add: move_surface_to_def pthen_def is_int_def)
  moreover have "server_roundtrip s_lib me1 = (Inr (), me1)"
    by (simp add: server_roundtrip_def ok_lib_def)
  ultimately show ?thesis
    by (simp add: build_wl_shell_def on_client_def 1 place_window_def)
qed


text \<open>
  The names under which the test framework lists the builders are usable as such: within
  each of the two lists they are different from each other, not empty, and made of letters, digits
  and underscores only.
\<close>

theorem builder_names_are_valid:
  "distinct (map builder_name all_surface_types) \<and> set toplevel_surface_types \<subseteq> set all_surface_types \<and>
   list_all (\<lambda>b. builder_name b \<noteq> [] \<and>
     list_all (\<lambda>c. c \<in> set ''abcdefghijklmnopqrstuvwxyz0123456789_'') (builder_name b)) all_surface_types"
  by (simp add: all_surface_types_def toplevel_surface_types_def int_to_string_def nat_to_string.simps)

end
