(* ===== verification/Surface_Objects.thy ===== *)
theory Surface_Objects
  imports Surfaces
begin

text \<open>
  The classes \<^verbatim>\<open>Surface\<close> and \<^verbatim>\<open>Subsurface\<close> as a test sees them (\<^verbatim>\<open>src/in_process_server.cpp\<close>,
  \<^verbatim>\<open>include/in_process_server.h\<close>): objects at addresses, each with a \<^verbatim>\<open>std::unique_ptr\<close> to its
  \<^verbatim>\<open>Impl\<close>, which a move takes away. The theory \<open>Surfaces\<close> models the \<^verbatim>\<open>Impl\<close>s; it names the parent of
  a subsurface by its \<^verbatim>\<open>Impl\<close>, whereas the code keeps a reference to the parent \<^emph>\<open>object\<close>. Here the
  reference is explicit, and the two views are related.
\<close>

section \<open>State\<close>

text \<open>
  An object: its class, the \<^verbatim>\<open>Surface::Impl\<close> it owns (none after it was moved from), and the member
  \<^verbatim>\<open>parent_\<close> of the \<^verbatim>\<open>Subsurface::Impl\<close> it owns, the address of an object.
\<close>

record surface_object =
  is_subsurface :: bool
  obj_impl :: "nat option"
  obj_parent :: "nat option"

record 'v object_state =
  objects :: "nat \<rightharpoonup> surface_object"
  the_client :: "'v sclient"

section \<open>Operations\<close>

definition null_impl :: exn where
  "null_impl = Undefined_behaviour ''null impl''"

text \<open>\<^verbatim>\<open>impl->\<close> in a method of the object \<open>this\<close>.\<close>

definition impl_of :: "nat \<Rightarrow> 'v object_state \<Rightarrow> nat result" where
  "impl_of this st =
     (case objects st this of
        None \<Rightarrow> Inl (Undefined_behaviour ''no object'')
      | Some ob \<Rightarrow> (case obj_impl ob of None \<Rightarrow> Inl null_impl | Some a \<Rightarrow> Inr a))"

definition via_impl ::
    "nat \<Rightarrow> (nat \<Rightarrow> ('v sclient, 'a) eff) \<Rightarrow> ('v object_state, 'a) eff" where
  "via_impl this f st =
     (case impl_of this st of
        Inl e \<Rightarrow> (Inl e, st)
      | Inr a \<Rightarrow> (case f a (the_client st) of (r, me) \<Rightarrow> (r, st\<lparr>the_client := me\<rparr>)))"

text \<open>The same for a method that may wait for ever.\<close>

definition via_impl_waiting ::
    "nat \<Rightarrow> (nat \<Rightarrow> 'v sclient \<Rightarrow> ('a result \<times> 'v sclient) option) \<Rightarrow> 'v object_state \<Rightarrow>
     ('a result \<times> 'v object_state) option" where
  "via_impl_waiting this f st =
     (case impl_of this st of
        Inl e \<Rightarrow> Some (Inl e, st)
      | Inr a \<Rightarrow> map_option (\<lambda>(r, me). (r, st\<lparr>the_client := me\<rparr>)) (f a (the_client st)))"

definition Surface :: "'v surface_world libwayland \<Rightarrow> nat \<Rightarrow> nat \<Rightarrow> 'v object_state \<Rightarrow> 'v object_state" where
  "Surface lib this a st =
     st\<lparr>objects := (objects st)(this \<mapsto> \<lparr>is_subsurface = False, obj_impl = Some a, obj_parent = None\<rparr>),
        the_client := surface_ctor lib a (the_client st)\<rparr>"

text \<open>The move constructors; a member that is a \<^verbatim>\<open>unique_ptr\<close> is null after a move.\<close>

definition Surface_move :: "nat \<Rightarrow> nat \<Rightarrow> ('v object_state, unit) eff" where
  "Surface_move this other st =
     (case objects st other of
        None \<Rightarrow> (Inl (Undefined_behaviour ''no object''), st)
      | Some ob \<Rightarrow>
          (Inr (), st\<lparr>objects := (objects st)
             (other \<mapsto> ob\<lparr>obj_impl := None, obj_parent := None\<rparr>, this \<mapsto> ob)\<rparr>))"

definition Surface_destructor :: "nat \<Rightarrow> ('v object_state, unit) eff" where
  "Surface_destructor this st =
     (case objects st this of
        None \<Rightarrow> (Inl (Undefined_behaviour ''no object''), st)
      | Some ob \<Rightarrow>
          (Inr (), st\<lparr>objects := (objects st)(this := None),
             the_client :=
               (case obj_impl ob of
                  None \<Rightarrow> the_client st
                | Some a \<Rightarrow> (if is_subsurface ob then subsurface_destructor a else surface_destructor a) (the_client st))\<rparr>))"

definition Surface_wl_surface :: "nat \<Rightarrow> ('v object_state, handle) eff" where
  "Surface_wl_surface this = via_impl this (\<lambda>a me. (Inr (surface_of a me), me))"

definition Surface_attach_buffer ::
    "'v surface_world libwayland \<Rightarrow> 'v surface_world sys \<Rightarrow> nat \<Rightarrow> int \<Rightarrow> int \<Rightarrow> ('v object_state, unit) eff" where
  "Surface_attach_buffer lib sys this width height = via_impl this (\<lambda>a. attach_buffer lib sys a width height)"

definition Surface_add_frame_callback ::
    "'v surface_world libwayland \<Rightarrow> nat \<Rightarrow> 'v frame_closure \<Rightarrow> ('v object_state, unit) eff" where
  "Surface_add_frame_callback lib this on_frame =
     via_impl this (\<lambda>a me. (Inr (), add_frame_callback lib a on_frame me))"

definition Surface_attach_visible_buffer ::
    "'v surface_world libwayland \<Rightarrow> 'v surface_world sys \<Rightarrow> int \<Rightarrow> nat \<Rightarrow> int \<Rightarrow> int \<Rightarrow> 'v object_state \<Rightarrow>
     (unit result \<times> 'v object_state) option" where
  "Surface_attach_visible_buffer lib sys long_time this width height =
     via_impl_waiting this (\<lambda>a. attach_visible_buffer lib sys long_time a width height)"

definition Surface_run_on_destruction :: "nat \<Rightarrow> 'v callback \<Rightarrow> ('v object_state, unit) eff" where
  "Surface_run_on_destruction this callback =
     via_impl this (\<lambda>a me. (Inr (), surface_run_on_destruction a callback me))"

definition Surface_current_outputs :: "nat \<Rightarrow> ('v object_state, handle list) eff" where
  "Surface_current_outputs this =
     via_impl this (\<lambda>a me. (Inr (case impls (env me) a of None \<Rightarrow> [] | Some i \<Rightarrow> surf_outputs i), me))"

text \<open>
  The listener of a surface, whose user data is the \<^verbatim>\<open>Impl\<close>; the preferences of the compositor are
  ignored.
\<close>

datatype surface_event = Surf_enter handle | Surf_leave handle | Preferred_scale int | Preferred_transform u32

fun surface_listener :: "(handle \<Rightarrow> u32) \<Rightarrow> surface_event \<Rightarrow> ('v surface_impl, unit) eff" where
  "surface_listener proxy_id (Surf_enter output) self = on_enter proxy_id output self"
| "surface_listener proxy_id (Surf_leave output) self = on_leave proxy_id output self"
| "surface_listener proxy_id (Preferred_scale factor) self = (Inr (), self)"
| "surface_listener proxy_id (Preferred_transform transform) self = (Inr (), self)"

fun surface_events :: "(handle \<Rightarrow> u32) \<Rightarrow> surface_event list \<Rightarrow> ('v surface_impl, unit) eff" where
  "surface_events proxy_id [] self = (Inr (), self)"
| "surface_events proxy_id (e # es) self = bindE (surface_listener proxy_id e) (\<lambda>_. surface_events proxy_id es) self"

text \<open>\<^verbatim>\<open>Subsurface(Surface& parent)\<close> asks the parent for its client first.\<close>

definition Subsurface ::
    "'v surface_world libwayland \<Rightarrow> nat \<Rightarrow> nat \<Rightarrow> nat \<Rightarrow> ('v object_state, unit) eff" where
  "Subsurface lib this a parent st =
     (case impl_of parent st of
        Inl e \<Rightarrow> (Inl e, st)
      | Inr pa \<Rightarrow>
          (Inr (), st\<lparr>objects := (objects st)(this \<mapsto> \<lparr>is_subsurface = True, obj_impl = Some a, obj_parent = Some parent\<rparr>),
                      the_client := subsurface_ctor lib a pa (the_client st)\<rparr>))"

definition Subsurface_parent :: "nat \<Rightarrow> 'v object_state \<Rightarrow> nat result" where
  "Subsurface_parent this st =
     (case objects st this of
        None \<Rightarrow> Inl (Undefined_behaviour ''no object'')
      | Some ob \<Rightarrow> (case obj_parent ob of None \<Rightarrow> Inl null_impl | Some p \<Rightarrow> Inr p))"

text \<open>
  The loop of \<^verbatim>\<open>create_visible\<close> as it is written: over objects, with a \<^verbatim>\<open>dynamic_cast\<close> that tells
  whether an object is a subsurface.
\<close>

partial_function (option) commit_objects ::
    "nat \<Rightarrow> 'v object_state \<Rightarrow> (unit result \<times> 'v object_state) option" where
  "commit_objects surface_ptr st =
     (case impl_of surface_ptr st of
        Inl e \<Rightarrow> Some (Inl e, st)
      | Inr a \<Rightarrow>
          (let st = st\<lparr>the_client := do_call (Commit (surface_of a (the_client st))) (the_client st)\<rparr> in
           if is_subsurface (the (objects st surface_ptr))
           then (case Subsurface_parent surface_ptr st of
                   Inl e \<Rightarrow> Some (Inl e, st)
                 | Inr p \<Rightarrow> commit_objects p st)
           else Some (Inr (), st)))"

section \<open>Ownership\<close>

text \<open>
  The invariant. Every \<^verbatim>\<open>Impl\<close> is owned by exactly one object; a subsurface that owns an \<^verbatim>\<open>Impl\<close>
  refers to a parent object that owns the \<^verbatim>\<open>Impl\<close> the subsurface was made with; and the ancestry of
  the \<^verbatim>\<open>Impl\<close>s has no cycle, as some ranking shows.
\<close>

definition owns :: "'v object_state \<Rightarrow> nat \<Rightarrow> nat \<Rightarrow> bool" where
  "owns st o1 a \<longleftrightarrow> (\<exists>ob. objects st o1 = Some ob \<and> obj_impl ob = Some a)"

definition linked :: "'v object_state \<Rightarrow> surface_object \<Rightarrow> nat \<Rightarrow> bool" where
  "linked st ob a \<longleftrightarrow>
     (if is_subsurface ob
      then \<exists>p b. obj_parent ob = Some p \<and> owns st p b \<and> parent_of (the_client st) a = Some b
      else parent_of (the_client st) a = None)"

definition objects_ok :: "'v object_state \<Rightarrow> bool" where
  "objects_ok st \<longleftrightarrow>
     (\<forall>a. impls (env (the_client st)) a \<noteq> None \<longleftrightarrow> (\<exists>o1. owns st o1 a)) \<and>
     (\<forall>o1 o2 a. owns st o1 a \<longrightarrow> owns st o2 a \<longrightarrow> o1 = o2) \<and>
     (\<forall>o1 ob a. objects st o1 = Some ob \<longrightarrow> obj_impl ob = Some a \<longrightarrow> linked st ob a) \<and>
     (\<exists>rank :: nat \<Rightarrow> nat. \<forall>a b. parent_of (the_client st) a = Some b \<longrightarrow> rank b < rank a)"

text \<open>An object that a live subsurface refers to.\<close>

definition is_parent :: "'v object_state \<Rightarrow> nat \<Rightarrow> bool" where
  "is_parent st p \<longleftrightarrow> (\<exists>o1 ob. objects st o1 = Some ob \<and> obj_impl ob \<noteq> None \<and> obj_parent ob = Some p)"

text \<open>
  Histories: objects are made at fresh addresses, moved and destroyed unless a live subsurface
  refers to them, and otherwise used in ways that keep the \<^verbatim>\<open>Impl\<close>s and their parents.
\<close>

inductive object_history :: "'v surface_world libwayland \<Rightarrow> 'v object_state \<Rightarrow> bool" for lib where
  start: "objects st = Map.empty \<Longrightarrow> impls (env (the_client st)) = Map.empty \<Longrightarrow> object_history lib st"
| make: "object_history lib st \<Longrightarrow> objects st this = None \<Longrightarrow> impls (env (the_client st)) a = None \<Longrightarrow>
    object_history lib (Surface lib this a st)"
| make_sub: "object_history lib st \<Longrightarrow> objects st this = None \<Longrightarrow> impls (env (the_client st)) a = None \<Longrightarrow>
    Subsurface lib this a parent st = (Inr (), st') \<Longrightarrow> object_history lib st'"
| move: "object_history lib st \<Longrightarrow> objects st this = None \<Longrightarrow> \<not> is_parent st other \<Longrightarrow>
    Surface_move this other st = (Inr (), st') \<Longrightarrow> object_history lib st'"
| destroy: "object_history lib st \<Longrightarrow> \<not> is_parent st this \<Longrightarrow>
    Surface_destructor this st = (Inr (), st') \<Longrightarrow> object_history lib st'"
| use: "object_history lib st \<Longrightarrow> dom (impls (env me)) = dom (impls (env (the_client st))) \<Longrightarrow>
    parent_of me = parent_of (the_client st) \<Longrightarrow> object_history lib (st\<lparr>the_client := me\<rparr>)"

section \<open>Lemmas\<close>

lemma objects_okI:
  assumes "\<And>a. impls (env (the_client st)) a \<noteq> None \<longleftrightarrow> (\<exists>o1. owns st o1 a)"
    and "\<And>o1 o2 a. owns st o1 a \<Longrightarrow> owns st o2 a \<Longrightarrow> o1 = o2"
    and "\<And>o1 ob a. objects st o1 = Some ob \<Longrightarrow> obj_impl ob = Some a \<Longrightarrow> linked st ob a"
    and "\<And>a b. parent_of (the_client st) a = Some b \<Longrightarrow> (rank :: nat \<Rightarrow> nat) b < rank a"
  shows "objects_ok st"
  unfolding objects_ok_def using assms by blast

lemma objects_okD:
  assumes "objects_ok st"
  shows "impls (env (the_client st)) a \<noteq> None \<longleftrightarrow> (\<exists>o1. owns st o1 a)"
    and "owns st o1 a \<Longrightarrow> owns st o2 a \<Longrightarrow> o1 = o2"
    and "objects st o1 = Some ob \<Longrightarrow> obj_impl ob = Some a \<Longrightarrow> linked st ob a"
    and "\<exists>rank :: nat \<Rightarrow> nat. \<forall>a b. parent_of (the_client st) a = Some b \<longrightarrow> rank b < rank a"
  using assms unfolding objects_ok_def by blast+

text \<open>
  The outputs of a surface: a sequence of events is accepted exactly when every output is entered
  only while the surface is not on it and left only while it is, and then the surface is on the
  outputs that were entered and not left since, each listed once.
\<close>

fun outputs_after :: "surface_event list \<Rightarrow> handle set \<Rightarrow> handle set option" where
  "outputs_after [] s = Some s"
| "outputs_after (Surf_enter out # es) s = (if out \<in> s then None else outputs_after es (insert out s))"
| "outputs_after (Surf_leave out # es) s = (if out \<in> s then outputs_after es (s - {out}) else None)"
| "outputs_after (_ # es) s = outputs_after es s"

lemma surface_outputs_follow_events:
  assumes "distinct (surf_outputs self)"
  shows "case surface_events proxy_id es self of
      (Inr _, self') \<Rightarrow> outputs_after es (set (surf_outputs self)) = Some (set (surf_outputs self')) \<and> distinct (surf_outputs self')
    | (Inl e, _) \<Rightarrow> outputs_after es (set (surf_outputs self)) = None \<and> (\<exists>m. e = Runtime_error m)"
  using assms
proof (induction es arbitrary: self)
  case (Cons e es)
  show ?case
  proof (cases e)
    case (Surf_enter out)
    with Cons.prems Cons.IH [of "self\<lparr>surf_outputs := surf_outputs self @ [out]\<rparr>"] show ?thesis
      by (auto simp: bindE_def on_enter_def split: sum.splits)
  next
    case (Surf_leave out)
    with Cons.prems Cons.IH [of "self\<lparr>surf_outputs := removeAll out (surf_outputs self)\<rparr>"] show ?thesis
      by (auto simp: bindE_def on_leave_def distinct_removeAll split: sum.splits)
  qed (use Cons.IH [of self] Cons.prems in \<open>auto simp: bindE_def split: sum.splits\<close>)
qed simp

text \<open>What the operations on \<^verbatim>\<open>Impl\<close>s do to the set of \<^verbatim>\<open>Impl\<close>s and to the parents.\<close>

lemma surface_ctor_impls:
  "impls (env (surface_ctor lib a me)) b \<noteq> None \<longleftrightarrow> b = a \<or> impls (env me) b \<noteq> None"
  "parent_of (surface_ctor lib a me) = (parent_of me)(a := None)"
  by (auto simp: surface_ctor_def call_new_def parent_of_def)

lemma subsurface_ctor_impls:
  "impls (env (subsurface_ctor lib a p me)) b \<noteq> None \<longleftrightarrow> b = a \<or> impls (env me) b \<noteq> None"
  "parent_of (subsurface_ctor lib a p me) = (parent_of me)(a := Some p)"
  by (auto simp: subsurface_ctor_def surface_ctor_def call_new_def parent_of_def Let_def)

lemma fold_run_app_callback_impls: "impls (env (fold run_app_callback fs me)) = impls (env me)"
  by (induction fs arbitrary: me) (simp_all add: run_app_callback_def upd_world_def split: prod.split)

lemma surface_destructor_impls: "impls (env (surface_destructor a me)) = (impls (env me))(a := None)"
  by (simp add: surface_destructor_def destroy_pending_eq Let_def fold_run_app_callback_impls split: option.split)

lemma subsurface_destructor_impls: "impls (env (subsurface_destructor a me)) = (impls (env me))(a := None)"
  by (simp add: subsurface_destructor_def surface_destructor_impls split: option.split)

lemma parent_of_impls: "impls (env me') = (impls (env me))(a := None) \<Longrightarrow> parent_of me' = (parent_of me)(a := None)"
  by (rule ext) (simp add: parent_of_def)

text \<open>Links survive when the parents of the objects concerned keep their \<^verbatim>\<open>Impl\<close>s.\<close>

lemma linked_mono:
  assumes "linked st ob a" and "parent_of (the_client st') a = parent_of (the_client st) a"
    and "\<And>p b. obj_parent ob = Some p \<Longrightarrow> owns st p b \<Longrightarrow> owns st' p b"
  shows "linked st' ob a"
  using assms unfolding linked_def by (auto split: if_splits)

lemma fresh_is_no_parent:
  assumes "objects_ok st" and "impls (env (the_client st)) a = None"
  shows "parent_of (the_client st) b \<noteq> Some a" and "\<not> owns st o1 a"
proof -
  show no: "\<not> owns st o1 a" for o1 using objects_okD(1) [OF assms(1), of a] assms(2) by blast
  show "parent_of (the_client st) b \<noteq> Some a"
  proof
    assume p: "parent_of (the_client st) b = Some a"
    then have "impls (env (the_client st)) b \<noteq> None" by (auto simp: parent_of_def split: option.splits)
    then obtain o2 ob where o2: "objects st o2 = Some ob" "obj_impl ob = Some b"
      using objects_okD(1) [OF assms(1), of b] by (auto simp: owns_def)
    from objects_okD(3) [OF assms(1) o2] p no show False by (auto simp: linked_def split: if_splits)
  qed
qed

lemma objects_ok_new:
  assumes ok: "objects_ok st" and absent: "objects st this = None" and a: "impls (env (the_client st)) a = None"
    and objs: "objects st' = (objects st)(this \<mapsto> ob)" and impl: "obj_impl ob = Some a"
    and dom: "\<And>b. impls (env (the_client st')) b \<noteq> None \<longleftrightarrow> b = a \<or> impls (env (the_client st)) b \<noteq> None"
    and par: "parent_of (the_client st') = (parent_of (the_client st))(a := pa)"
    and new: "linked st' ob a" and pa: "\<And>b. pa = Some b \<Longrightarrow> b \<noteq> a"
  shows "objects_ok st'"
proof -
  note fresh = fresh_is_no_parent [OF ok a]
  have owns: "owns st' o1 b \<longleftrightarrow> (if o1 = this then b = a else owns st o1 b)" for o1 b
    by (auto simp: owns_def objs impl)
  have notthis: "\<not> owns st this b" for b using absent by (simp add: owns_def)
  obtain rank :: "nat \<Rightarrow> nat" where rank: "\<And>c b. parent_of (the_client st) c = Some b \<Longrightarrow> rank b < rank c"
    using objects_okD(4) [OF ok] by blast
  let ?rank = "rank(a := case pa of None \<Rightarrow> 0 | Some b \<Rightarrow> rank b + 1)"
  show ?thesis
  proof (rule objects_okI [where rank = ?rank])
    fix b
    show "impls (env (the_client st')) b \<noteq> None \<longleftrightarrow> (\<exists>o1. owns st' o1 b)"
      using dom [of b] objects_okD(1) [OF ok, of b] notthis [of b] by (auto simp: owns)
  next
    fix o1 o2 b assume "owns st' o1 b" "owns st' o2 b"
    then show "o1 = o2" using objects_okD(2) [OF ok] fresh(2) by (auto simp: owns split: if_splits)
  next
    fix o1 ob1 b assume ob1: "objects st' o1 = Some ob1" "obj_impl ob1 = Some b"
    show "linked st' ob1 b"
    proof (cases "o1 = this")
      case True
      with ob1 new impl show ?thesis by (simp add: objs)
    next
      case False
      then have l: "linked st ob1 b" and "owns st o1 b" using objects_okD(3) [OF ok, of o1 ob1 b] ob1 by (auto simp: objs owns_def)
      then have "b \<noteq> a" using fresh(2) by auto
      with l show ?thesis by (intro linked_mono [OF l]) (auto simp: par owns notthis)
    qed
  next
    fix c b assume c: "parent_of (the_client st') c = Some b"
    show "?rank b < ?rank c"
    proof (cases "c = a")
      case True
      with c pa [of b] show ?thesis by (auto simp: par)
    next
      case False
      with c fresh(1) [of c] have "b \<noteq> a" and "parent_of (the_client st) c = Some b" by (auto simp: par)
      with rank False show ?thesis by simp
    qed
  qed
qed

lemma no_parentD:
  "\<not> is_parent st p \<Longrightarrow> objects st o1 = Some ob \<Longrightarrow> obj_impl ob = Some a \<Longrightarrow> obj_parent ob \<noteq> Some p"
  unfolding is_parent_def by blast

text \<open>Using the objects in ways that keep the \<^verbatim>\<open>Impl\<close>s and their parents.\<close>

lemma owns_client [simp]: "owns (st\<lparr>the_client := me\<rparr>) = owns st"
  by (intro ext) (simp add: owns_def)

lemma objects_ok_client:
  assumes "objects_ok st" and "dom (impls (env me)) = dom (impls (env (the_client st)))"
    and "parent_of me = parent_of (the_client st)"
  shows "objects_ok (st\<lparr>the_client := me\<rparr>)"
proof -
  have "impls (env me) a \<noteq> None \<longleftrightarrow> impls (env (the_client st)) a \<noteq> None" for a
    using assms(2) by (metis domIff)
  moreover have "linked (st\<lparr>the_client := me\<rparr>) = linked st" by (intro ext) (simp add: linked_def assms(3))
  ultimately show ?thesis using assms(1) by (simp add: objects_ok_def assms(3))
qed

lemma objects_ok_move:
  assumes ok: "objects_ok st" and absent: "objects st this = None" and np: "\<not> is_parent st other"
    and run: "Surface_move this other st = (Inr (), st')"
  shows "objects_ok st'"
proof -
  from run obtain ob where ob: "objects st other = Some ob"
    and objs: "objects st' = (objects st)(other \<mapsto> ob\<lparr>obj_impl := None, obj_parent := None\<rparr>, this \<mapsto> ob)"
    and cl: "the_client st' = the_client st"
    by (auto simp: Surface_move_def split: option.splits)
  have neq: "this \<noteq> other" using absent ob by auto
  have owns: "owns st' o1 a \<longleftrightarrow> (if o1 = this then owns st other a else o1 \<noteq> other \<and> owns st o1 a)" for o1 a
    using ob neq by (auto simp: owns_def objs)
  have notthis: "\<not> owns st this b" for b using absent by (simp add: owns_def)
  obtain rank :: "nat \<Rightarrow> nat" where rank: "\<And>c b. parent_of (the_client st) c = Some b \<Longrightarrow> rank b < rank c"
    using objects_okD(4) [OF ok] by blast
  show ?thesis
  proof (rule objects_okI [where rank = rank])
    fix b
    show "impls (env (the_client st')) b \<noteq> None \<longleftrightarrow> (\<exists>o1. owns st' o1 b)"
      using objects_okD(1) [OF ok, of b] notthis [of b] unfolding cl owns by metis
  next
    fix o1 o2 b assume "owns st' o1 b" "owns st' o2 b"
    then show "o1 = o2" using objects_okD(2) [OF ok] by (auto simp: owns split: if_splits)
  next
    fix o1 ob1 b assume ob1: "objects st' o1 = Some ob1" "obj_impl ob1 = Some b"
    define o2 where "o2 = (if o1 = this then other else o1)"
    have o2: "objects st o2 = Some ob1" using ob1 ob by (auto simp: objs o2_def split: if_splits)
    show "linked st' ob1 b"
      using objects_okD(3) [OF ok o2 ob1(2)] no_parentD [OF np o2 ob1(2)] notthis
      by (auto simp: linked_def cl owns split: if_splits)
  qed (use rank in \<open>simp add: cl\<close>)
qed

lemma objects_ok_destroy:
  assumes ok: "objects_ok st" and np: "\<not> is_parent st this"
    and run: "Surface_destructor this st = (Inr (), st')"
  shows "objects_ok st'"
proof -
  from run obtain ob where ob: "objects st this = Some ob" and objs: "objects st' = (objects st)(this := None)"
    and cl: "the_client st' = (case obj_impl ob of None \<Rightarrow> the_client st
      | Some a \<Rightarrow> (if is_subsurface ob then subsurface_destructor a else surface_destructor a) (the_client st))"
    by (auto simp: Surface_destructor_def split: option.splits)
  have im: "impls (env (the_client st')) b = (if owns st this b then None else impls (env (the_client st)) b)" for b
    using ob by (auto simp: cl owns_def surface_destructor_impls subsurface_destructor_impls split: option.split)
  have par: "parent_of (the_client st') b = (if owns st this b then None else parent_of (the_client st) b)" for b
    by (simp add: parent_of_def im)
  have owns: "owns st' o1 a \<longleftrightarrow> o1 \<noteq> this \<and> owns st o1 a" for o1 a by (auto simp: owns_def objs)
  obtain rank :: "nat \<Rightarrow> nat" where rank: "\<And>c b. parent_of (the_client st) c = Some b \<Longrightarrow> rank b < rank c"
    using objects_okD(4) [OF ok] by blast
  show ?thesis
  proof (rule objects_okI [where rank = rank])
    fix b
    show "impls (env (the_client st')) b \<noteq> None \<longleftrightarrow> (\<exists>o1. owns st' o1 b)"
      using objects_okD(1) [OF ok, of b] objects_okD(2) [OF ok, of this b] by (auto simp: im owns)
  next
    fix o1 ob1 b assume ob1: "objects st' o1 = Some ob1" "obj_impl ob1 = Some b"
    then have o1: "o1 \<noteq> this" "objects st o1 = Some ob1" by (auto simp: objs split: if_splits)
    then have "\<not> owns st this b" using objects_okD(2) [OF ok, of this b o1] ob1(2) by (auto simp: owns_def)
    with objects_okD(3) [OF ok o1(2) ob1(2)] no_parentD [OF np o1(2) ob1(2)] show "linked st' ob1 b"
      by (auto simp: linked_def par owns split: if_splits)
  next
    fix c b assume "parent_of (the_client st') c = Some b"
    then show "rank b < rank c" using rank by (auto simp: par split: if_splits)
  qed (use objects_okD(2) [OF ok] owns in blast)
qed

lemma objects_ok_history: "object_history lib st \<Longrightarrow> objects_ok st"
proof (induction rule: object_history.induct)
  case (start st)
  then show ?case by (auto intro: objects_okI [where rank = id] simp: owns_def parent_of_def)
next
  case (make st this a)
  then show ?case
    by (intro objects_ok_new [OF make.IH, of this a _ "\<lparr>is_subsurface = False, obj_impl = Some a, obj_parent = None\<rparr>" None])
      (simp_all add: Surface_def surface_ctor_impls linked_def del: not_None_eq)
next
  case (make_sub st this a parent st')
  from make_sub.hyps(4) obtain pa where pa: "impl_of parent st = Inr pa"
    and st': "st' = st\<lparr>objects := (objects st)(this \<mapsto> \<lparr>is_subsurface = True, obj_impl = Some a, obj_parent = Some parent\<rparr>),
      the_client := subsurface_ctor lib a pa (the_client st)\<rparr>"
    by (auto simp: Subsurface_def split: sum.splits)
  from pa have own: "owns st parent pa" by (auto simp: impl_of_def owns_def split: option.splits)
  then have "parent \<noteq> this" using make_sub.hyps(2) by (auto simp: owns_def)
  then have own': "owns st' parent pa" using own by (simp add: st' owns_def)
  have "pa \<noteq> a" using own fresh_is_no_parent(2) [OF make_sub.IH make_sub.hyps(3)] by auto
  then show ?case
    by (intro objects_ok_new [OF make_sub.IH make_sub.hyps(2,3),
          of _ "\<lparr>is_subsurface = True, obj_impl = Some a, obj_parent = Some parent\<rparr>" "Some pa"])
      (use own' in \<open>simp_all add: st' subsurface_ctor_impls linked_def del: not_None_eq\<close>)
next
  case (move st this other st')
  from objects_ok_move [OF move.IH move.hyps(2,3,4)] show ?case .
next
  case (destroy st this st')
  from objects_ok_destroy [OF destroy.IH destroy.hyps(2,3)] show ?case .
next
  case (use st me)
  from objects_ok_client [OF use.IH use.hyps(2,3)] show ?case .
qed

text \<open>The loop over objects is the loop over their \<^verbatim>\<open>Impl\<close>s.\<close>

lemma commit_objects_refines:
  assumes "objects_ok st" and "owns st o1 a"
  shows "\<exists>me'. commit_chain a (the_client st) = Some me' \<and> commit_objects o1 st = Some (Inr (), st\<lparr>the_client := me'\<rparr>)"
proof -
  obtain rank :: "nat \<Rightarrow> nat" where rank: "\<And>c b. parent_of (the_client st) c = Some b \<Longrightarrow> rank b < rank c"
    using objects_okD(4) [OF assms(1)] by blast
  show ?thesis using assms rank
  proof (induction "rank a" arbitrary: a o1 st rule: less_induct)
    case less
    let ?me = "do_call (Commit (surface_of a (the_client st))) (the_client st)"
    let ?st = "st\<lparr>the_client := ?me\<rparr>"
    have par: "parent_of ?me = parent_of (the_client st)" by (rule ext) (simp add: parent_of_def)
    have ok: "objects_ok ?st" using objects_ok_client [OF less.prems(1) _ par] by simp
    from less.prems(2) obtain ob where ob: "objects st o1 = Some ob" "obj_impl ob = Some a" by (auto simp: owns_def)
    have link: "linked st ob a" using objects_okD(3) [OF less.prems(1) ob] .
    show ?case
    proof (cases "is_subsurface ob")
      case True
      with link obtain p b where pb: "obj_parent ob = Some p" "owns st p b" "parent_of (the_client st) a = Some b"
        by (auto simp: linked_def)
      obtain me' where "commit_chain b ?me = Some me'" "commit_objects p ?st = Some (Inr (), ?st\<lparr>the_client := me'\<rparr>)"
        using less.hyps [of b ?st p] ok pb less.prems(3) par by (auto simp: owns_def)
      then show ?thesis
        using ob pb True
        by (subst commit_objects.simps, subst commit_chain_step) (simp add: impl_of_def Let_def Subsurface_parent_def)
    next
      case False
      with link ob show ?thesis
        by (subst commit_objects.simps, subst commit_chain_step) (simp add: impl_of_def Let_def linked_def)
    qed
  qed
qed

text \<open>
  A chain of objects, each a subsurface with the next as its parent, up to one that is no subsurface;
  and the \<^verbatim>\<open>wl_surface\<close> of an object that owns an \<^verbatim>\<open>Impl\<close>.
\<close>

fun object_chain :: "'v object_state \<Rightarrow> nat list \<Rightarrow> bool" where
  "object_chain st [] \<longleftrightarrow> False"
| "object_chain st [p] \<longleftrightarrow> (\<exists>ob. objects st p = Some ob \<and> \<not> is_subsurface ob)"
| "object_chain st (p # q # ps) \<longleftrightarrow>
     (\<exists>ob. objects st p = Some ob \<and> is_subsurface ob \<and> obj_parent ob = Some q) \<and> object_chain st (q # ps)"

definition object_surface :: "'v object_state \<Rightarrow> nat \<Rightarrow> handle" where
  "object_surface st p =
     (case objects st p of
        None \<Rightarrow> nullptr
      | Some ob \<Rightarrow> (case obj_impl ob of None \<Rightarrow> nullptr | Some a \<Rightarrow> surface_of a (the_client st)))"

lemma object_chain_client [simp]: "object_chain (st\<lparr>the_client := me\<rparr>) ps = object_chain st ps"
  by (induction st ps rule: object_chain.induct) simp_all

lemma object_surface_call [simp]:
  "object_surface (st\<lparr>the_client := do_call c (the_client st)\<rparr>) = object_surface st"
  by (rule ext) (simp add: object_surface_def surface_of_def split: option.split)

lemma commit_objects_chain:
  assumes "objects_ok st" and "owns st o1 a"
    and "\<And>c b. parent_of (the_client st) c = Some b \<Longrightarrow> (rank :: nat \<Rightarrow> nat) b < rank c"
  shows "\<exists>os. object_chain st (o1 # os) \<and> distinct (o1 # os) \<and>
    (\<forall>p \<in> set (o1 # os). \<exists>b. owns st p b \<and> rank b \<le> rank a) \<and>
    commit_objects o1 st = Some (Inr (), st\<lparr>the_client := (the_client st)
      \<lparr>calls := calls (the_client st) @ map (\<lambda>p. Commit (object_surface st p)) (o1 # os)\<rparr>\<rparr>)"
  using assms
proof (induction "rank a" arbitrary: a o1 st rule: less_induct)
  case less
  let ?me = "do_call (Commit (surface_of a (the_client st))) (the_client st)"
  let ?st = "st\<lparr>the_client := ?me\<rparr>"
  have par: "parent_of ?me = parent_of (the_client st)" by (rule ext) (simp add: parent_of_def)
  have ok: "objects_ok ?st" using objects_ok_client [OF less.prems(1) _ par] by simp
  from less.prems(2) obtain ob where ob: "objects st o1 = Some ob" "obj_impl ob = Some a" by (auto simp: owns_def)
  have link: "linked st ob a" using objects_okD(3) [OF less.prems(1) ob] .
  show ?case
  proof (cases "is_subsurface ob")
    case True
    with link obtain p b where pb: "obj_parent ob = Some p" "owns st p b" "parent_of (the_client st) a = Some b"
      by (auto simp: linked_def)
    have "rank b < rank a" using less.prems(3) pb(3) by blast
    then obtain os where os: "object_chain st (p # os)" "distinct (p # os)"
      "\<forall>q \<in> set (p # os). \<exists>c. owns st q c \<and> rank c \<le> rank b"
      "commit_objects p ?st = Some (Inr (), st\<lparr>the_client := ?me\<lparr>calls := calls ?me @
          map (\<lambda>q. Commit (object_surface st q)) (p # os)\<rparr>\<rparr>)"
      using less.hyps [of b ?st p] ok pb(2) less.prems(3) par by auto
    have low: "\<exists>c. owns st q c \<and> rank c < rank a" if "q \<in> set (p # os)" for q
      using os(3) that \<open>rank b < rank a\<close> by (meson order.strict_trans1)
    have "o1 \<notin> set (p # os)" using low [of o1] ob by (auto simp: owns_def)
    moreover have "\<forall>q \<in> set (o1 # p # os). \<exists>c. owns st q c \<and> rank c \<le> rank a"
      using low less.prems(2) by (auto intro: less_imp_le)
    ultimately show ?thesis
      using os ob pb(1) True
      by (intro exI [of _ "p # os"], subst commit_objects.simps)
        (simp add: impl_of_def Let_def Subsurface_parent_def object_surface_def do_call_def)
  next
    case False
    with ob less.prems(2) show ?thesis
      by (intro exI [of _ "[]"], subst commit_objects.simps) (auto simp: impl_of_def Let_def object_surface_def do_call_def)
  qed
qed

text \<open>
  A parent that is moved while a subsurface refers to it: the reference finds an object without an
  \<^verbatim>\<open>Impl\<close>, and committing the ancestry is undefined.
\<close>

lemma moved_parent_is_undefined:
  assumes "Subsurface lib s a p st = (Inr (), st1)" and "objects st s = None" and "objects st q = None" and "q \<noteq> s"
    and "Surface_move q p st1 = (Inr (), st2)"
  shows "\<exists>st3. commit_objects s st2 = Some (Inl null_impl, st3)"
proof -
  from assms(1) obtain pa where pa: "impl_of p st = Inr pa" and
    st1: "st1 = st\<lparr>objects := (objects st)(s \<mapsto> \<lparr>is_subsurface = True, obj_impl = Some a, obj_parent = Some p\<rparr>),
      the_client := subsurface_ctor lib a pa (the_client st)\<rparr>"
    by (auto simp: Subsurface_def split: sum.splits)
  from pa obtain ob where ob: "objects st p = Some ob" by (auto simp: impl_of_def split: option.splits)
  then have ps: "p \<noteq> s" "p \<noteq> q" using assms(2,3) by auto
  then have "objects st2 = (objects st1)(p \<mapsto> ob\<lparr>obj_impl := None, obj_parent := None\<rparr>, q \<mapsto> ob)"
    using assms(5) ob by (auto simp: Surface_move_def st1)
  then have "objects st2 s = Some \<lparr>is_subsurface = True, obj_impl = Some a, obj_parent = Some p\<rparr>"
    "objects st2 p = Some (ob\<lparr>obj_impl := None, obj_parent := None\<rparr>)"
    using ps assms(4) by (simp_all add: st1)
  then show ?thesis
    by (subst commit_objects.simps) (simp add: impl_of_def Let_def Subsurface_parent_def, subst commit_objects.simps, simp add: impl_of_def)
qed

section \<open>Properties\<close>


text \<open>
  Claim C39. Showing a subsurface commits its whole ancestry: after every history in which no parent
  of a live subsurface was moved or destroyed, the loop of \<^verbatim>\<open>Subsurface::create_visible\<close> over the
  objects ends without touching a moved-from object, and what it did is to commit the surfaces of the
  object, of its parent, and so on up to a surface without parent, each exactly once and in this order.
\<close>

theorem create_visible_commits_ancestry:
  assumes "object_history lib st" and "owns st o1 a"
  shows "\<exists>os. object_chain st (o1 # os) \<and> distinct (o1 # os) \<and>
    commit_objects o1 st = Some (Inr (), st\<lparr>the_client := (the_client st)
      \<lparr>calls := calls (the_client st) @ map (\<lambda>p. Commit (object_surface st p)) (o1 # os)\<rparr>\<rparr>)"
proof -
  have ok: "objects_ok st" using objects_ok_history [OF assms(1)] .
  obtain rank :: "nat \<Rightarrow> nat" where "\<And>c b. parent_of (the_client st) c = Some b \<Longrightarrow> rank b < rank c"
    using objects_okD(4) [OF ok] by blast
  from commit_objects_chain [where rank = rank, OF ok assms(2) this] show ?thesis by blast
qed

subsection \<open>Witnesses\<close>

text \<open>A surface, moved once, and a subsurface of it.\<close>

definition no_objects :: "nat object_state" where
  "no_objects = \<lparr>objects = Map.empty, the_client = new_client None empty_world\<rparr>"

definition moved_surface :: "nat object_state" where
  "moved_surface = snd (Surface_move 2 1 (Surface s_lib 1 7 no_objects))"

definition with_subsurface :: "nat object_state" where
  "with_subsurface = snd (Subsurface s_lib 3 9 2 moved_surface)"

lemma moved_surface_objects:
  "objects moved_surface = [1 \<mapsto> \<lparr>is_subsurface = False, obj_impl = None, obj_parent = None\<rparr>,
     2 \<mapsto> \<lparr>is_subsurface = False, obj_impl = Some 7, obj_parent = None\<rparr>]"
  "the_client moved_surface = surface_ctor s_lib 7 (new_client None empty_world)"
  by (simp_all add: moved_surface_def Surface_move_def Surface_def no_objects_def)

lemma with_subsurface_history: "object_history s_lib with_subsurface"
proof -
  let ?s = "Surface s_lib 1 7 no_objects"
  have "object_history s_lib no_objects"
    by (rule object_history.start) (simp_all add: no_objects_def new_client_def empty_world_def)
  then have "object_history s_lib ?s"
    by (rule object_history.make) (simp_all add: no_objects_def new_client_def empty_world_def)
  moreover have "objects ?s 2 = None" "\<not> is_parent ?s 1"
    by (simp_all add: Surface_def no_objects_def is_parent_def)
  moreover have "Surface_move 2 1 ?s = (Inr (), moved_surface)"
    by (simp add: moved_surface_def Surface_move_def Surface_def)
  ultimately have m: "object_history s_lib moved_surface" by (rule object_history.move)
  moreover have "objects moved_surface 3 = None" by (simp add: moved_surface_objects)
  moreover have "impls (env (the_client moved_surface)) 9 = None"
    by (simp add: moved_surface_objects surface_ctor_def call_new_def new_client_def empty_world_def)
  moreover have "Subsurface s_lib 3 9 2 moved_surface = (Inr (), with_subsurface)"
    by (simp add: with_subsurface_def Subsurface_def impl_of_def moved_surface_objects)
  ultimately show ?thesis by (rule object_history.make_sub)
qed

lemma with_subsurface_objects:
  "objects with_subsurface = (objects moved_surface)(3 \<mapsto> \<lparr>is_subsurface = True, obj_impl = Some 9, obj_parent = Some 2\<rparr>)"
  by (simp add: with_subsurface_def Subsurface_def impl_of_def moved_surface_objects)


theorem create_visible_commits_ancestry_witness:
  "\<exists>st'. commit_objects 3 with_subsurface = Some (Inr (), st') \<and>
     calls (the_client st') = calls (the_client with_subsurface) @
       [Commit (object_surface with_subsurface 3), Commit (object_surface with_subsurface 2)]"
proof -
  have "owns with_subsurface 3 9" by (simp add: owns_def with_subsurface_objects)
  from create_visible_commits_ancestry [OF with_subsurface_history this]
  obtain os where chain: "object_chain with_subsurface (3 # os)"
    and run: "commit_objects 3 with_subsurface = Some (Inr (), with_subsurface\<lparr>the_client := (the_client with_subsurface)
      \<lparr>calls := calls (the_client with_subsurface) @ map (\<lambda>p. Commit (object_surface with_subsurface p)) (3 # os)\<rparr>\<rparr>)"
    by blast
  from chain obtain ps where "os = 2 # ps" by (cases os) (auto simp: with_subsurface_objects)
  moreover from this chain have "ps = []" by (cases ps) (auto simp: with_subsurface_objects moved_surface_objects)
  ultimately show ?thesis using run by simp
qed

end
