(* ===== verification/Wl_Handle.thy ===== *)
theory Wl_Handle
  imports Prelude "HOL-Library.Multiset"
begin

text \<open>
  \<^verbatim>\<open>WlHandle\<close> of \<^verbatim>\<open>include/wl_handle.h\<close>, a move-only owner that destroys its Wayland object with
  the destructor its \<^verbatim>\<open>WlInterfaceDescriptor\<close> names. The handles of a program are objects at
  addresses; the requests that destroy Wayland objects are recorded in order.
\<close>

section \<open>\<^verbatim>\<open>WlHandle\<close>\<close>

record wl_handle =
  wh_proxy :: handle
  owns_wl_object :: bool

record handle_store =
  handle_at :: "nat \<rightharpoonup> wl_handle"
  destroyed :: "handle list"

definition wl_handle_ctor :: "nat \<Rightarrow> handle \<Rightarrow> (handle_store, unit) eff" where
  "wl_handle_ctor this proxy st =
     (if proxy = nullptr
      then (Inl (Logic_error ''Attempt to construct a WlHandle from null Wayland object''), st)
      else (Inr (), st\<lparr>handle_at := (handle_at st)(this \<mapsto> \<lparr>wh_proxy = proxy, owns_wl_object = True\<rparr>)\<rparr>))"

definition wl_handle_destructor :: "nat \<Rightarrow> (handle_store, unit) eff" where
  "wl_handle_destructor this st =
     (case handle_at st this of
        None \<Rightarrow> (Inl (Undefined_behaviour ''destructor of no object''), st)
      | Some h \<Rightarrow>
          (Inr (), (if owns_wl_object h then st\<lparr>destroyed := destroyed st @ [wh_proxy h]\<rparr> else st)
             \<lparr>handle_at := (handle_at st)(this := None)\<rparr>))"

text \<open>The move constructor delegates to the other constructor before it disowns its source.\<close>

definition wl_handle_move :: "nat \<Rightarrow> nat \<Rightarrow> (handle_store, unit) eff" where
  "wl_handle_move this from st =
     (case handle_at st from of
        None \<Rightarrow> (Inl (Undefined_behaviour ''move from no object''), st)
      | Some h \<Rightarrow>
          bindE (wl_handle_ctor this (wh_proxy h))
            (\<lambda>_ st. (Inr (), st\<lparr>handle_at := (handle_at st)(from \<mapsto> h\<lparr>owns_wl_object := False\<rparr>)\<rparr>)) st)"

text \<open>The conversion to the raw pointer aborts the program (\<open>None\<close>) for a handle that was moved from.\<close>

definition wl_handle_get :: "wl_handle \<Rightarrow> handle option" where
  "wl_handle_get h = (if \<not> owns_wl_object h then None else Some (wh_proxy h))"

definition wrap_wl_object :: "nat \<Rightarrow> handle \<Rightarrow> (handle_store, unit) eff" where
  "wrap_wl_object this proxy = wl_handle_ctor this proxy"

section \<open>Destructor functions\<close>

text \<open>
  \<^verbatim>\<open>WL_DATA_DEVICE_MANAGER_RELEASE_SINCE_VERSION\<close> comes from the generated protocol header and
  is the parameter \<open>since\<close>, the version of the object the parameter \<open>version\<close>.
\<close>

definition release_data_device_manager :: "nat \<Rightarrow> (handle \<Rightarrow> nat) \<Rightarrow> handle \<Rightarrow> string \<times> handle" where
  "release_data_device_manager since version to_destroy =
     (if since \<le> version to_destroy then (''wl_data_device_manager_release'', to_destroy)
      else (''wl_data_device_manager_destroy'', to_destroy))"

text \<open>
  The functions \<^verbatim>\<open>send_release_if_supported\<close> for compositors and outputs
  (\<^verbatim>\<open>include/in_process_server.h\<close>), with the same parameters.
\<close>

definition release_compositor :: "nat \<Rightarrow> (handle \<Rightarrow> nat) \<Rightarrow> handle \<Rightarrow> string \<times> handle" where
  "release_compositor since version to_destroy =
     (if since \<le> version to_destroy then (''wl_compositor_release'', to_destroy)
      else (''wl_compositor_destroy'', to_destroy))"

definition release_output :: "nat \<Rightarrow> (handle \<Rightarrow> nat) \<Rightarrow> handle \<Rightarrow> string \<times> handle" where
  "release_output since version to_destroy =
     (if since \<le> version to_destroy then (''wl_output_release'', to_destroy)
      else (''wl_output_destroy'', to_destroy))"

section \<open>Lemmas\<close>

text \<open>
  The life of handles in a program: objects are handed to handles in free memory, handles that own
  their object are moved to free memory, and handles are destroyed. The list collects the objects
  that were handed over.
\<close>

inductive handle_history :: "handle_store \<Rightarrow> handle list \<Rightarrow> bool" where
  start: "handle_history \<lparr>handle_at = Map.empty, destroyed = []\<rparr> []"
| construct: "handle_history st given \<Longrightarrow> handle_at st this = None \<Longrightarrow>
    wl_handle_ctor this proxy st = (Inr (), st') \<Longrightarrow> handle_history st' (proxy # given)"
| move: "handle_history st given \<Longrightarrow> handle_at st this = None \<Longrightarrow> handle_at st from = Some h \<Longrightarrow>
    wl_handle_get h \<noteq> None \<Longrightarrow> wl_handle_move this from st = (Inr (), st') \<Longrightarrow> handle_history st' given"
| destroy: "handle_history st given \<Longrightarrow> wl_handle_destructor this st = (Inr (), st') \<Longrightarrow>
    handle_history st' given"

text \<open>The addresses whose handle owns its object, and the objects they own.\<close>

definition owners :: "handle_store \<Rightarrow> nat set" where
  "owners st = {a. \<exists>h. handle_at st a = Some h \<and> owns_wl_object h}"

definition owned :: "handle_store \<Rightarrow> handle multiset" where
  "owned st = image_mset (\<lambda>a. wh_proxy (the (handle_at st a))) (mset_set (owners st))"

lemma owned_insert:
  assumes "finite (owners st)" and "this \<notin> owners st" and "owners st' = insert this (owners st)"
    and "\<And>a. a \<in> owners st \<Longrightarrow> handle_at st' a = handle_at st a" and "handle_at st' this = Some h"
  shows "owned st' = add_mset (wh_proxy h) (owned st)"
proof -
  have "image_mset (\<lambda>a. wh_proxy (the (handle_at st' a))) (mset_set (owners st)) = owned st"
    unfolding owned_def by (rule image_mset_cong) (use assms(1,4) in simp)
  with assms(1-3,5) show ?thesis by (simp add: owned_def)
qed

lemma owned_remove:
  assumes "finite (owners st)" and "this \<in> owners st" and "owners st' = owners st - {this}"
    and "\<And>a. a \<in> owners st' \<Longrightarrow> handle_at st' a = handle_at st a" and "handle_at st this = Some h"
  shows "add_mset (wh_proxy h) (owned st') = owned st"
proof -
  have fin: "finite (owners st')" and new: "this \<notin> owners st'" and ins: "owners st = insert this (owners st')"
    using assms(1-3) by auto
  have "owned st = add_mset (wh_proxy h) (owned st')"
    by (rule owned_insert [OF fin new ins _ assms(5)]) (simp add: assms(4))
  then show ?thesis by simp
qed

lemma owned_same:
  assumes "owners st' = owners st" and "\<And>a. a \<in> owners st \<Longrightarrow> handle_at st' a = handle_at st a"
    and "finite (owners st)"
  shows "owned st' = owned st"
  unfolding owned_def assms(1) by (rule image_mset_cong) (use assms(2,3) in simp)

lemma history_ownership:
  assumes "handle_history st given"
  shows "finite (owners st) \<and> owned st + mset (destroyed st) = mset given"
  using assms
proof (induction rule: handle_history.induct)
  case start
  show ?case by (simp add: owners_def owned_def)
next
  case (construct st given this proxy st')
  then have st': "st' = st\<lparr>handle_at := (handle_at st)(this \<mapsto> \<lparr>wh_proxy = proxy, owns_wl_object = True\<rparr>)\<rparr>"
    by (simp add: wl_handle_ctor_def split: if_splits)
  have fresh: "this \<notin> owners st" and own: "owners st' = insert this (owners st)"
    using construct.hyps(2) by (auto simp: owners_def st')
  have agree: "handle_at st' a = handle_at st a" if "a \<in> owners st" for a
    using that fresh by (auto simp: st')
  have "owned st' = add_mset (wh_proxy \<lparr>wh_proxy = proxy, owns_wl_object = True\<rparr>) (owned st)"
    by (rule owned_insert [OF _ fresh own agree]) (use construct.IH in \<open>simp_all add: st'\<close>)
  with construct.IH own show ?case by (simp add: st')
next
  case (move st given this "from" h st')
  have owns: "owns_wl_object h" using move.hyps(4) by (simp add: wl_handle_get_def split: if_splits)
  have ne: "this \<noteq> from" using move.hyps(2,3) by auto
  define mid where "mid = st\<lparr>handle_at := (handle_at st)(this \<mapsto> \<lparr>wh_proxy = wh_proxy h, owns_wl_object = True\<rparr>)\<rparr>"
  have st': "st' = mid\<lparr>handle_at := (handle_at mid)(from \<mapsto> h\<lparr>owns_wl_object := False\<rparr>)\<rparr>"
    using move.hyps(3,5) by (simp add: wl_handle_move_def wl_handle_ctor_def bindE_def mid_def split: if_splits)
  have fresh: "this \<notin> owners st" and own: "owners mid = insert this (owners st)"
    using move.hyps(2) by (auto simp: owners_def mid_def)
  have fin: "finite (owners mid)" using move.IH own by simp
  have agree: "handle_at mid a = handle_at st a" if "a \<in> owners st" for a
    using that fresh by (auto simp: mid_def)
  have 1: "owned mid = add_mset (wh_proxy \<lparr>wh_proxy = wh_proxy h, owns_wl_object = True\<rparr>) (owned st)"
    by (rule owned_insert [OF _ fresh own agree]) (use move.IH in \<open>simp_all add: mid_def\<close>)
  have mem: "from \<in> owners mid" and own': "owners st' = owners mid - {from}"
    using move.hyps(3) owns ne by (auto simp: owners_def st' mid_def)
  have "add_mset (wh_proxy h) (owned st') = owned mid"
    by (rule owned_remove [OF fin mem own'])
      (use move.hyps(3) ne own' in \<open>auto simp: st' mid_def\<close>)
  with 1 have "owned st' = owned st" by simp
  with move.IH fin own' show ?case by (simp add: st' mid_def)
next
  case (destroy st given this st')
  then obtain h where h: "handle_at st this = Some h"
    by (auto simp: wl_handle_destructor_def split: option.splits)
  have st': "handle_at st' = (handle_at st)(this := None)"
    "destroyed st' = destroyed st @ (if owns_wl_object h then [wh_proxy h] else [])"
    using destroy.hyps(2) h by (auto simp: wl_handle_destructor_def)
  have own: "owners st' = owners st - {this}" by (auto simp: owners_def st')
  show ?case
  proof (cases "owns_wl_object h")
    case True
    have "add_mset (wh_proxy h) (owned st') = owned st"
      by (rule owned_remove [OF _ _ own]) (use destroy.IH h True own in \<open>auto simp: st' owners_def\<close>)
    then have "mset given = add_mset (wh_proxy h) (owned st') + mset (destroyed st)" using destroy.IH by simp
    with destroy.IH own True show ?thesis by (simp add: st')
  next
    case False
    then have "owners st' = owners st" using h own by (auto simp: owners_def)
    then have "owned st' = owned st"
      by (rule owned_same) (use destroy.IH h False in \<open>auto simp: st' owners_def\<close>)
    with destroy.IH own False show ?thesis by (simp add: st')
  qed
qed

lemma move_twice_destroys_twice:
  "destroyed (snd (bindE (wl_handle_ctor 0 (Some 5)) (\<lambda>_. bindE (wl_handle_move 1 0) (\<lambda>_. bindE (wl_handle_move 2 0)
     (\<lambda>_. bindE (wl_handle_destructor 1) (\<lambda>_. wl_handle_destructor 2)))) \<lparr>handle_at = Map.empty, destroyed = []\<rparr>)) =
   [Some 5, Some 5]"
  by (simp add: bindE_def wl_handle_ctor_def wl_handle_move_def wl_handle_destructor_def)

section \<open>Properties\<close>

text \<open>
  Claim C25. A Wayland object that is given to a \<^verbatim>\<open>WlHandle\<close> has exactly one owner or has been
  destroyed exactly once: along any sequence of constructions, destructions and moves out of
  handles that own their object, the owned objects together with the destroyed ones are, with
  multiplicity, those that were handed over. In particular, once no handle is left, every object
  has been destroyed as often as it was handed over.
\<close>

theorem handles_own_linearly:
  assumes "handle_history st given"
  shows "owned st + mset (destroyed st) = mset given \<and>
    (if handle_at st = Map.empty then mset (destroyed st) = mset given else finite (owners st))"
proof -
  have "owned st = {#}" if "handle_at st = Map.empty"
    using that by (simp add: owned_def owners_def)
  with history_ownership [OF assms] show ?thesis by auto
qed

theorem handles_own_linearly_witness:
  "\<exists>st. handle_history st [Some 5] \<and> handle_at st = Map.empty \<and> mset (destroyed st) = {#Some 5#}"
proof -
  let ?h = "\<lparr>wh_proxy = Some 5, owns_wl_object = True\<rparr>"
  let ?s1 = "\<lparr>handle_at = [0 \<mapsto> ?h], destroyed = []\<rparr>"
  let ?s2 = "\<lparr>handle_at = Map.empty(1 \<mapsto> ?h, 0 \<mapsto> ?h\<lparr>owns_wl_object := False\<rparr>), destroyed = []\<rparr>"
  have 1: "handle_history ?s1 [Some 5]"
    by (rule handle_history.construct [OF handle_history.start, of 0]) (simp_all add: wl_handle_ctor_def)
  have 2: "handle_history ?s2 [Some 5]"
    by (rule handle_history.move [OF 1, of 1 0 ?h])
      (simp_all add: wl_handle_get_def wl_handle_move_def wl_handle_ctor_def bindE_def fun_upd_twist)
  have 3: "handle_history \<lparr>handle_at = [0 \<mapsto> ?h\<lparr>owns_wl_object := False\<rparr>], destroyed = [Some 5]\<rparr> [Some 5]"
    by (rule handle_history.destroy [OF 2, of 1]) (simp add: wl_handle_destructor_def fun_upd_twist)
  have 4: "handle_history \<lparr>handle_at = Map.empty, destroyed = [Some 5]\<rparr> [Some 5]"
    by (rule handle_history.destroy [OF 3, of 0]) (simp add: wl_handle_destructor_def)
  from handles_own_linearly [OF 4] 4 show ?thesis
    by (intro exI [of _ "\<lparr>handle_at = Map.empty, destroyed = [Some 5]\<rparr>"]) simp
qed

end
