(* ===== verification/Listeners.thy ===== *)
theory Listeners
  imports Prelude
begin

text \<open>
  The listener classes of \<^verbatim>\<open>include/active_listeners.h\<close>, \<^verbatim>\<open>include/data_device.h\<close>,
  \<^verbatim>\<open>include/primary_selection.h\<close> and \<^verbatim>\<open>include/gtk_primary_selection.h\<close> with their
  implementations. libwayland keeps a raw pointer to a listener object and passes it to a static
  function; the object may have been destroyed since. Each class therefore has a static set of the
  addresses of its live objects, and the static function calls the object's virtual method only
  when the address is in the set. The heap of live objects is explicit here, so that calling a
  method of a destroyed object is visible as undefined behaviour.
\<close>

section \<open>\<^verbatim>\<open>ActiveListeners\<close>\<close>

text \<open>The \<^verbatim>\<open>std::set<void*>\<close>; every method holds the mutex throughout, so each is one step.\<close>

type_synonym active_listeners = "nat list"

definition listeners_add :: "nat \<Rightarrow> active_listeners \<Rightarrow> active_listeners" where
  "listeners_add listener ls = set_put listener ls"

definition listeners_del :: "nat \<Rightarrow> active_listeners \<Rightarrow> active_listeners" where
  "listeners_del listener ls = filter (\<lambda>l. l \<noteq> listener) ls"

definition listeners_include :: "active_listeners \<Rightarrow> nat \<Rightarrow> bool" where
  "listeners_include ls listener = list_ex (\<lambda>l. l = listener) ls"

section \<open>Classes, events and objects\<close>

datatype listener_class =
    Data_device | Data_offer
  | Primary_device | Primary_offer | Primary_source
  | Gtk_device | Gtk_offer | Gtk_source

text \<open>
  The events, one constructor for each entry of the \<^verbatim>\<open>thunks\<close> tables, with the arguments that
  follow the proxy.
\<close>

datatype proxy_event =
    Dd_data_offer handle
  | Dd_enter u32 handle int int handle
  | Dd_leave
  | Dd_motion u32 int int
  | Dd_drop
  | Dd_selection handle
  | Do_offer string
  | Do_source_actions u32
  | Do_action u32
  | Ps_data_offer handle
  | Ps_selection handle
  | Ps_offer string
  | Ps_send string int
  | Ps_cancelled
  | Gtk_data_offer handle
  | Gtk_selection handle
  | Gtk_offer_mime string
  | Gtk_send string int
  | Gtk_cancelled

text \<open>
  An object: its class, and what the class derived from it overrides. An override gets the proxy
  and the event and acts on the state \<open>'w\<close> of the test.
\<close>

record 'w listener_object =
  listener_class_of :: listener_class
  overrides :: "proxy_event \<Rightarrow> (handle \<Rightarrow> 'w \<Rightarrow> 'w) option"

record 'w listener_world =
  active :: "listener_class \<Rightarrow> active_listeners"
  live :: "nat \<rightharpoonup> 'w listener_object"
  bound :: "(handle \<times> listener_class \<times> nat) list"
  open_fds :: "int set"
  test_state :: 'w

definition set_active ::
    "listener_class \<Rightarrow> (active_listeners \<Rightarrow> active_listeners) \<Rightarrow> 'w listener_world \<Rightarrow> 'w listener_world" where
  "set_active c f st = st\<lparr>active := (active st)(c := f (active st c))\<rparr>"

definition add_listener ::
    "handle \<Rightarrow> listener_class \<Rightarrow> nat \<Rightarrow> 'w listener_world \<Rightarrow> 'w listener_world" where
  "add_listener proxy c this st = st\<lparr>bound := bound st @ [(proxy, c, this)]\<rparr>"

section \<open>Construction and destruction\<close>

text \<open>
  Device and source listeners are registered with their proxy by the constructor; an offer
  listener is registered by \<^verbatim>\<open>listen_to\<close>.
\<close>

definition device_listener_ctor ::
    "listener_class \<Rightarrow> nat \<Rightarrow> (proxy_event \<Rightarrow> (handle \<Rightarrow> 'w \<Rightarrow> 'w) option) \<Rightarrow> handle \<Rightarrow>
     'w listener_world \<Rightarrow> 'w listener_world" where
  "device_listener_ctor c this ov proxy st =
     (let st = set_active c (listeners_add this) st;
          st = add_listener proxy c this st
      in st\<lparr>live := (live st)(this \<mapsto> \<lparr>listener_class_of = c, overrides = ov\<rparr>)\<rparr>)"

definition offer_listener_ctor ::
    "listener_class \<Rightarrow> nat \<Rightarrow> (proxy_event \<Rightarrow> (handle \<Rightarrow> 'w \<Rightarrow> 'w) option) \<Rightarrow>
     'w listener_world \<Rightarrow> 'w listener_world" where
  "offer_listener_ctor c this ov st =
     (let st = set_active c (listeners_add this) st
      in st\<lparr>live := (live st)(this \<mapsto> \<lparr>listener_class_of = c, overrides = ov\<rparr>)\<rparr>)"

definition listen_to :: "listener_class \<Rightarrow> nat \<Rightarrow> handle \<Rightarrow> 'w listener_world \<Rightarrow> 'w listener_world" where
  "listen_to c this proxy st = add_listener proxy c this st"

definition listener_destructor :: "listener_class \<Rightarrow> nat \<Rightarrow> 'w listener_world \<Rightarrow> 'w listener_world" where
  "listener_destructor c this st =
     (let st = set_active c (listeners_del this) st in st\<lparr>live := (live st)(this := None)\<rparr>)"

text \<open>The constructors and destructors of the eight classes.\<close>

type_synonym 'w override = "proxy_event \<Rightarrow> (handle \<Rightarrow> 'w \<Rightarrow> 'w) option"

definition DataDeviceListener :: "nat \<Rightarrow> 'w override \<Rightarrow> handle \<Rightarrow> 'w listener_world \<Rightarrow> 'w listener_world" where
  "DataDeviceListener this ov device = device_listener_ctor Data_device this ov device"

definition PrimarySelectionDeviceListener :: "nat \<Rightarrow> 'w override \<Rightarrow> handle \<Rightarrow> 'w listener_world \<Rightarrow> 'w listener_world" where
  "PrimarySelectionDeviceListener this ov device = device_listener_ctor Primary_device this ov device"

definition PrimarySelectionSourceListener :: "nat \<Rightarrow> 'w override \<Rightarrow> handle \<Rightarrow> 'w listener_world \<Rightarrow> 'w listener_world" where
  "PrimarySelectionSourceListener this ov source = device_listener_ctor Primary_source this ov source"

definition GtkPrimarySelectionDeviceListener :: "nat \<Rightarrow> 'w override \<Rightarrow> handle \<Rightarrow> 'w listener_world \<Rightarrow> 'w listener_world" where
  "GtkPrimarySelectionDeviceListener this ov device = device_listener_ctor Gtk_device this ov device"

definition GtkPrimarySelectionSourceListener :: "nat \<Rightarrow> 'w override \<Rightarrow> handle \<Rightarrow> 'w listener_world \<Rightarrow> 'w listener_world" where
  "GtkPrimarySelectionSourceListener this ov source = device_listener_ctor Gtk_source this ov source"

definition DataOfferListener :: "nat \<Rightarrow> 'w override \<Rightarrow> 'w listener_world \<Rightarrow> 'w listener_world" where
  "DataOfferListener this ov = offer_listener_ctor Data_offer this ov"

definition DataOfferListener_listen_to :: "nat \<Rightarrow> handle \<Rightarrow> 'w listener_world \<Rightarrow> 'w listener_world" where
  "DataOfferListener_listen_to this offer = listen_to Data_offer this offer"

definition PrimarySelectionOfferListener :: "nat \<Rightarrow> 'w override \<Rightarrow> 'w listener_world \<Rightarrow> 'w listener_world" where
  "PrimarySelectionOfferListener this ov = offer_listener_ctor Primary_offer this ov"

definition PrimarySelectionOfferListener_listen_to :: "nat \<Rightarrow> handle \<Rightarrow> 'w listener_world \<Rightarrow> 'w listener_world" where
  "PrimarySelectionOfferListener_listen_to this offer = listen_to Primary_offer this offer"

definition GtkPrimarySelectionOfferListener :: "nat \<Rightarrow> 'w override \<Rightarrow> 'w listener_world \<Rightarrow> 'w listener_world" where
  "GtkPrimarySelectionOfferListener this ov = offer_listener_ctor Gtk_offer this ov"

definition GtkPrimarySelectionOfferListener_listen_to :: "nat \<Rightarrow> handle \<Rightarrow> 'w listener_world \<Rightarrow> 'w listener_world" where
  "GtkPrimarySelectionOfferListener_listen_to this offer = listen_to Gtk_offer this offer"

definition DataDeviceListener_destructor :: "nat \<Rightarrow> 'w listener_world \<Rightarrow> 'w listener_world" where
  "DataDeviceListener_destructor this = listener_destructor Data_device this"

definition PrimarySelectionDeviceListener_destructor :: "nat \<Rightarrow> 'w listener_world \<Rightarrow> 'w listener_world" where
  "PrimarySelectionDeviceListener_destructor this = listener_destructor Primary_device this"

definition PrimarySelectionSourceListener_destructor :: "nat \<Rightarrow> 'w listener_world \<Rightarrow> 'w listener_world" where
  "PrimarySelectionSourceListener_destructor this = listener_destructor Primary_source this"

definition GtkPrimarySelectionDeviceListener_destructor :: "nat \<Rightarrow> 'w listener_world \<Rightarrow> 'w listener_world" where
  "GtkPrimarySelectionDeviceListener_destructor this = listener_destructor Gtk_device this"

definition GtkPrimarySelectionSourceListener_destructor :: "nat \<Rightarrow> 'w listener_world \<Rightarrow> 'w listener_world" where
  "GtkPrimarySelectionSourceListener_destructor this = listener_destructor Gtk_source this"

definition DataOfferListener_destructor :: "nat \<Rightarrow> 'w listener_world \<Rightarrow> 'w listener_world" where
  "DataOfferListener_destructor this = listener_destructor Data_offer this"

definition PrimarySelectionOfferListener_destructor :: "nat \<Rightarrow> 'w listener_world \<Rightarrow> 'w listener_world" where
  "PrimarySelectionOfferListener_destructor this = listener_destructor Primary_offer this"

definition GtkPrimarySelectionOfferListener_destructor :: "nat \<Rightarrow> 'w listener_world \<Rightarrow> 'w listener_world" where
  "GtkPrimarySelectionOfferListener_destructor this = listener_destructor Gtk_offer this"

section \<open>Events\<close>

text \<open>The methods of the base classes do nothing, except that those of the sources close the file.\<close>

fun default_method :: "proxy_event \<Rightarrow> 'w listener_world \<Rightarrow> 'w listener_world" where
  "default_method (Ps_send mime_type fd) st = st\<lparr>open_fds := open_fds st - {fd}\<rparr>"
| "default_method (Gtk_send mime_type fd) st = st\<lparr>open_fds := open_fds st - {fd}\<rparr>"
| "default_method e st = st"

definition run_method ::
    "'w listener_object \<Rightarrow> handle \<Rightarrow> proxy_event \<Rightarrow> 'w listener_world \<Rightarrow> 'w listener_world" where
  "run_method obj proxy e st =
     (case overrides obj e of
        None \<Rightarrow> default_method e st
      | Some f \<Rightarrow> st\<lparr>test_state := f proxy (test_state st)\<rparr>)"

text \<open>
  \<^verbatim>\<open>static_cast<Class*>(data)->method(...)\<close>: undefined unless an object of that class is alive at
  the address.
\<close>

definition virtual_call ::
    "listener_class \<Rightarrow> nat \<Rightarrow> handle \<Rightarrow> proxy_event \<Rightarrow> ('w listener_world, unit) eff" where
  "virtual_call c data proxy e st =
     (case live st data of
        None \<Rightarrow> (Inl (Undefined_behaviour ''method of a destroyed listener''), st)
      | Some obj \<Rightarrow>
          if listener_class_of obj = c then (Inr (), run_method obj proxy e st)
          else (Inl (Undefined_behaviour ''listener of another class''), st))"

definition call_if_active ::
    "listener_class \<Rightarrow> nat \<Rightarrow> handle \<Rightarrow> proxy_event \<Rightarrow> ('w listener_world, unit) eff" where
  "call_if_active c data proxy e st =
     (if listeners_include (active st c) data then virtual_call c data proxy e st else (Inr (), st))"

text \<open>The static functions of the classes: each checks the set of its own class.\<close>

definition data_device_data_offer :: "nat \<Rightarrow> handle \<Rightarrow> handle \<Rightarrow> ('w listener_world, unit) eff" where
  "data_device_data_offer data device offer = call_if_active Data_device data device (Dd_data_offer offer)"

definition data_device_enter :: "nat \<Rightarrow> handle \<Rightarrow> u32 \<Rightarrow> handle \<Rightarrow> int \<Rightarrow> int \<Rightarrow> handle \<Rightarrow> ('w listener_world, unit) eff" where
  "data_device_enter data device serial surface x y offer = call_if_active Data_device data device (Dd_enter serial surface x y offer)"

definition data_device_leave :: "nat \<Rightarrow> handle \<Rightarrow> ('w listener_world, unit) eff" where
  "data_device_leave data device = call_if_active Data_device data device Dd_leave"

definition data_device_motion :: "nat \<Rightarrow> handle \<Rightarrow> u32 \<Rightarrow> int \<Rightarrow> int \<Rightarrow> ('w listener_world, unit) eff" where
  "data_device_motion data device time x y = call_if_active Data_device data device (Dd_motion time x y)"

definition data_device_drop :: "nat \<Rightarrow> handle \<Rightarrow> ('w listener_world, unit) eff" where
  "data_device_drop data device = call_if_active Data_device data device Dd_drop"

definition data_device_selection :: "nat \<Rightarrow> handle \<Rightarrow> handle \<Rightarrow> ('w listener_world, unit) eff" where
  "data_device_selection data device offer = call_if_active Data_device data device (Dd_selection offer)"

definition data_offer_offer :: "nat \<Rightarrow> handle \<Rightarrow> string \<Rightarrow> ('w listener_world, unit) eff" where
  "data_offer_offer data proxy mime_type = call_if_active Data_offer data proxy (Do_offer mime_type)"

definition data_offer_source_actions :: "nat \<Rightarrow> handle \<Rightarrow> u32 \<Rightarrow> ('w listener_world, unit) eff" where
  "data_offer_source_actions data proxy dnd_actions = call_if_active Data_offer data proxy (Do_source_actions dnd_actions)"

definition data_offer_action :: "nat \<Rightarrow> handle \<Rightarrow> u32 \<Rightarrow> ('w listener_world, unit) eff" where
  "data_offer_action data proxy dnd_action = call_if_active Data_offer data proxy (Do_action dnd_action)"

definition primary_device_data_offer :: "nat \<Rightarrow> handle \<Rightarrow> handle \<Rightarrow> ('w listener_world, unit) eff" where
  "primary_device_data_offer data device offer = call_if_active Primary_device data device (Ps_data_offer offer)"

definition primary_device_selection :: "nat \<Rightarrow> handle \<Rightarrow> handle \<Rightarrow> ('w listener_world, unit) eff" where
  "primary_device_selection data device offer = call_if_active Primary_device data device (Ps_selection offer)"

definition primary_offer_offer :: "nat \<Rightarrow> handle \<Rightarrow> string \<Rightarrow> ('w listener_world, unit) eff" where
  "primary_offer_offer data proxy mime_type = call_if_active Primary_offer data proxy (Ps_offer mime_type)"

definition primary_source_send :: "nat \<Rightarrow> handle \<Rightarrow> string \<Rightarrow> int \<Rightarrow> ('w listener_world, unit) eff" where
  "primary_source_send data source mime_type fd = call_if_active Primary_source data source (Ps_send mime_type fd)"

definition primary_source_cancelled :: "nat \<Rightarrow> handle \<Rightarrow> ('w listener_world, unit) eff" where
  "primary_source_cancelled data source = call_if_active Primary_source data source Ps_cancelled"

definition gtk_device_data_offer :: "nat \<Rightarrow> handle \<Rightarrow> handle \<Rightarrow> ('w listener_world, unit) eff" where
  "gtk_device_data_offer data device offer = call_if_active Gtk_device data device (Gtk_data_offer offer)"

definition gtk_device_selection :: "nat \<Rightarrow> handle \<Rightarrow> handle \<Rightarrow> ('w listener_world, unit) eff" where
  "gtk_device_selection data device offer = call_if_active Gtk_device data device (Gtk_selection offer)"

definition gtk_offer_offer :: "nat \<Rightarrow> handle \<Rightarrow> string \<Rightarrow> ('w listener_world, unit) eff" where
  "gtk_offer_offer data proxy mime_type = call_if_active Gtk_offer data proxy (Gtk_offer_mime mime_type)"

definition gtk_source_send :: "nat \<Rightarrow> handle \<Rightarrow> string \<Rightarrow> int \<Rightarrow> ('w listener_world, unit) eff" where
  "gtk_source_send data source mime_type fd = call_if_active Gtk_source data source (Gtk_send mime_type fd)"

definition gtk_source_cancelled :: "nat \<Rightarrow> handle \<Rightarrow> ('w listener_world, unit) eff" where
  "gtk_source_cancelled data source = call_if_active Gtk_source data source Gtk_cancelled"

text \<open>The tables \<^verbatim>\<open>thunks\<close>: which function an event is given to.\<close>

fun thunk :: "proxy_event \<Rightarrow> nat \<Rightarrow> handle \<Rightarrow> ('w listener_world, unit) eff" where
  "thunk (Dd_data_offer offer) data device = data_device_data_offer data device offer"
| "thunk (Dd_enter serial surface x y offer) data device = data_device_enter data device serial surface x y offer"
| "thunk Dd_leave data device = data_device_leave data device"
| "thunk (Dd_motion time x y) data device = data_device_motion data device time x y"
| "thunk Dd_drop data device = data_device_drop data device"
| "thunk (Dd_selection offer) data device = data_device_selection data device offer"
| "thunk (Do_offer mime_type) data proxy = data_offer_offer data proxy mime_type"
| "thunk (Do_source_actions dnd_actions) data proxy = data_offer_source_actions data proxy dnd_actions"
| "thunk (Do_action dnd_action) data proxy = data_offer_action data proxy dnd_action"
| "thunk (Ps_data_offer offer) data device = primary_device_data_offer data device offer"
| "thunk (Ps_selection offer) data device = primary_device_selection data device offer"
| "thunk (Ps_offer mime_type) data proxy = primary_offer_offer data proxy mime_type"
| "thunk (Ps_send mime_type fd) data source = primary_source_send data source mime_type fd"
| "thunk Ps_cancelled data source = primary_source_cancelled data source"
| "thunk (Gtk_data_offer offer) data device = gtk_device_data_offer data device offer"
| "thunk (Gtk_selection offer) data device = gtk_device_selection data device offer"
| "thunk (Gtk_offer_mime mime_type) data proxy = gtk_offer_offer data proxy mime_type"
| "thunk (Gtk_send mime_type fd) data source = gtk_source_send data source mime_type fd"
| "thunk Gtk_cancelled data source = gtk_source_cancelled data source"

lemmas static_function_defs =
  data_device_data_offer_def data_device_enter_def data_device_leave_def data_device_motion_def data_device_drop_def data_device_selection_def data_offer_offer_def data_offer_source_actions_def data_offer_action_def primary_device_data_offer_def primary_device_selection_def primary_offer_offer_def primary_source_send_def primary_source_cancelled_def gtk_device_data_offer_def gtk_device_selection_def gtk_offer_offer_def gtk_source_send_def gtk_source_cancelled_def

section \<open>Lemmas\<close>

text \<open>
  What the classes rely on of the set: it answers whether an address was added and not deleted
  since.
\<close>

locale address_set =
  fixes add :: "'a \<Rightarrow> 's \<Rightarrow> 's" and del :: "'a \<Rightarrow> 's \<Rightarrow> 's" and member :: "'s \<Rightarrow> 'a \<Rightarrow> bool"
  assumes member_add: "member (add a s) b \<longleftrightarrow> a = b \<or> member s b"
    and member_del: "member (del a s) b \<longleftrightarrow> a \<noteq> b \<and> member s b"
begin

definition tracks :: "'s \<Rightarrow> ('a \<Rightarrow> bool) \<Rightarrow> bool" where
  "tracks s P \<longleftrightarrow> (\<forall>a. member s a \<longleftrightarrow> P a)"

lemma tracks_add: "tracks s P \<Longrightarrow> tracks (add a s) (P(a := True))"
  by (auto simp: tracks_def member_add)

lemma tracks_del: "tracks s P \<Longrightarrow> tracks (del a s) (P(a := False))"
  by (auto simp: tracks_def member_del)

end

interpretation al: address_set listeners_add listeners_del listeners_include
  by unfold_locales
    (auto simp: listeners_add_def listeners_del_def listeners_include_def list_ex_iff)

text \<open>Every history of listeners: construction in free memory, destruction, and any event.\<close>

inductive listener_history :: "'w listener_world \<Rightarrow> bool" where
  start: "active st = (\<lambda>c. []) \<Longrightarrow> live st = Map.empty \<Longrightarrow> listener_history st"
| construct_device: "listener_history st \<Longrightarrow> live st this = None \<Longrightarrow>
    listener_history (device_listener_ctor c this ov proxy st)"
| construct_offer: "listener_history st \<Longrightarrow> live st this = None \<Longrightarrow>
    listener_history (offer_listener_ctor c this ov st)"
| listen: "listener_history st \<Longrightarrow> listener_history (listen_to c this proxy st)"
| destroy: "listener_history st \<Longrightarrow> live st this = Some obj \<Longrightarrow> listener_class_of obj = c \<Longrightarrow>
    listener_history (listener_destructor c this st)"
| event: "listener_history st \<Longrightarrow> thunk e data proxy st = (r, st') \<Longrightarrow> listener_history st'"
| receive_fd: "listener_history st \<Longrightarrow> listener_history (st\<lparr>open_fds := insert fd (open_fds st)\<rparr>)"

lemmas listener_class_defs =
  DataDeviceListener_def PrimarySelectionDeviceListener_def PrimarySelectionSourceListener_def GtkPrimarySelectionDeviceListener_def GtkPrimarySelectionSourceListener_def DataOfferListener_def PrimarySelectionOfferListener_def GtkPrimarySelectionOfferListener_def
  DataOfferListener_listen_to_def PrimarySelectionOfferListener_listen_to_def GtkPrimarySelectionOfferListener_listen_to_def
  DataDeviceListener_destructor_def PrimarySelectionDeviceListener_destructor_def PrimarySelectionSourceListener_destructor_def GtkPrimarySelectionDeviceListener_destructor_def GtkPrimarySelectionSourceListener_destructor_def DataOfferListener_destructor_def PrimarySelectionOfferListener_destructor_def GtkPrimarySelectionOfferListener_destructor_def

text \<open>The objects of the eight classes live within these histories.\<close>

lemma listener_class_histories:
  assumes "listener_history st" and "live st this = None"
  shows "listener_history (DataDeviceListener this ov p st)"
    and "listener_history (PrimarySelectionDeviceListener this ov p st)"
    and "listener_history (PrimarySelectionSourceListener this ov p st)"
    and "listener_history (GtkPrimarySelectionDeviceListener this ov p st)"
    and "listener_history (GtkPrimarySelectionSourceListener this ov p st)"
    and "listener_history (DataOfferListener this ov st)"
    and "listener_history (PrimarySelectionOfferListener this ov st)"
    and "listener_history (GtkPrimarySelectionOfferListener this ov st)"
  using assms by (simp_all add: listener_class_defs listener_history.construct_device listener_history.construct_offer)

definition alive_as :: "'w listener_world \<Rightarrow> listener_class \<Rightarrow> nat \<Rightarrow> bool" where
  "alive_as st c a \<longleftrightarrow> (\<exists>obj. live st a = Some obj \<and> listener_class_of obj = c)"

definition listeners_inv :: "'w listener_world \<Rightarrow> bool" where
  "listeners_inv st \<longleftrightarrow> (\<forall>c. al.tracks (active st c) (alive_as st c))"

lemma listeners_invI: "(\<And>c. al.tracks (active st c) (alive_as st c)) \<Longrightarrow> listeners_inv st"
  by (simp add: listeners_inv_def)

lemma listeners_inv_cong:
  assumes "active st' = active st" and "live st' = live st"
  shows "listeners_inv st' \<longleftrightarrow> listeners_inv st"
proof -
  have "alive_as st' = alive_as st" using assms(2) by (simp add: fun_eq_iff alive_as_def)
  with assms(1) show ?thesis by (simp add: listeners_inv_def)
qed

lemma ctor_inv:
  assumes "listeners_inv st" and "live st this = None"
    and "active st' = (active st)(c := listeners_add this (active st c))"
    and "live st' = (live st)(this \<mapsto> \<lparr>listener_class_of = c, overrides = ov\<rparr>)"
  shows "listeners_inv st'"
proof (rule listeners_invI)
  fix c'
  have old: "al.tracks (active st c') (alive_as st c')" using assms(1) by (simp add: listeners_inv_def)
  show "al.tracks (active st' c') (alive_as st' c')"
  proof (cases "c' = c")
    case True
    have "alive_as st' c = (alive_as st c)(this := True)"
      using assms(4) by (auto simp: alive_as_def fun_eq_iff)
    with al.tracks_add [OF old, of this] True assms(3) show ?thesis by simp
  next
    case False
    have "alive_as st' c' = alive_as st c'"
      using assms(2,4) False by (auto simp: alive_as_def fun_eq_iff)
    with old False assms(3) show ?thesis by simp
  qed
qed

lemma destructor_inv:
  assumes "listeners_inv st" and "live st this = Some obj" and "listener_class_of obj = c"
  shows "listeners_inv (listener_destructor c this st)"
proof (rule listeners_invI)
  fix c'
  let ?st = "listener_destructor c this st"
  have old: "al.tracks (active st c') (alive_as st c')" using assms(1) by (simp add: listeners_inv_def)
  have live: "live ?st = (live st)(this := None)"
    and active: "active ?st = (active st)(c := listeners_del this (active st c))"
    by (simp_all add: listener_destructor_def set_active_def)
  show "al.tracks (active ?st c') (alive_as ?st c')"
  proof (cases "c' = c")
    case True
    have "alive_as ?st c = (alive_as st c)(this := False)"
      using live by (auto simp: alive_as_def fun_eq_iff)
    with al.tracks_del [OF old, of this] True active show ?thesis by simp
  next
    case False
    have "alive_as ?st c' = alive_as st c'"
      using live assms(2,3) False by (auto simp: alive_as_def fun_eq_iff)
    with old False active show ?thesis by simp
  qed
qed

lemma default_method_table [simp]:
  "active (default_method e st) = active st" "live (default_method e st) = live st"
  by (cases e; simp)+

lemma run_method_table [simp]:
  "active (run_method obj proxy e st) = active st" "live (run_method obj proxy e st) = live st"
  by (simp_all add: run_method_def split: option.split)

fun class_of_event :: "proxy_event \<Rightarrow> listener_class" where
  "class_of_event (Do_offer m) = Data_offer"
| "class_of_event (Do_source_actions a) = Data_offer"
| "class_of_event (Do_action a) = Data_offer"
| "class_of_event (Ps_data_offer p) = Primary_device"
| "class_of_event (Ps_selection p) = Primary_device"
| "class_of_event (Ps_offer m) = Primary_offer"
| "class_of_event (Ps_send m fd) = Primary_source"
| "class_of_event Ps_cancelled = Primary_source"
| "class_of_event (Gtk_data_offer p) = Gtk_device"
| "class_of_event (Gtk_selection p) = Gtk_device"
| "class_of_event (Gtk_offer_mime m) = Gtk_offer"
| "class_of_event (Gtk_send m fd) = Gtk_source"
| "class_of_event Gtk_cancelled = Gtk_source"
| "class_of_event _ = Data_device"

lemma thunk_eq: "thunk e data proxy = call_if_active (class_of_event e) data proxy e"
  by (cases e) (simp_all add: static_function_defs)

lemma thunk_under_inv:
  assumes "listeners_inv st"
  shows "thunk e data proxy st =
    (case live st data of
       None \<Rightarrow> (Inr (), st)
     | Some obj \<Rightarrow> if listener_class_of obj = class_of_event e then (Inr (), run_method obj proxy e st) else (Inr (), st))"
proof -
  have "listeners_include (active st (class_of_event e)) data \<longleftrightarrow> alive_as st (class_of_event e) data"
    using assms by (simp add: listeners_inv_def al.tracks_def)
  then show ?thesis
    by (auto simp: thunk_eq call_if_active_def virtual_call_def alive_as_def split: option.split)
qed

lemma history_inv: "listener_history st \<Longrightarrow> listeners_inv st"
proof (induction rule: listener_history.induct)
  case (start st)
  then show ?case
    by (auto simp: listeners_inv_def al.tracks_def alive_as_def listeners_include_def)
next
  case (construct_device st this c ov proxy)
  show ?case
    by (rule ctor_inv [OF construct_device.IH construct_device.hyps(2)])
      (simp_all add: device_listener_ctor_def set_active_def add_listener_def Let_def)
next
  case (construct_offer st this c ov)
  show ?case
    by (rule ctor_inv [OF construct_offer.IH construct_offer.hyps(2)])
      (simp_all add: offer_listener_ctor_def set_active_def Let_def)
next
  case (listen st c this proxy)
  then show ?case using listeners_inv_cong [of "listen_to c this proxy st" st] by (simp add: listen_to_def add_listener_def)
next
  case (destroy st this obj c)
  then show ?case using destructor_inv by blast
next
  case (event st e data proxy r st')
  then have "active st' = active st" "live st' = live st"
    by (auto simp: thunk_under_inv split: option.splits if_splits)
  with event.IH listeners_inv_cong show ?case by blast
next
  case (receive_fd st fd)
  then show ?case using listeners_inv_cong [of "st\<lparr>open_fds := insert fd (open_fds st)\<rparr>" st] by simp
qed

section \<open>Properties\<close>

text \<open>
  Claim C19. Events reach live listeners only: whatever listeners were constructed and destroyed
  before and whatever pointer libwayland passes, no event calls a method of a destroyed object or
  of an object of another class. The event runs the method of the object of its class that lives at
  the address, and is dropped without any effect when there is none.
\<close>

theorem events_reach_live_listeners:
  assumes "listener_history st"
  shows "thunk e data proxy st =
    (Inr (), case live st data of
       None \<Rightarrow> st
     | Some obj \<Rightarrow> if listener_class_of obj = class_of_event e then run_method obj proxy e st else st)"
  using thunk_under_inv [OF history_inv [OF assms]] by (auto split: option.split)

text \<open>
  A file descriptor that arrives with a \<^verbatim>\<open>send\<close> event is closed by the base class; when the
  listener has been destroyed nobody closes it.
\<close>

lemma send_without_listener_leaks:
  assumes "listener_history st" and "live st data = None" and "fd \<in> open_fds st"
  shows "fd \<in> open_fds (snd (thunk (Ps_send mime_type fd) data proxy st))"
  using thunk_under_inv [OF history_inv [OF assms(1)], of "Ps_send mime_type fd" data proxy] assms(2,3) by simp

definition no_listeners :: "nat listener_world" where
  "no_listeners =
     \<lparr>active = (\<lambda>c. []), live = Map.empty, bound = [], open_fds = {}, test_state = 0\<rparr>"

theorem events_reach_live_listeners_witness:
  "thunk Dd_leave 7 (Some 1) (listener_destructor Data_device 7
     (device_listener_ctor Data_device 7 (\<lambda>e. Some (\<lambda>p n. n + 1)) (Some 1) no_listeners)) =
   (Inr (), listener_destructor Data_device 7
     (device_listener_ctor Data_device 7 (\<lambda>e. Some (\<lambda>p n. n + 1)) (Some 1) no_listeners)) \<and>
   test_state (snd (thunk Dd_leave 7 (Some 1)
     (device_listener_ctor Data_device 7 (\<lambda>e. Some (\<lambda>p n. n + 1)) (Some 1) no_listeners))) = 1"
proof -
  let ?st = "device_listener_ctor Data_device 7 (\<lambda>e. Some (\<lambda>p n. n + 1)) (Some 1) no_listeners"
  have 0: "listener_history no_listeners"
    by (rule listener_history.start) (simp_all add: no_listeners_def)
  have 1: "listener_history ?st"
    by (rule listener_history.construct_device [OF 0]) (simp add: no_listeners_def)
  have obj: "live ?st 7 = Some \<lparr>listener_class_of = Data_device, overrides = (\<lambda>e. Some (\<lambda>p n. n + 1))\<rparr>"
    by (simp add: device_listener_ctor_def Let_def)
  have 2: "listener_history (listener_destructor Data_device 7 ?st)"
    by (rule listener_history.destroy [OF 1 obj]) simp
  show ?thesis
    using events_reach_live_listeners [OF 2, of Dd_leave 7 "Some 1"] events_reach_live_listeners [OF 1, of Dd_leave 7 "Some 1"] obj
    by (simp add: listener_destructor_def run_method_def device_listener_ctor_def Let_def set_active_def add_listener_def no_listeners_def)
qed

end
