(* ===== verification/Copy_Cut_Paste.thy ===== *)
theory Copy_Cut_Paste
  imports Surfaces Wl_Handle Listeners
begin

text \<open>
  The fixtures of \<^verbatim>\<open>include/copy_cut_paste.h\<close>: a client that offers data and a client that receives it.
  Both derive from \<^verbatim>\<open>Client\<close> and have the Wayland objects they need as members, so that C++ makes and
  destroys these in the order of their declaration, also when the initialiser of one of them throws.
\<close>

section \<open>The source\<close>

definition any_width :: int where "any_width = 100"

definition any_height :: int where "any_height = 100"

record source_fixture =
  source_surface :: nat
  source_manager :: handle
  source_device :: handle
  source_data :: handle

text \<open>
  The constructor; the surface's \<^verbatim>\<open>Impl\<close> gets the address \<open>a\<close>. An exception of an initialiser
  destroys the members that exist and the client.
\<close>

definition CCnPSource ::
    "'v surface_world libwayland \<Rightarrow> 'v surface_world sys \<Rightarrow> int \<Rightarrow> (string \<rightharpoonup> u32) option \<Rightarrow> int result \<Rightarrow> nat \<Rightarrow>
     'v surface_world \<Rightarrow> (source_fixture result \<times> 'v sclient) option" where
  "CCnPSource lib sys long_time extensions socket a w =
     (case client_ctor lib extensions socket w of
        (Inl e, me) \<Rightarrow> Some (Inl e, me)
      | (Inr _, me) \<Rightarrow>
          Option.bind (create_visible_surface lib sys long_time a any_width any_height me) (\<lambda>(r, me).
            case r of
              Inl e \<Rightarrow> Some (Inl e, client_destructor me)
            | Inr _ \<Rightarrow>
                Some (case bind_if_supported lib ''wl_data_device_manager'' AnyVersion me of
                    (Inl e, me) \<Rightarrow> (Inl e, client_destructor (surface_destructor a me))
                  | (Inr manager, me) \<Rightarrow>
                      case call_new lib (New_object ''wl_data_device_manager_get_data_device'' [manager, seat me] []) me of
                        (device, me) \<Rightarrow>
                      case call_new lib (New_object ''wl_data_device_manager_create_data_source'' [manager] []) me of
                        (data_source, me) \<Rightarrow>
                          (Inr \<lparr>source_surface = a, source_manager = manager, source_device = device, source_data = data_source\<rparr>,
                           do_call (Add_listener ''wl_data_source'' data_source) me))))"

definition CCnPSource_offer :: "'v surface_world libwayland \<Rightarrow> source_fixture \<Rightarrow> string \<Rightarrow> ('v sclient, unit) eff" where
  "CCnPSource_offer lib fx mime_type me =
     (let me = do_call (Text_request ''wl_data_source_offer'' [source_data fx] mime_type) me;
          serial = 0;
          me = do_call (Request ''wl_data_device_set_selection'' [source_device fx, source_data fx] [serial]) me
      in server_roundtrip lib me)"

text \<open>
  The destructor. \<open>release\<close> is what destroys the manager: the function
  \<^const>\<open>release_data_device_manager\<close> for the versions of the protocol code.
\<close>

definition CCnPSource_destructor :: "(handle \<Rightarrow> string \<times> handle) \<Rightarrow> source_fixture \<Rightarrow> 'v sclient \<Rightarrow> 'v sclient" where
  "CCnPSource_destructor release fx me =
     (let me = do_call (Destroy ''wl_data_source'' (source_data fx)) me;
          me = do_call (Destroy ''wl_data_device'' (source_device fx)) me;
          me = (case release (source_manager fx) of (request, h) \<Rightarrow> do_call (Destroy request h) me);
          me = surface_destructor (source_surface fx) me
      in client_destructor me)"

section \<open>The sink\<close>

text \<open>The listener is an object of its own, whose class keeps a set of the listeners that exist.\<close>

record sink_fixture =
  sink_manager :: handle
  sink_data :: handle
  sink_listener :: nat

definition CCnPSink ::
    "'v surface_world libwayland \<Rightarrow> (string \<rightharpoonup> u32) option \<Rightarrow> int result \<Rightarrow> nat \<Rightarrow> 'v surface_world \<Rightarrow> active_listeners \<Rightarrow>
     sink_fixture result \<times> 'v sclient \<times> active_listeners" where
  "CCnPSink lib extensions socket this w active_listeners =
     (case client_ctor lib extensions socket w of
        (Inl e, me) \<Rightarrow> (Inl e, me, active_listeners)
      | (Inr _, me) \<Rightarrow>
          (case bind_if_supported lib ''wl_data_device_manager'' AnyVersion me of
             (Inl e, me) \<Rightarrow> (Inl e, client_destructor me, active_listeners)
           | (Inr manager, me) \<Rightarrow>
               case call_new lib (New_object ''wl_data_device_manager_get_data_device'' [manager, seat me] []) me of
                 (device, me) \<Rightarrow>
                   (Inr \<lparr>sink_manager = manager, sink_data = device, sink_listener = this\<rparr>,
                    do_call (Add_listener ''wl_data_device'' device) me, listeners_add this active_listeners)))"

definition create_surface_with_focus ::
    "'v surface_world libwayland \<Rightarrow> 'v surface_world sys \<Rightarrow> int \<Rightarrow> nat \<Rightarrow> 'v sclient \<Rightarrow> (unit result \<times> 'v sclient) option" where
  "create_surface_with_focus lib sys long_time a = create_visible_surface lib sys long_time a any_width any_height"

definition CCnPSink_destructor ::
    "(handle \<Rightarrow> string \<times> handle) \<Rightarrow> sink_fixture \<Rightarrow> 'v sclient \<times> active_listeners \<Rightarrow> 'v sclient \<times> active_listeners" where
  "CCnPSink_destructor release fx st =
     (case st of (me, active_listeners) \<Rightarrow>
       let active_listeners = listeners_del (sink_listener fx) active_listeners;
           me = do_call (Destroy ''wl_data_device'' (sink_data fx)) me;
           me = (case release (sink_manager fx) of (request, h) \<Rightarrow> do_call (Destroy request h) me)
       in (client_destructor me, active_listeners))"

section \<open>Properties\<close>

lemma client_destructor_last:
  "last (calls (client_destructor me)) = Disconnect (display (client_destructor me))"
  by (simp add: client_destructor_calls)
     (simp add: client_destructor_eq Let_def fold_destroy_if fold_destroy_outputs fold_run_callback do_call_def)

text \<open>
  An offer is announced before the selection that needs it, and the display server has
  processed both when the call returns without an exception.
\<close>

theorem source_offer_requests:
  assumes "\<And>m. calls (snd (wl_display_roundtrip lib m)) = calls m"
  shows "calls (snd (CCnPSource_offer lib fx mime_type me)) =
    calls me @ [Text_request ''wl_data_source_offer'' [source_data fx] mime_type,
                Request ''wl_data_device_set_selection'' [source_device fx, source_data fx] [0]]"
  using assms [of "do_call (Request ''wl_data_device_set_selection'' [source_device fx, source_data fx] [0])
      (do_call (Text_request ''wl_data_source_offer'' [source_data fx] mime_type) me)"]
  by (auto simp: CCnPSource_offer_def Let_def server_roundtrip_def split: prod.split)


text \<open>A callback that only adds requests to the log.\<close>

definition appends :: "'a callback \<Rightarrow> bool" where
  "appends f \<longleftrightarrow> (\<forall>cs v. \<exists>more. fst (f (cs, v)) = cs @ more)"

lemma fold_appends:
  assumes "\<And>f. f \<in> set fs \<Longrightarrow> appends f"
  shows "\<exists>more. fst (fold (\<lambda>f. f) fs (cs, w)) = cs @ more"
  using assms
proof (induction fs arbitrary: cs w)
  case (Cons f fs)
  obtain cs' w' where f: "f (cs, w) = (cs', w')" by fastforce
  with Cons.prems [of f] obtain m where "cs' = cs @ m" unfolding appends_def by (metis fst_conv list.set_intros(1))
  with f Cons.prems Cons.IH [of cs' w'] show ?case by auto
qed simp

lemma run_app_callbacks_append:
  assumes "\<And>f. f \<in> set fs \<Longrightarrow> appends f"
  shows "\<exists>more v. fold run_app_callback fs me = me\<lparr>calls := calls me @ more, env := (env me)\<lparr>app := v\<rparr>\<rparr>"
  using assms
proof (induction fs arbitrary: me)
  case Nil
  have "me = me\<lparr>calls := calls me @ [], env := (env me)\<lparr>app := app (env me)\<rparr>\<rparr>" by simp
  then show ?case by (metis fold_simps(1))
next
  case (Cons f fs)
  obtain cs v where f: "f (calls me, app (env me)) = (cs, v)" by fastforce
  then obtain m where m: "cs = calls me @ m" using Cons.prems [of f] unfolding appends_def by (metis fst_conv list.set_intros(1))
  have "run_app_callback f me = me\<lparr>calls := cs, env := (env me)\<lparr>app := v\<rparr>\<rparr>"
    by (simp add: run_app_callback_def f upd_world_def)
  moreover obtain m' v' where "fold run_app_callback fs (me\<lparr>calls := cs, env := (env me)\<lparr>app := v\<rparr>\<rparr>) =
      me\<lparr>calls := cs @ m', env := (env me)\<lparr>app := v'\<rparr>\<rparr>"
    using Cons.IH [of "me\<lparr>calls := cs, env := (env me)\<lparr>app := v\<rparr>\<rparr>"] Cons.prems by auto
  ultimately show ?case using m by auto
qed

text \<open>A surface destroys its Wayland object last, and leaves every member of the client as it is.\<close>

lemma surface_destructor_appends:
  assumes "impls (env me) a = Some i" and "\<And>f. f \<in> set (surf_callbacks i) \<Longrightarrow> appends f"
  shows "\<exists>more w. surface_destructor a me =
    me\<lparr>calls := calls me @ more @ [Destroy ''wl_surface'' (surf_handle i)], env := w\<rparr>"
proof -
  let ?own = "filter (\<lambda>p. fst p = a) (pending_callbacks (env me))"
  let ?me1 = "me\<lparr>calls := calls me @ map (\<lambda>p. Destroy ''wl_callback'' (snd p)) ?own,
      env := (env me)\<lparr>frame_closures := forget (snd ` set ?own) (frame_closures (env me)),
        pending_callbacks := filter (\<lambda>p. fst p \<noteq> a) (pending_callbacks (env me))\<rparr>\<rparr>"
  obtain more v where fold: "fold run_app_callback (surf_callbacks i) ?me1 =
      ?me1\<lparr>calls := calls ?me1 @ more, env := (env ?me1)\<lparr>app := v\<rparr>\<rparr>"
    using run_app_callbacks_append [OF assms(2), where me = ?me1] by blast
  have "surface_destructor a me =
      (let me2 = fold run_app_callback (surf_callbacks i) ?me1
       in upd_world (\<lambda>w. w\<lparr>impls := (impls w)(a := None)\<rparr>) (do_call (Destroy ''wl_surface'' (surface_of a me2)) me2))"
    using assms(1) by (simp add: surface_destructor_def destroy_pending_eq Let_def upd_world_def)
  also have "\<dots> = me\<lparr>calls := calls me @ (map (\<lambda>p. Destroy ''wl_callback'' (snd p)) ?own @ more) @
        [Destroy ''wl_surface'' (surf_handle i)],
      env := (env me)\<lparr>impls := (impls (env me))(a := None),
        pending_callbacks := filter (\<lambda>p. fst p \<noteq> a) (pending_callbacks (env me)),
        frame_closures := forget (snd ` set ?own) (frame_closures (env me)), app := v\<rparr>\<rparr>"
    unfolding fold Let_def using assms(1) by (simp add: upd_world_def do_call_def surface_of_def)
  finally show ?thesis by blast
qed

lemma client_destructor_appends:
  assumes "\<And>f. f \<in> set (destruction_callbacks me) \<Longrightarrow> appends f"
  shows "\<exists>more. calls (client_destructor me) =
    calls me @ map (\<lambda>(k, h). Destroy k h) (held_objects me) @ more @ [Disconnect (display me)]"
  using fold_appends [OF assms, where cs = "calls me @ map (\<lambda>(k, h). Destroy k h) (held_objects me)" and w = "env me"]
  unfolding client_destructor_calls by fastforce

text \<open>
  The end of a source: the data source goes first, then the device, the manager it was
  made with, the surface, the objects of the client, and the connection last; so nothing is
  destroyed after what it depends on.
\<close>

theorem source_releases_in_reverse_order:
  assumes "impls (env me) (source_surface fx) = Some i"
    and "\<And>f. f \<in> set (surf_callbacks i) \<Longrightarrow> appends f" and "\<And>f. f \<in> set (destruction_callbacks me) \<Longrightarrow> appends f"
  shows "\<exists>more more'. calls (CCnPSource_destructor release fx me) =
    calls me @ [Destroy ''wl_data_source'' (source_data fx), Destroy ''wl_data_device'' (source_device fx),
      (case release (source_manager fx) of (request, h) \<Rightarrow> Destroy request h)] @
    more @ [Destroy ''wl_surface'' (surf_handle i)] @
    map (\<lambda>(k, h). Destroy k h) (held_objects me) @ more' @ [Disconnect (display me)]"
proof -
  obtain request h where rel: "release (source_manager fx) = (request, h)" by fastforce
  let ?new = "[Destroy ''wl_data_source'' (source_data fx), Destroy ''wl_data_device'' (source_device fx), Destroy request h]"
  let ?me = "me\<lparr>calls := calls me @ ?new\<rparr>"
  obtain more w where s: "surface_destructor (source_surface fx) ?me =
      ?me\<lparr>calls := calls ?me @ more @ [Destroy ''wl_surface'' (surf_handle i)], env := w\<rparr>"
    using surface_destructor_appends [of ?me "source_surface fx" i] assms(1,2) by auto
  let ?last = "?me\<lparr>calls := calls ?me @ more @ [Destroy ''wl_surface'' (surf_handle i)], env := w\<rparr>"
  have "CCnPSource_destructor release fx me = client_destructor ?last"
    unfolding CCnPSource_destructor_def Let_def rel prod.case s [symmetric] by (simp add: do_call_def)
  moreover obtain more' where "calls (client_destructor ?last) =
      calls ?last @ map (\<lambda>(k, h). Destroy k h) (held_objects ?last) @ more' @ [Disconnect (display ?last)]"
    using client_destructor_appends [of ?last] assms(3) by auto
  ultimately have "calls (CCnPSource_destructor release fx me) =
      calls me @ ?new @ more @ [Destroy ''wl_surface'' (surf_handle i)] @
      map (\<lambda>(k, h). Destroy k h) (held_objects me) @ more' @ [Disconnect (display me)]"
    by (simp add: held_objects_def bound_objects_def)
  then show ?thesis unfolding rel prod.case by blast
qed

text \<open>
  A failed construction leaves no client behind: either the client itself could not be made, or the
  connection was closed by the client's destructor before the exception left the fixture.
\<close>

theorem source_failure_disconnects:
  assumes "CCnPSource lib sys long_time extensions socket a w = Some (Inl e, me)"
  shows "client_ctor lib extensions socket w = (Inl e, me) \<or> last (calls me) = Disconnect (display me)"
  using assms client_destructor_last
  by (auto simp: CCnPSource_def call_new_def split: sum.splits prod.splits bind_splits)

end
