(* ===== verification/Protocol_Objects.thy ===== *)
theory Protocol_Objects
  imports Client_Dispatch Thread_Proxy
begin

text \<open>
  The wrappers around objects of protocol extensions: the toplevel states, positioners and popups
  of \<^verbatim>\<open>src/xdg_shell_v6.cpp\<close> and \<^verbatim>\<open>src/xdg_shell_stable.cpp\<close>, \<^verbatim>\<open>src/layer_shell_v1.cpp\<close>,
  \<^verbatim>\<open>src/linux_dmabuf_v1.cpp\<close>, \<^verbatim>\<open>src/pointer_constraints_unstable_v1.cpp\<close>,
  \<^verbatim>\<open>src/relative_pointer_unstable_v1.cpp\<close> and \<^verbatim>\<open>src/xdg_decoration_unstable_v1.cpp\<close>.
\<close>

section \<open>Arrays\<close>

text \<open>
  A \<^verbatim>\<open>wl_array\<close>: \<open>data\<close> holds its \<^verbatim>\<open>size\<close> bytes. Reading past them is undefined. Numbers are
  in the byte order of the (little-endian) host.
\<close>

type_synonym wl_array = "byte list"

section \<open>Toplevel states\<close>

record toplevel_state =
  state_width :: int
  state_height :: int
  maximized :: bool
  fullscreen :: bool
  resizing :: bool
  activated :: bool

definition initial_state :: "int \<Rightarrow> int \<Rightarrow> toplevel_state" where
  "initial_state width height =
     \<lparr>state_width = width, state_height = height, maximized = False, fullscreen = False,
      resizing = False, activated = False\<rparr>"

text \<open>The numbers of the states, from the enumerations of the two protocols.\<close>

definition STATE_MAXIMIZED :: nat where "STATE_MAXIMIZED = 1"
definition STATE_FULLSCREEN :: nat where "STATE_FULLSCREEN = 2"
definition STATE_RESIZING :: nat where "STATE_RESIZING = 3"
definition STATE_ACTIVATED :: nat where "STATE_ACTIVATED = 4"
definition STATE_TILED :: "nat list" where "STATE_TILED = [5, 6, 7, 8]"

lemmas state_numbers = STATE_MAXIMIZED_def STATE_FULLSCREEN_def STATE_RESIZING_def STATE_ACTIVATED_def STATE_TILED_def

definition switch_v6 :: "nat \<Rightarrow> toplevel_state \<Rightarrow> toplevel_state" where
  "switch_v6 item st =
     (if item = STATE_MAXIMIZED then st\<lparr>maximized := True\<rparr>
      else if item = STATE_FULLSCREEN then st\<lparr>fullscreen := True\<rparr>
      else if item = STATE_RESIZING then st\<lparr>resizing := True\<rparr>
      else if item = STATE_ACTIVATED then st\<lparr>activated := True\<rparr>
      else st)"

text \<open>The case of the activated state falls through to those of the tiled ones, which do nothing.\<close>

definition switch_stable :: "nat \<Rightarrow> toplevel_state \<Rightarrow> toplevel_state" where
  "switch_stable item st =
     (if item = STATE_MAXIMIZED then st\<lparr>maximized := True\<rparr>
      else if item = STATE_FULLSCREEN then st\<lparr>fullscreen := True\<rparr>
      else if item = STATE_RESIZING then st\<lparr>resizing := True\<rparr>
      else if item = STATE_ACTIVATED then st\<lparr>activated := True\<rparr>
      else if item \<in> set STATE_TILED then st
      else st)"

text \<open>The loop over the array, four bytes at a time.\<close>

fun each_item :: "(nat \<Rightarrow> 'a \<Rightarrow> 'a) \<Rightarrow> byte list \<Rightarrow> 'a \<Rightarrow> 'a result" where
  "each_item f bytes st =
     (if bytes = [] then Inr st
      else if length bytes < 4 then Inl (Undefined_behaviour ''read past the end of a wl_array'')
      else each_item f (drop 4 bytes) (f (le_value (take 4 bytes)) st))"

declare each_item.simps [simp del]

definition state_v6 :: "int \<Rightarrow> int \<Rightarrow> wl_array option \<Rightarrow> toplevel_state result" where
  "state_v6 width height states =
     (case states of
        None \<Rightarrow> Inr (initial_state width height)
      | Some arr \<Rightarrow> each_item switch_v6 arr (initial_state width height))"

definition state_stable :: "int \<Rightarrow> int \<Rightarrow> wl_array option \<Rightarrow> toplevel_state result" where
  "state_stable width height states =
     (case states of
        None \<Rightarrow> Inr (initial_state width height)
      | Some arr \<Rightarrow> each_item switch_stable arr (initial_state width height))"

section \<open>Positioners and popups\<close>

definition positioner_v6_ctor :: "'w libwayland \<Rightarrow> ('w client, handle) eff" where
  "positioner_v6_ctor lib me =
     (case the_xdg_shell_v6 lib me of
        (Inl e, me) \<Rightarrow> (Inl e, me)
      | (Inr sh, me) \<Rightarrow>
          (case call_new lib (New_object ''zxdg_shell_v6_create_positioner'' [sh] []) me of (h, me) \<Rightarrow> (Inr h, me)))"

definition positioner_stable_ctor :: "'w libwayland \<Rightarrow> 'w client \<Rightarrow> handle \<times> 'w client" where
  "positioner_stable_ctor lib me =
     call_new lib (New_object ''xdg_wm_base_create_positioner'' [xdg_shell_stable me] []) me"

text \<open>
  \<open>top_left\<close> and \<open>bottom_right\<close> are the values of the anchor enumeration; the gravity is set with
  the anchor's constant.
\<close>

definition setup_default :: "int \<Rightarrow> int \<Rightarrow> handle \<Rightarrow> int \<times> int \<Rightarrow> 'w client \<Rightarrow> 'w client" where
  "setup_default top_left bottom_right positioner dims me =
     (let me = do_call (Request ''xdg_positioner_set_size'' [positioner] [fst dims, snd dims]) me;
          me = do_call (Request ''xdg_positioner_set_anchor_rect'' [positioner] [0, 0, 1, 1]) me;
          me = do_call (Request ''xdg_positioner_set_anchor'' [positioner] [top_left]) me
      in do_call (Request ''xdg_positioner_set_gravity'' [positioner] [bottom_right]) me)"

definition popup_v6_ctor ::
    "'w libwayland \<Rightarrow> handle \<Rightarrow> handle \<Rightarrow> handle \<Rightarrow> 'w client \<Rightarrow> handle \<times> 'w client" where
  "popup_v6_ctor lib shell_surface parent positioner me =
     (case call_new lib (New_object ''zxdg_surface_v6_get_popup'' [shell_surface, parent, positioner] []) me of
        (popup, me) \<Rightarrow> (popup, do_call (Add_listener ''zxdg_popup_v6'' popup) me))"

definition popup_stable_ctor ::
    "'w libwayland \<Rightarrow> handle \<Rightarrow> handle option \<Rightarrow> handle \<Rightarrow> 'w client \<Rightarrow> handle \<times> 'w client" where
  "popup_stable_ctor lib shell_surface parent positioner me =
     (case call_new lib (New_object ''xdg_surface_get_popup''
             [shell_surface, case parent of None \<Rightarrow> nullptr | Some p \<Rightarrow> p, positioner] []) me of
        (popup, me) \<Rightarrow> (popup, do_call (Add_listener ''xdg_popup'' popup) me))"

definition positioner_v6_destructor :: "handle \<Rightarrow> 'w client \<Rightarrow> 'w client" where
  "positioner_v6_destructor h = do_call (Destroy ''zxdg_positioner_v6'' h)"

definition positioner_stable_destructor :: "handle \<Rightarrow> 'w client \<Rightarrow> 'w client" where
  "positioner_stable_destructor h = do_call (Destroy ''xdg_positioner'' h)"

definition popup_v6_destructor :: "handle \<Rightarrow> 'w client \<Rightarrow> 'w client" where
  "popup_v6_destructor h = do_call (Destroy ''zxdg_popup_v6'' h)"

definition popup_stable_destructor :: "handle \<Rightarrow> 'w client \<Rightarrow> 'w client" where
  "popup_stable_destructor h = do_call (Destroy ''xdg_popup'' h)"

section \<open>Extension objects\<close>

text \<open>
  Each manager binds its global. A manager that cannot be bound throws (and skips or fails the
  test); the object wrappers create, register and destroy. \<open>version\<close> is the
  generated \<^verbatim>\<open>get_version\<close>.
\<close>

definition nth_opt :: "'a list \<Rightarrow> nat \<Rightarrow> 'a option" where
  "nth_opt xs n = (if n < length xs then Some (xs ! n) else None)"

definition manager_ctor :: "'w libwayland \<Rightarrow> string \<Rightarrow> ('w client, handle) eff" where
  "manager_ctor lib name = bind_if_supported lib name AnyVersion"

definition extension_object_ctor ::
    "'w libwayland \<Rightarrow> (handle \<Rightarrow> u32) \<Rightarrow> string \<Rightarrow> string \<Rightarrow> handle list \<Rightarrow> int list \<Rightarrow> 'w client \<Rightarrow>
     (handle \<times> u32) \<times> 'w client" where
  "extension_object_ctor lib version request kind objects args me =
     (case call_new lib (New_object request objects args) me of
        (h, me) \<Rightarrow>
          let me = do_call (Request ''set_user_data'' [h] []) me
          in ((h, version h), do_call (Add_listener kind h) me))"

definition confined_pointer_ctor ::
    "'w libwayland \<Rightarrow> (handle \<Rightarrow> u32) \<Rightarrow> handle \<Rightarrow> handle \<Rightarrow> handle \<Rightarrow> handle \<Rightarrow> u32 \<Rightarrow> 'w client \<Rightarrow>
     (handle \<times> u32) \<times> 'w client" where
  "confined_pointer_ctor lib version manager surface pointer region lifetime =
     extension_object_ctor lib version ''zwp_pointer_constraints_v1_confine_pointer'' ''zwp_confined_pointer_v1''
       [manager, surface, pointer, region] [uint lifetime]"

definition locked_pointer_ctor ::
    "'w libwayland \<Rightarrow> (handle \<Rightarrow> u32) \<Rightarrow> handle \<Rightarrow> handle \<Rightarrow> handle \<Rightarrow> handle \<Rightarrow> u32 \<Rightarrow> 'w client \<Rightarrow>
     (handle \<times> u32) \<times> 'w client" where
  "locked_pointer_ctor lib version manager surface pointer region lifetime =
     extension_object_ctor lib version ''zwp_pointer_constraints_v1_lock_pointer'' ''zwp_locked_pointer_v1''
       [manager, surface, pointer, region] [uint lifetime]"

definition relative_pointer_ctor ::
    "'w libwayland \<Rightarrow> (handle \<Rightarrow> u32) \<Rightarrow> handle \<Rightarrow> handle \<Rightarrow> 'w client \<Rightarrow> (handle \<times> u32) \<times> 'w client" where
  "relative_pointer_ctor lib version manager pointer =
     extension_object_ctor lib version ''zwp_relative_pointer_manager_v1_get_relative_pointer'' ''zwp_relative_pointer_v1''
       [manager, pointer] []"

text \<open>The decoration reads the version of the manager, and before it makes the object.\<close>

definition toplevel_decoration_ctor ::
    "'w libwayland \<Rightarrow> (handle \<Rightarrow> u32) \<Rightarrow> handle \<Rightarrow> handle \<Rightarrow> 'w client \<Rightarrow> (handle \<times> u32) \<times> 'w client" where
  "toplevel_decoration_ctor lib version manager toplevel =
     extension_object_ctor lib (\<lambda>h. version manager) ''zxdg_decoration_manager_v1_get_toplevel_decoration''
       ''zxdg_toplevel_decoration_v1'' [manager, toplevel] []"

definition confined_pointer_destructor :: "handle \<Rightarrow> 'w client \<Rightarrow> 'w client" where
  "confined_pointer_destructor h = do_call (Destroy ''zwp_confined_pointer_v1'' h)"

definition locked_pointer_destructor :: "handle \<Rightarrow> 'w client \<Rightarrow> 'w client" where
  "locked_pointer_destructor h = do_call (Destroy ''zwp_locked_pointer_v1'' h)"

definition relative_pointer_destructor :: "handle \<Rightarrow> 'w client \<Rightarrow> 'w client" where
  "relative_pointer_destructor h = do_call (Destroy ''zwp_relative_pointer_v1'' h)"

definition toplevel_decoration_destructor :: "handle \<Rightarrow> 'w client \<Rightarrow> 'w client" where
  "toplevel_decoration_destructor h = do_call (Destroy ''zxdg_toplevel_decoration_v1'' h)"

text \<open>The managers of the other extensions; pointer constraints are bound by \<open>manager_ctor\<close> itself.\<close>

definition ZwpRelativePointerManagerV1 :: "'w libwayland \<Rightarrow> ('w client, handle) eff" where
  "ZwpRelativePointerManagerV1 lib = manager_ctor lib ''zwp_relative_pointer_manager_v1''"

definition ZxdgDecorationManagerV1 :: "'w libwayland \<Rightarrow> ('w client, handle) eff" where
  "ZxdgDecorationManagerV1 lib = manager_ctor lib ''zxdg_decoration_manager_v1''"

text \<open>
  The listener tables. An event has the number of its place in the protocol and arguments; the
  function at that place calls a mock method with all of them.
\<close>

datatype extension_method =
    Confined | Unconfined
  | Locked | Unlocked
  | Relative_motion u32 u32 int int int int
  | Decoration_configure u32

fun confined_pointer_listener :: "nat \<Rightarrow> extension_method option" where
  "confined_pointer_listener opcode = nth_opt [Confined, Unconfined] opcode"

fun locked_pointer_listener :: "nat \<Rightarrow> extension_method option" where
  "locked_pointer_listener opcode = nth_opt [Locked, Unlocked] opcode"

fun relative_pointer_listener :: "u32 \<Rightarrow> u32 \<Rightarrow> int \<Rightarrow> int \<Rightarrow> int \<Rightarrow> int \<Rightarrow> nat \<Rightarrow> extension_method option" where
  "relative_pointer_listener utime_hi utime_lo dx dy dx_unaccel dy_unaccel opcode =
     nth_opt [Relative_motion utime_hi utime_lo dx dy dx_unaccel dy_unaccel] opcode"

fun toplevel_decoration_listener :: "u32 \<Rightarrow> nat \<Rightarrow> extension_method option" where
  "toplevel_decoration_listener mode opcode = nth_opt [Decoration_configure mode] opcode"

text \<open>\<^verbatim>\<open>XdgToplevelV6\<close>, and the destructors of the objects of both shells.\<close>

definition toplevel_v6_ctor :: "'w libwayland \<Rightarrow> handle \<Rightarrow> 'w client \<Rightarrow> handle \<times> 'w client" where
  "toplevel_v6_ctor lib shell_surface me =
     (case call_new lib (Get_xdg_toplevel ''zxdg_toplevel_v6'' shell_surface) me of
        (h, me) \<Rightarrow> (h, do_call (Add_listener ''zxdg_toplevel_v6'' h) me))"

definition toplevel_v6_destructor :: "handle \<Rightarrow> 'w client \<Rightarrow> 'w client" where
  "toplevel_v6_destructor h = do_call (Destroy ''zxdg_toplevel_v6'' h)"

definition toplevel_stable_destructor :: "handle \<Rightarrow> 'w client \<Rightarrow> 'w client" where
  "toplevel_stable_destructor h = do_call (Destroy ''xdg_toplevel'' h)"

definition surface_stable_destructor :: "handle \<Rightarrow> 'w client \<Rightarrow> 'w client" where
  "surface_stable_destructor h = do_call (Destroy ''xdg_surface'' h)"

section \<open>Layer surfaces\<close>

text \<open>The object is part of the state of the test program, which the events of the client change.\<close>

record 'v layer_world =
  layer_shell :: handle
  layer_surface :: handle
  last_size :: "int \<times> int"
  configure_count :: int
  layer_rest :: 'v

definition layer_surface_ctor ::
    "'v layer_world libwayland \<Rightarrow> handle \<Rightarrow> int \<Rightarrow> handle \<Rightarrow> ('v layer_world client, unit) eff" where
  "layer_surface_ctor lib surface layer out me =
     (case bind_if_supported lib ''zwlr_layer_shell_v1'' AnyVersion me of
        (Inl e, me) \<Rightarrow> (Inl e, me)
      | (Inr sh, me) \<Rightarrow>
          (case call_new lib (New_object ''zwlr_layer_shell_v1_get_layer_surface'' [sh, surface, out] [layer]) me of
             (h, me) \<Rightarrow>
               if h = nullptr
               then (Inl (Logic_error ''Attempt to construct a WlHandle from null Wayland object''),
                     do_call (Destroy ''zwlr_layer_shell_v1'' sh) me)
               else (Inr (), do_call (Add_listener ''zwlr_layer_surface_v1'' h)
                      (me\<lparr>env := (env me)\<lparr>layer_shell := sh, layer_surface := h, last_size := (-1, -1),
                                           configure_count := 0\<rparr>\<rparr>))))"

text \<open>The descriptor's destructor; \<open>since\<close> is \<^verbatim>\<open>ZWLR_LAYER_SHELL_V1_DESTROY_SINCE_VERSION\<close>.\<close>

definition send_destroy_if_supported :: "nat \<Rightarrow> (handle \<Rightarrow> nat) \<Rightarrow> handle \<Rightarrow> 'w client \<Rightarrow> 'w client" where
  "send_destroy_if_supported since version to_destroy =
     (if since \<le> version to_destroy then do_call (Destroy ''zwlr_layer_shell_v1'' to_destroy)
      else do_call (Destroy ''wl_proxy'' to_destroy))"

text \<open>The sizes are unsigned on the wire and converted to \<^verbatim>\<open>int\<close>; the counter is an \<^verbatim>\<open>int\<close>.\<close>

definition layer_configure :: "u32 \<Rightarrow> u32 \<Rightarrow> u32 \<Rightarrow> ('v layer_world client, unit) eff" where
  "layer_configure serial width height me =
     (if configure_count (env me) = 2 ^ 31 - 1 then (Inl (Undefined_behaviour ''overflow of configure_count''), me)
      else (Inr (), do_call (Ack_configure (layer_surface (env me)) serial)
              (me\<lparr>env := (env me)\<lparr>last_size := (sint width, sint height),
                                   configure_count := configure_count (env me) + 1\<rparr>\<rparr>)))"

definition dispatch_until_configure ::
    "'v layer_world libwayland \<Rightarrow> int \<Rightarrow> 'v layer_world client \<Rightarrow> (unit result \<times> 'v layer_world client) option" where
  "dispatch_until_configure lib long_time me =
     (let prev_config_count = configure_count (env me) in
      dispatch_until lib (\<lambda>me. (prev_config_count < configure_count (env me), me)) long_time me)"

section \<open>Dmabuf feedback\<close>

text \<open>What the mock methods of \<^verbatim>\<open>LinuxDmabufFeedbackV1\<close> are called with.\<close>

datatype dmabuf_call =
    Feedback_done
  | Format_table int u32
  | Main_device nat
  | Tranche_done
  | Tranche_target_device nat
  | Tranche_formats "nat list"
  | Tranche_flags u32

datatype dmabuf_event =
    Ev_done
  | Ev_format_table int u32
  | Ev_main_device wl_array
  | Ev_tranche_done
  | Ev_tranche_target_device wl_array
  | Ev_tranche_formats wl_array
  | Ev_tranche_flags u32

text \<open>A \<^verbatim>\<open>dev_t\<close> has eight bytes.\<close>

definition device_number :: "wl_array \<Rightarrow> nat result" where
  "device_number arr =
     (if length arr = 1
      then if length arr < 8 then Inl (Undefined_behaviour ''read past the end of a wl_array'')
           else Inr (le_value (take 8 arr))
      else Inr 0)"

fun u32_items :: "nat \<Rightarrow> byte list \<Rightarrow> nat list" where
  "u32_items 0 bytes = []"
| "u32_items (Suc n) bytes = le_value (take 4 bytes) # u32_items n (drop 4 bytes)"

fun dmabuf_listener :: "dmabuf_event \<Rightarrow> dmabuf_call result" where
  "dmabuf_listener Ev_done = Inr Feedback_done"
| "dmabuf_listener (Ev_format_table fd bytes) = Inr (Format_table fd bytes)"
| "dmabuf_listener (Ev_main_device device) = map_sum id Main_device (device_number device)"
| "dmabuf_listener Ev_tranche_done = Inr Tranche_done"
| "dmabuf_listener (Ev_tranche_target_device device) = map_sum id Tranche_target_device (device_number device)"
| "dmabuf_listener (Ev_tranche_formats indices) = Inr (Tranche_formats (u32_items (length indices div 4) indices))"
| "dmabuf_listener (Ev_tranche_flags flags) = Inr (Tranche_flags flags)"

section \<open>Lemmas\<close>

text \<open>The bytes of an array of 32-bit numbers.\<close>

definition u32_array :: "nat list \<Rightarrow> wl_array" where
  "u32_array vs = concat (map (le_bytes 4) vs)"

lemma u32_array_Nil [simp]: "u32_array [] = []"
  and u32_array_Cons [simp]: "u32_array (v # vs) = le_bytes 4 v @ u32_array vs"
  by (simp_all add: u32_array_def)

lemma each_item_Nil [simp]: "each_item f [] st = Inr st"
  by (simp add: each_item.simps)

lemma le_bytes_4_neq [simp]: "le_bytes 4 v \<noteq> []"
  using length_le_bytes [of 4 v] by (metis length_0_conv zero_neq_numeral)

lemma each_item_array:
  "\<forall>v \<in> set vs. v < 2 ^ 32 \<Longrightarrow> each_item f (u32_array vs) st = Inr (fold f vs st)"
proof (induction vs arbitrary: st)
  case (Cons v vs)
  have "each_item f (u32_array (v # vs)) st = each_item f (u32_array vs) (f (le_value (le_bytes 4 v)) st)"
    by (subst each_item.simps) auto
  with Cons show ?case by (simp add: le_value_le_bytes)
qed simp

lemma each_item_partial:
  assumes "0 < length rest" and "length rest < 4"
  shows "\<exists>msg. each_item f (u32_array vs @ rest) st = Inl (Undefined_behaviour msg)"
proof (induction vs arbitrary: st)
  case Nil
  then show ?case using assms by (subst each_item.simps) auto
next
  case (Cons v vs)
  then show ?case by (subst each_item.simps) simp
qed

lemma u32_items_array: "\<forall>v \<in> set vs. v < 2 ^ 32 \<Longrightarrow> u32_items (length vs) (u32_array vs) = vs"
  by (induction vs) (simp_all add: le_value_le_bytes)

lemma length_u32_array [simp]: "length (u32_array vs) = 4 * length vs"
  by (induction vs) simp_all

lemma switch_stable_eq: "switch_stable = switch_v6"
  by (rule ext)+ (simp add: switch_stable_def switch_v6_def)

lemma fold_switch:
  "fold switch_v6 vs st = st\<lparr>maximized := maximized st \<or> 1 \<in> set vs, fullscreen := fullscreen st \<or> 2 \<in> set vs,
     resizing := resizing st \<or> 3 \<in> set vs, activated := activated st \<or> 4 \<in> set vs\<rparr>"
  by (induction vs arbitrary: st) (auto simp: switch_v6_def state_numbers)

section \<open>Properties\<close>

text \<open>
  Claim C36. Reading the states of a configure event gives back what was encoded: for every list of
  32-bit state numbers (also of states the client does not know) both shells produce the state with
  the given size in which exactly the listed flags are set; without an array all flags are false,
  and an array that ends in the middle of a number is read past its end.
\<close>

theorem toplevel_states_round_trip:
  assumes "\<forall>v \<in> set vs. v < 2 ^ 32" and "0 < length rest" and "length rest < 4"
  shows "state_v6 w h (Some (u32_array vs)) =
      Inr \<lparr>state_width = w, state_height = h, maximized = (1 \<in> set vs), fullscreen = (2 \<in> set vs),
           resizing = (3 \<in> set vs), activated = (4 \<in> set vs)\<rparr> \<and>
    state_stable w h (Some (u32_array vs)) = state_v6 w h (Some (u32_array vs)) \<and>
    state_v6 w h None = state_v6 w h (Some []) \<and>
    (\<exists>msg. state_stable w h (Some (u32_array vs @ rest)) = Inl (Undefined_behaviour msg))"
  using each_item_array [OF assms(1), of switch_v6 "initial_state w h"]
    each_item_partial [OF assms(2,3), of switch_v6 vs "initial_state w h"]
  by (simp add: state_v6_def state_stable_def switch_stable_eq fold_switch) (simp add: initial_state_def)

theorem toplevel_states_round_trip_witness:
  "state_stable 640 480 (Some (u32_array [4, 1, 9])) =
     Inr \<lparr>state_width = 640, state_height = 480, maximized = True, fullscreen = False, resizing = False, activated = True\<rparr>"
  using toplevel_states_round_trip [of "[4, 1, 9]" "[0]" 640 480] by simp

text \<open>
  The device numbers of dmabuf feedback are lost: an array that holds a device number
  (eight bytes), like every array of another size than one byte, is reported as device 0, both for
  the main device and for the target device of a tranche, and an array of one byte is read past
  its end. The formats of a tranche, in contrast, are reported as they were sent.
\<close>

theorem dmabuf_device_numbers_are_lost:
  assumes "\<forall>v \<in> set vs. v < 2 ^ 32"
  shows "dmabuf_listener (Ev_main_device (le_bytes 8 dev)) = Inr (Main_device 0) \<and>
    dmabuf_listener (Ev_tranche_target_device (le_bytes 8 dev)) = Inr (Tranche_target_device 0) \<and>
    (\<exists>msg. dmabuf_listener (Ev_main_device [b]) = Inl (Undefined_behaviour msg)) \<and>
    dmabuf_listener (Ev_tranche_formats (u32_array vs)) = Inr (Tranche_formats vs)"
  using u32_items_array [OF assms] by (simp add: device_number_def)

theorem dmabuf_device_numbers_are_lost_witness:
  "dmabuf_listener (Ev_main_device (le_bytes 8 66306)) = Inr (Main_device 0) \<and>
   dmabuf_listener (Ev_tranche_formats (u32_array [3, 5])) = Inr (Tranche_formats [3, 5])"
  using dmabuf_device_numbers_are_lost [of "[3, 5]" 66306 0] by simp

text \<open>
  Waiting for a layer surface to be configured: when \<^verbatim>\<open>dispatch_until_configure\<close> returns
  without an exception the count of configure events is greater than it was, and each such event
  acknowledges its serial, stores the size it carried and raises the count by one, as long as the
  count has not reached the greatest \<^verbatim>\<open>int\<close>.
\<close>

theorem layer_surface_waits_for_configure:
  assumes "dispatch_until_configure lib long_time me = Some (Inr (), me')"
    and "configure_count (env me') < 2 ^ 31 - 1"
  shows "configure_count (env me) < configure_count (env me') \<and>
    layer_configure serial width height me' =
      (Inr (), me'\<lparr>calls := calls me' @ [Ack_configure (layer_surface (env me')) serial],
         env := (env me')\<lparr>last_size := (sint width, sint height), configure_count := configure_count (env me') + 1\<rparr>\<rparr>)"
proof
  let ?P = "\<lambda>m. (configure_count (env me) < configure_count (env m), m)"
  obtain me0 where "?P me0 = (True, me')"
    using assms(1) dispatch_loop_Inr [of lib ?P]
    by (fastforce simp: dispatch_until_configure_def dispatch_until_def Let_def split: prod.splits)
  then show "configure_count (env me) < configure_count (env me')" by auto
  show "layer_configure serial width height me' =
      (Inr (), me'\<lparr>calls := calls me' @ [Ack_configure (layer_surface (env me')) serial],
         env := (env me')\<lparr>last_size := (sint width, sint height), configure_count := configure_count (env me') + 1\<rparr>\<rparr>)"
    using assms(2) by (simp add: layer_configure_def do_call_def)
qed

definition layer_client :: "unit layer_world client" where
  "layer_client = new_client None
     \<lparr>layer_shell = Some 1, layer_surface = Some 2, last_size = (-1, -1), configure_count = 0, layer_rest = ()\<rparr>"

definition configuring_lib :: "unit layer_world libwayland" where
  "configuring_lib = ok_lib (\<lambda>w. w\<lparr>configure_count := configure_count w + 1\<rparr>) configure_count"

theorem layer_surface_waits_for_configure_witness:
  "\<exists>me'. dispatch_until_configure configuring_lib 10 layer_client = Some (Inr (), me') \<and>
    configure_count (env layer_client) < configure_count (env me')"
proof -
  let ?me = "layer_client\<lparr>env := (env layer_client)\<lparr>configure_count := 1\<rparr>\<rparr>"
  have run: "dispatch_until_configure configuring_lib 10 layer_client = Some (Inr (), ?me)"
    using ok_lib_one_turn [of "\<lambda>w. 0 < configure_count w" layer_client "\<lambda>w. w\<lparr>configure_count := configure_count w + 1\<rparr>" 10 configure_count]
    by (simp add: dispatch_until_configure_def configuring_lib_def layer_client_def new_client_def)
  from layer_surface_waits_for_configure [OF run] run show ?thesis
    by (auto simp: layer_client_def new_client_def)
qed

end
