(* ===== verification/Shared_Owner.thy ===== *)
theory Shared_Owner
  imports Prelude "HOL-Library.Multiset"
begin

text \<open>
  The wrappers around a \<^verbatim>\<open>std::shared_ptr\<close> with a deleter: \<^verbatim>\<open>DataSource\<close> and \<^verbatim>\<open>DataDevice\<close> of
  \<^verbatim>\<open>include/data_device.h\<close>, \<^verbatim>\<open>PrimarySelectionSource\<close> and \<^verbatim>\<open>PrimarySelectionDevice\<close> of
  \<^verbatim>\<open>include/primary_selection.h\<close>, and their counterparts of \<^verbatim>\<open>include/gtk_primary_selection.h\<close>.
  The wrappers of a program are objects at addresses. A wrapper points to a control block, which
  has the Wayland object and the number of wrappers that share it; the requests that destroy
  objects are recorded in order.
\<close>

section \<open>State\<close>

datatype owner_class =
    DataSource_class | DataDevice_class
  | PrimarySelectionSource_class | PrimarySelectionDevice_class
  | GtkPrimarySelectionSource_class | GtkPrimarySelectionDevice_class

text \<open>The function \<^verbatim>\<open>deleter\<close> of each class makes one request.\<close>

fun deleter :: "owner_class \<Rightarrow> handle \<Rightarrow> string \<times> handle" where
  "deleter DataSource_class p = (''wl_data_source_destroy'', p)"
| "deleter DataDevice_class p = (''wl_data_device_destroy'', p)"
| "deleter PrimarySelectionSource_class p = (''zwp_primary_selection_source_v1_destroy'', p)"
| "deleter PrimarySelectionDevice_class p = (''zwp_primary_selection_device_v1_destroy'', p)"
| "deleter GtkPrimarySelectionSource_class p = (''gtk_primary_selection_source_destroy'', p)"
| "deleter GtkPrimarySelectionDevice_class p = (''gtk_primary_selection_device_destroy'', p)"

record control_block =
  block_class :: owner_class
  managed :: handle
  use_count :: nat

text \<open>
  \<open>self_at\<close>: no wrapper at the address, an empty one (\<open>Some None\<close>), or one with a control block.
\<close>

record owner_store =
  self_at :: "nat \<rightharpoonup> nat option"
  block_at :: "nat \<rightharpoonup> control_block"
  next_block :: nat
  deleted :: "(string \<times> handle) list"
  source_listeners :: "(handle \<times> nat) list"

definition no_owners :: owner_store where
  "no_owners = \<lparr>self_at = Map.empty, block_at = Map.empty, next_block = 0, deleted = [], source_listeners = []\<rparr>"

section \<open>\<^verbatim>\<open>std::shared_ptr\<close>\<close>

text \<open>Taking and giving up a share of a control block; the last one calls the deleter.\<close>

definition share :: "nat option \<Rightarrow> owner_store \<Rightarrow> owner_store" where
  "share b st =
     (case b of
        None \<Rightarrow> st
      | Some i \<Rightarrow>
          st\<lparr>block_at := (block_at st)(i := map_option (\<lambda>c. c\<lparr>use_count := use_count c + 1\<rparr>) (block_at st i))\<rparr>)"

definition unshare :: "nat option \<Rightarrow> owner_store \<Rightarrow> owner_store" where
  "unshare b st =
     (case b of
        None \<Rightarrow> st
      | Some i \<Rightarrow>
          (case block_at st i of
             None \<Rightarrow> st
           | Some c \<Rightarrow>
               if use_count c = 1
               then st\<lparr>block_at := (block_at st)(i := None), deleted := deleted st @ [deleter (block_class c) (managed c)]\<rparr>
               else st\<lparr>block_at := (block_at st)(i \<mapsto> c\<lparr>use_count := use_count c - 1\<rparr>)\<rparr>))"

definition point_to :: "nat \<Rightarrow> nat option \<Rightarrow> owner_store \<Rightarrow> owner_store" where
  "point_to this b st = st\<lparr>self_at := (self_at st)(this \<mapsto> b)\<rparr>"

definition new_block :: "owner_class \<Rightarrow> handle \<Rightarrow> owner_store \<Rightarrow> nat option \<times> owner_store" where
  "new_block cls p st =
     (Some (next_block st),
      st\<lparr>block_at := (block_at st)(next_block st \<mapsto> \<lparr>block_class = cls, managed = p, use_count = 1\<rparr>),
         next_block := next_block st + 1\<rparr>)"

section \<open>The wrappers\<close>

definition owner_default :: "nat \<Rightarrow> owner_store \<Rightarrow> owner_store" where
  "owner_default this = point_to this None"

definition owner_ctor :: "owner_class \<Rightarrow> nat \<Rightarrow> handle \<Rightarrow> owner_store \<Rightarrow> owner_store" where
  "owner_ctor cls this p st = (case new_block cls p st of (b, st) \<Rightarrow> point_to this b st)"

text \<open>
  \<^verbatim>\<open>self.reset()\<close> and \<^verbatim>\<open>self.reset(p, deleter)\<close>: the new pointer is in place before the old one is
  given up.
\<close>

definition owner_reset :: "nat \<Rightarrow> owner_store \<Rightarrow> owner_store" where
  "owner_reset this st =
     (case self_at st this of None \<Rightarrow> st | Some old \<Rightarrow> unshare old (point_to this None st))"

definition owner_reset_to :: "owner_class \<Rightarrow> nat \<Rightarrow> handle \<Rightarrow> owner_store \<Rightarrow> owner_store" where
  "owner_reset_to cls this p st =
     (case self_at st this of
        None \<Rightarrow> st
      | Some old \<Rightarrow> (case new_block cls p st of (b, st) \<Rightarrow> unshare old (point_to this b st)))"

definition owner_get :: "nat \<Rightarrow> owner_store \<Rightarrow> handle" where
  "owner_get this st =
     (case self_at st this of
        Some (Some i) \<Rightarrow> (case block_at st i of None \<Rightarrow> nullptr | Some c \<Rightarrow> managed c)
      | _ \<Rightarrow> nullptr)"

text \<open>The operations that the compiler adds.\<close>

definition owner_copy :: "nat \<Rightarrow> nat \<Rightarrow> owner_store \<Rightarrow> owner_store" where
  "owner_copy this from st =
     (case self_at st from of None \<Rightarrow> st | Some b \<Rightarrow> point_to this b (share b st))"

definition owner_move :: "nat \<Rightarrow> nat \<Rightarrow> owner_store \<Rightarrow> owner_store" where
  "owner_move this from st =
     (case self_at st from of None \<Rightarrow> st | Some b \<Rightarrow> point_to from None (point_to this b st))"

definition owner_assign :: "nat \<Rightarrow> nat \<Rightarrow> owner_store \<Rightarrow> owner_store" where
  "owner_assign this from st =
     (case (self_at st this, self_at st from) of
        (Some old, Some b) \<Rightarrow> unshare old (point_to this b (share b st))
      | _ \<Rightarrow> st)"

definition owner_destructor :: "nat \<Rightarrow> owner_store \<Rightarrow> owner_store" where
  "owner_destructor this st =
     (case self_at st this of
        None \<Rightarrow> st
      | Some old \<Rightarrow> unshare old (st\<lparr>self_at := (self_at st)(this := None)\<rparr>))"

text \<open>The constructors of the classes; \<open>request\<close> is the request that makes a new object.\<close>

definition DataSource :: "nat \<Rightarrow> handle \<Rightarrow> owner_store \<Rightarrow> owner_store" where
  "DataSource this ds st =
     (let st = owner_ctor DataSource_class this ds st
      in st\<lparr>source_listeners := source_listeners st @ [(ds, this)]\<rparr>)"

text \<open>The listener it adds ignores every event except \<^verbatim>\<open>send\<close>, which it passes to the method.\<close>

datatype data_source_event =
    Target "string option" | Send string int | Cancelled | Dnd_drop_performed | Dnd_finished | Action u32

fun data_source_listener :: "data_source_event \<Rightarrow> (string \<times> int) option" where
  "data_source_listener (Send mime_type fd) = Some (mime_type, fd)"
| "data_source_listener _ = None"

definition DataDevice :: "nat \<Rightarrow> handle \<Rightarrow> owner_store \<Rightarrow> owner_store" where
  "DataDevice this dd = owner_ctor DataDevice_class this dd"

definition PrimarySelectionSource :: "(handle \<Rightarrow> handle) \<Rightarrow> nat \<Rightarrow> handle \<Rightarrow> owner_store \<Rightarrow> owner_store" where
  "PrimarySelectionSource create_source this manager =
     owner_ctor PrimarySelectionSource_class this (create_source manager)"

definition PrimarySelectionDevice ::
    "(handle \<Rightarrow> handle \<Rightarrow> handle) \<Rightarrow> nat \<Rightarrow> handle \<Rightarrow> handle \<Rightarrow> owner_store \<Rightarrow> owner_store" where
  "PrimarySelectionDevice get_device this manager seat =
     owner_ctor PrimarySelectionDevice_class this (get_device manager seat)"

definition GtkPrimarySelectionSource :: "(handle \<Rightarrow> handle) \<Rightarrow> nat \<Rightarrow> handle \<Rightarrow> owner_store \<Rightarrow> owner_store" where
  "GtkPrimarySelectionSource create_source this manager =
     owner_ctor GtkPrimarySelectionSource_class this (create_source manager)"

definition GtkPrimarySelectionDevice ::
    "(handle \<Rightarrow> handle \<Rightarrow> handle) \<Rightarrow> nat \<Rightarrow> handle \<Rightarrow> handle \<Rightarrow> owner_store \<Rightarrow> owner_store" where
  "GtkPrimarySelectionDevice get_device this manager seat =
     owner_ctor GtkPrimarySelectionDevice_class this (get_device manager seat)"

section \<open>Lemmas\<close>

definition refs :: "(nat \<rightharpoonup> nat option) \<Rightarrow> nat \<Rightarrow> nat" where
  "refs f i = card {a. f a = Some (Some i)}"

lemma refs_finite: "finite (dom f) \<Longrightarrow> finite {a. f a = Some (Some i)}"
  by (rule finite_subset [of _ "dom f"]) auto

lemma refs_upd:
  assumes "finite (dom f)"
  shows "refs (f(this := v)) i + of_bool (f this = Some (Some i)) = refs f i + of_bool (v = Some (Some i))"
proof -
  let ?A = "{a. a \<noteq> this \<and> f a = Some (Some i)}"
  have fin: "finite ?A" by (rule finite_subset [OF _ refs_finite [OF assms, of i]]) auto
  have "refs g i = card ?A + of_bool (g this = Some (Some i))" if "\<And>a. a \<noteq> this \<Longrightarrow> g a = f a" for g
  proof (cases "g this = Some (Some i)")
    case True
    then have "{a. g a = Some (Some i)} = insert this ?A" using that by auto
    with True fin show ?thesis by (simp add: refs_def)
  next
    case False
    then have "{a. g a = Some (Some i)} = ?A" using that by (metis (lifting))
    with False show ?thesis by (simp add: refs_def)
  qed
  from this [of f] this [of "f(this := v)"] show ?thesis by simp
qed

text \<open>
  The invariant, in the middle of an operation: \<open>X\<close> are the shares that the operation holds itself.
  Every control block counts the wrappers and these shares, and no block is left without a share;
  what was given to the wrappers is in a block or has been deleted, with multiplicity.
\<close>

definition bag :: "nat option \<Rightarrow> nat multiset" where
  "bag b = (case b of None \<Rightarrow> {#} | Some i \<Rightarrow> {#i#})"

lemma bag_simps [simp]: "bag None = {#}" "bag (Some i) = {#i#}"
  by (simp_all add: bag_def)

definition in_blocks :: "owner_store \<Rightarrow> (string \<times> handle) multiset" where
  "in_blocks st =
     image_mset (\<lambda>i. deleter (block_class (the (block_at st i))) (managed (the (block_at st i)))) (mset_set (dom (block_at st)))"

definition counted :: "owner_store \<Rightarrow> nat multiset \<Rightarrow> nat \<Rightarrow> bool" where
  "counted st X i \<longleftrightarrow>
     refs (self_at st) i + count X i = (case block_at st i of None \<Rightarrow> 0 | Some c \<Rightarrow> use_count c) \<and>
     (\<forall>c. block_at st i = Some c \<longrightarrow> 0 < use_count c)"

definition owners_ok :: "owner_store \<Rightarrow> nat multiset \<Rightarrow> (owner_class \<times> handle) list \<Rightarrow> bool" where
  "owners_ok st X given \<longleftrightarrow>
     finite (dom (self_at st)) \<and> finite (dom (block_at st)) \<and> (\<forall>i \<in> dom (block_at st). i < next_block st) \<and>
     (\<forall>i. counted st X i) \<and>
     in_blocks st + mset (deleted st) = mset (map (\<lambda>(cls, p). deleter cls p) given)"

lemma owners_ok_block:
  assumes "owners_ok st X given" and "0 < refs (self_at st) i + count X i"
  obtains c where "block_at st i = Some c" and "use_count c = refs (self_at st) i + count X i"
proof -
  have "counted st X i" using assms(1) by (simp add: owners_ok_def)
  with assms(2) that show ?thesis by (cases "block_at st i") (auto simp: counted_def count_eq_zero_iff)
qed

lemma in_blocks_count:
  assumes "block_at st i = Some c"
  shows "in_blocks (st\<lparr>block_at := (block_at st)(i \<mapsto> c\<lparr>use_count := n\<rparr>)\<rparr>) = in_blocks st"
proof -
  have "dom ((block_at st)(i \<mapsto> c\<lparr>use_count := n\<rparr>)) = dom (block_at st)" using assms by auto
  then show ?thesis using assms by (auto simp: in_blocks_def intro!: image_mset_cong)
qed

lemma in_blocks_remove:
  assumes "block_at st i = Some c" and "finite (dom (block_at st))"
  shows "add_mset (deleter (block_class c) (managed c)) (in_blocks (st\<lparr>block_at := (block_at st)(i := None)\<rparr>)) = in_blocks st"
proof -
  have "mset_set (dom (block_at st)) = add_mset i (mset_set (dom (block_at st) - {i}))"
    using assms by (simp add: domI mset_set.remove)
  then have "in_blocks st = add_mset (deleter (block_class c) (managed c))
      (image_mset (\<lambda>j. deleter (block_class (the (block_at st j))) (managed (the (block_at st j)))) (mset_set (dom (block_at st) - {i})))"
    using assms(1) by (simp add: in_blocks_def)
  moreover have "in_blocks (st\<lparr>block_at := (block_at st)(i := None)\<rparr>) =
      image_mset (\<lambda>j. deleter (block_class (the (block_at st j))) (managed (the (block_at st j)))) (mset_set (dom (block_at st) - {i}))"
    using assms(2) by (auto simp: in_blocks_def intro!: image_mset_cong)
  ultimately show ?thesis by simp
qed

lemma owners_okI:
  assumes "finite (dom (self_at st))" and "finite (dom (block_at st))"
    and "\<And>i. i \<in> dom (block_at st) \<Longrightarrow> i < next_block st" and "\<And>i. counted st X i"
    and "in_blocks st + mset (deleted st) = mset (map (\<lambda>(cls, p). deleter cls p) given)"
  shows "owners_ok st X given"
  using assms by (auto simp: owners_ok_def)

lemma owners_okD:
  assumes "owners_ok st X given"
  shows "finite (dom (self_at st))" and "finite (dom (block_at st))"
    and "\<And>i. i \<in> dom (block_at st) \<Longrightarrow> i < next_block st" and "\<And>i. counted st X i"
    and "in_blocks st + mset (deleted st) = mset (map (\<lambda>(cls, p). deleter cls p) given)"
  using assms by (auto simp: owners_ok_def)

text \<open>The shares of the operation, one primitive at a time.\<close>

lemma share_ok:
  assumes "owners_ok st X given" and "\<And>i. b = Some i \<Longrightarrow> 0 < refs (self_at st) i"
  shows "owners_ok (share b st) (X + bag b) given"
proof (cases b)
  case None
  with assms show ?thesis by (simp add: share_def)
next
  case (Some i)
  then obtain c where c: "block_at st i = Some c" "use_count c = refs (self_at st) i + count X i"
    using owners_ok_block [OF assms(1), of i] assms(2) by auto
  then have st': "share (Some i) st = st\<lparr>block_at := (block_at st)(i \<mapsto> c\<lparr>use_count := use_count c + 1\<rparr>)\<rparr>"
    by (simp add: share_def)
  note D = owners_okD [OF assms(1)]
  have "counted (share b st) (X + bag b) j" for j
    using D(4) [of j] c by (cases "j = i") (simp_all add: st' counted_def Some)
  moreover have "in_blocks (share b st) + mset (deleted (share b st)) = mset (map (\<lambda>(cls, p). deleter cls p) given)"
    using D(5) in_blocks_count [OF c(1)] by (simp add: st' Some)
  ultimately show ?thesis using D(1-3) c(1) by (intro owners_okI) (auto simp: st' Some)
qed

lemma unshare_ok:
  assumes "owners_ok st (X + bag b) given"
  shows "owners_ok (unshare b st) X given"
proof (cases b)
  case None
  with assms show ?thesis by (simp add: unshare_def)
next
  case (Some i)
  then obtain c where c: "block_at st i = Some c" "use_count c = refs (self_at st) i + count X i + 1"
    using owners_ok_block [OF assms, of i] by auto
  note D = owners_okD [OF assms]
  show ?thesis
  proof (cases "use_count c = 1")
    case True
    then have st': "unshare (Some i) st =
        st\<lparr>block_at := (block_at st)(i := None), deleted := deleted st @ [deleter (block_class c) (managed c)]\<rparr>"
      by (simp add: unshare_def c)
    have "in_blocks (unshare b st) = in_blocks (st\<lparr>block_at := (block_at st)(i := None)\<rparr>)"
      by (simp add: st' Some in_blocks_def)
    then have cons: "in_blocks (unshare b st) + mset (deleted (unshare b st)) = mset (map (\<lambda>(cls, p). deleter cls p) given)"
      using D(5) unfolding in_blocks_remove [OF c(1) D(2), symmetric] by (simp add: st' Some)
    have "counted (unshare b st) X j" for j
      using D(4) [of j] c True by (cases "j = i") (simp_all add: st' counted_def Some)
    with cons show ?thesis using D(1-3) by (intro owners_okI) (auto simp: st' Some)
  next
    case False
    then have st': "unshare (Some i) st = st\<lparr>block_at := (block_at st)(i \<mapsto> c\<lparr>use_count := use_count c - 1\<rparr>)\<rparr>"
      by (simp add: unshare_def c(1))
    have "counted (unshare b st) X j" for j
      using D(4) [of j] c False by (cases "j = i") (auto simp: st' counted_def Some)
    moreover have "in_blocks (unshare b st) + mset (deleted (unshare b st)) = mset (map (\<lambda>(cls, p). deleter cls p) given)"
      using D(5) in_blocks_count [OF c(1)] by (simp add: st' Some)
    ultimately show ?thesis using D(1-3) c(1) by (intro owners_okI) (auto simp: st' Some)
  qed
qed

lemma point_to_ok:
  assumes "owners_ok st (X + bag b) given"
  shows "owners_ok (point_to this b st) (X + (case self_at st this of None \<Rightarrow> {#} | Some old \<Rightarrow> bag old)) given"
proof -
  note D = owners_okD [OF assms]
  let ?Y = "X + (case self_at st this of None \<Rightarrow> {#} | Some old \<Rightarrow> bag old)"
  have old: "count (case self_at st this of None \<Rightarrow> {#} | Some old \<Rightarrow> bag old) i = of_bool (self_at st this = Some (Some i))"
    and new: "count (bag b) i = of_bool (b = Some i)" for i
    by (auto simp: bag_def split: option.splits)
  have "counted (point_to this b st) ?Y i" for i
    using D(4) [of i] refs_upd [OF D(1), of this "Some b" i] old [of i] new [of i]
    by (auto simp: counted_def point_to_def)
  moreover have "in_blocks (point_to this b st) = in_blocks st"
    by (simp add: in_blocks_def point_to_def)
  ultimately show ?thesis using D by (intro owners_okI) (auto simp: point_to_def)
qed

lemma forget_ok:
  assumes "owners_ok st X given" and "self_at st this = Some old"
  shows "owners_ok (st\<lparr>self_at := (self_at st)(this := None)\<rparr>) (X + bag old) given"
proof -
  note D = owners_okD [OF assms(1)]
  have "count (bag old) i = of_bool (self_at st this = Some (Some i))" for i
    using assms(2) by (auto simp: bag_def split: option.splits)
  then have "counted (st\<lparr>self_at := (self_at st)(this := None)\<rparr>) (X + bag old) i" for i
    using D(4) [of i] refs_upd [OF D(1), of this None i] by (auto simp: counted_def)
  moreover have "in_blocks (st\<lparr>self_at := (self_at st)(this := None)\<rparr>) = in_blocks st"
    by (simp add: in_blocks_def)
  moreover have "finite (dom ((self_at st)(this := None)))" using D(1) by simp
  ultimately show ?thesis using D by (intro owners_okI) auto
qed

lemma new_block_ok:
  assumes "owners_ok st X given" and "new_block cls p st = (b, st')"
  shows "owners_ok st' (X + bag b) ((cls, p) # given)"
proof -
  note D = owners_okD [OF assms(1)]
  let ?i = "next_block st" and ?c = "\<lparr>block_class = cls, managed = p, use_count = 1\<rparr>"
  have b: "b = Some ?i" and st': "st' = st\<lparr>block_at := (block_at st)(?i \<mapsto> ?c), next_block := ?i + 1\<rparr>"
    using assms(2) by (simp_all add: new_block_def)
  have fresh: "block_at st ?i = None" using D(3) [of ?i] by (cases "block_at st ?i") auto
  have "counted st' (X + bag b) j" for j
    using D(4) [of j] fresh by (cases "j = ?i") (simp_all add: counted_def st' b)
  moreover have "in_blocks st' = add_mset (deleter cls p) (in_blocks st)"
  proof -
    have "st'\<lparr>block_at := (block_at st')(?i := None)\<rparr> = st\<lparr>next_block := ?i + 1\<rparr>"
      using fresh by (simp add: st' fun_upd_idem)
    then show ?thesis
      using in_blocks_remove [of st' ?i ?c] D(2) by (simp add: st' in_blocks_def)
  qed
  ultimately show ?thesis using D by (intro owners_okI) (auto simp: st' intro: less_SucI)
qed

text \<open>The operations, composed of the primitives.\<close>

lemma owner_default_ok:
  "owners_ok st {#} given \<Longrightarrow> self_at st this = None \<Longrightarrow> owners_ok (owner_default this st) {#} given"
  using point_to_ok [of st "{#}" None given this] by (simp add: owner_default_def)

lemma owner_ctor_ok:
  assumes "owners_ok st {#} given" and "self_at st this = None"
  shows "owners_ok (owner_ctor cls this p st) {#} ((cls, p) # given)"
proof -
  obtain b st' where n: "new_block cls p st = (b, st')" by fastforce
  then have "self_at st' = self_at st" by (auto simp: new_block_def)
  with point_to_ok [OF new_block_ok [OF assms(1) n], of this] assms(2) n show ?thesis
    by (simp add: owner_ctor_def)
qed

lemma owner_reset_ok:
  "owners_ok st {#} given \<Longrightarrow> owners_ok (owner_reset this st) {#} given"
  using point_to_ok [of st "{#}" None given this] unshare_ok [of "point_to this None st" "{#}" _ given]
  by (auto simp: owner_reset_def split: option.splits)

lemma owner_reset_to_ok:
  assumes "owners_ok st {#} given" and "self_at st this = Some old"
  shows "owners_ok (owner_reset_to cls this p st) {#} ((cls, p) # given)"
proof -
  obtain b st' where n: "new_block cls p st = (b, st')" by fastforce
  then have "self_at st' = self_at st" by (auto simp: new_block_def)
  with point_to_ok [OF new_block_ok [OF assms(1) n], of this] assms(2)
  have "owners_ok (point_to this b st') ({#} + bag old) ((cls, p) # given)" by simp
  from unshare_ok [OF this] assms(2) n show ?thesis by (simp add: owner_reset_to_def)
qed

lemma pointed_to:
  "owners_ok st X given \<Longrightarrow> self_at st a = Some (Some i) \<Longrightarrow> 0 < refs (self_at st) i"
  using refs_finite [of "self_at st" i] by (auto simp: refs_def card_gt_0_iff owners_ok_def)

lemma self_at_share [simp]: "self_at (share b st) = self_at st"
  by (simp add: share_def split: option.split)

lemma owner_copy_ok:
  assumes "owners_ok st {#} given" and "self_at st this = None"
  shows "owners_ok (owner_copy this from st) {#} given"
proof (cases "self_at st from")
  case (Some b)
  with share_ok [OF assms(1), of b] pointed_to [OF assms(1), of "from"]
  have "owners_ok (share b st) ({#} + bag b) given" by auto
  from point_to_ok [OF this, of this] assms(2) Some show ?thesis by (simp add: owner_copy_def)
qed (simp add: owner_copy_def assms)

lemma owner_assign_ok:
  assumes "owners_ok st {#} given"
  shows "owners_ok (owner_assign this from st) {#} given"
proof (cases "self_at st this")
  case (Some old)
  show ?thesis
  proof (cases "self_at st from")
    case (Some b)
    with share_ok [OF assms, of b] pointed_to [OF assms, of "from"]
    have "owners_ok (share b st) ({#} + bag b) given" by auto
    from unshare_ok [of _ "{#}", OF point_to_ok [OF this, of this, unfolded self_at_share \<open>self_at st this = Some old\<close> option.case]] Some
      \<open>self_at st this = Some old\<close>
    show ?thesis by (simp add: owner_assign_def)
  qed (simp add: owner_assign_def assms Some)
qed (simp add: owner_assign_def assms)

lemma owner_move_ok:
  assumes "owners_ok st {#} given" and "self_at st this = None" and "this \<noteq> from"
  shows "owners_ok (owner_move this from st) {#} given"
proof (cases "self_at st from")
  case (Some b)
  have "owners_ok (point_to from None st) ({#} + bag b) given"
    using point_to_ok [of st "{#}" None given "from"] assms(1) Some by simp
  from point_to_ok [OF this, of this] assms(2,3)
  have "owners_ok (point_to this b (point_to from None st)) {#} given" by (simp add: point_to_def)
  moreover have "point_to this b (point_to from None st) = point_to from None (point_to this b st)"
    using assms(3) by (simp add: point_to_def fun_upd_twist)
  ultimately show ?thesis using Some by (simp add: owner_move_def)
qed (simp add: owner_move_def assms)

lemma owner_destructor_ok:
  assumes "owners_ok st {#} given"
  shows "owners_ok (owner_destructor this st) {#} given"
proof (cases "self_at st this")
  case (Some old)
  from unshare_ok [OF forget_ok [OF assms Some]] Some show ?thesis by (simp add: owner_destructor_def)
qed (simp add: owner_destructor_def assms)

lemma DataSource_ok:
  assumes "owners_ok st {#} given" and "self_at st this = None"
  shows "owners_ok (DataSource this ds st) {#} ((DataSource_class, ds) # given)"
proof -
  have "owners_ok (st'\<lparr>source_listeners := l\<rparr>) X gs \<longleftrightarrow> owners_ok st' X gs" for st' l X gs
    by (simp add: owners_ok_def counted_def in_blocks_def)
  with owner_ctor_ok [OF assms] show ?thesis by (simp add: DataSource_def Let_def)
qed

text \<open>
  The life of wrappers in a program: they are made in free memory, reset, copied, moved, assigned and
  destroyed. The list collects the objects that were given to them, last first.
\<close>

inductive owner_history :: "owner_store \<Rightarrow> (owner_class \<times> handle) list \<Rightarrow> bool" where
  Start: "owner_history no_owners []"
| Default: "owner_history st given \<Longrightarrow> self_at st this = None \<Longrightarrow> owner_history (owner_default this st) given"
| Source: "owner_history st given \<Longrightarrow> self_at st this = None \<Longrightarrow>
    owner_history (DataSource this ds st) ((DataSource_class, ds) # given)"
| Device: "owner_history st given \<Longrightarrow> self_at st this = None \<Longrightarrow>
    owner_history (DataDevice this dd st) ((DataDevice_class, dd) # given)"
| Primary_source: "owner_history st given \<Longrightarrow> self_at st this = None \<Longrightarrow>
    owner_history (PrimarySelectionSource create this manager st) ((PrimarySelectionSource_class, create manager) # given)"
| Primary_device: "owner_history st given \<Longrightarrow> self_at st this = None \<Longrightarrow>
    owner_history (PrimarySelectionDevice get this manager seat st) ((PrimarySelectionDevice_class, get manager seat) # given)"
| Gtk_source: "owner_history st given \<Longrightarrow> self_at st this = None \<Longrightarrow>
    owner_history (GtkPrimarySelectionSource create this manager st) ((GtkPrimarySelectionSource_class, create manager) # given)"
| Gtk_device: "owner_history st given \<Longrightarrow> self_at st this = None \<Longrightarrow>
    owner_history (GtkPrimarySelectionDevice get this manager seat st) ((GtkPrimarySelectionDevice_class, get manager seat) # given)"
| Reset: "owner_history st given \<Longrightarrow> owner_history (owner_reset this st) given"
| Reset_to: "owner_history st given \<Longrightarrow> self_at st this = Some old \<Longrightarrow>
    owner_history (owner_reset_to cls this p st) ((cls, p) # given)"
| Copy: "owner_history st given \<Longrightarrow> self_at st this = None \<Longrightarrow> owner_history (owner_copy this from st) given"
| Move: "owner_history st given \<Longrightarrow> self_at st this = None \<Longrightarrow> this \<noteq> from \<Longrightarrow>
    owner_history (owner_move this from st) given"
| Assign: "owner_history st given \<Longrightarrow> owner_history (owner_assign this from st) given"
| Destroy: "owner_history st given \<Longrightarrow> owner_history (owner_destructor this st) given"

lemma no_owners_ok [simp]: "owners_ok no_owners {#} []"
  by (rule owners_okI) (simp_all add: no_owners_def counted_def refs_def in_blocks_def)

lemma owner_history_ok: "owner_history st given \<Longrightarrow> owners_ok st {#} given"
  by (induction rule: owner_history.induct)
    (simp_all add: owner_default_ok DataSource_ok DataDevice_def PrimarySelectionSource_def
      PrimarySelectionDevice_def GtkPrimarySelectionSource_def GtkPrimarySelectionDevice_def owner_ctor_ok
      owner_reset_ok owner_reset_to_ok owner_copy_ok owner_move_ok owner_assign_ok owner_destructor_ok)

lemma no_wrapper_no_block:
  assumes "owners_ok st {#} given" and "self_at st = Map.empty"
  shows "block_at st = Map.empty"
proof
  fix i
  show "block_at st i = None"
    using owners_okD(4) [OF assms(1), of i] assms(2)
    by (cases "block_at st i") (auto simp: counted_def refs_def)
qed

section \<open>Properties\<close>



end
