(* ===== verification/Geometry.thy ===== *)
theory Geometry
  imports Prelude "HOL-Library.Signed_Division"
begin

text \<open>
  The geometry types of \<^verbatim>\<open>include/geometry\<close>, in their \<^verbatim>\<open>int\<close> instance, which is the one that
  \<^verbatim>\<open>Point\<close>, \<^verbatim>\<open>Size\<close>, \<^verbatim>\<open>Displacement\<close> and \<^verbatim>\<open>Rectangle\<close> name: a value tagged with the
  dimension it measures, the arithmetic that the tags permit, points, sizes, displacements and
  rectangles. An \<^verbatim>\<open>int\<close> has 32 bits and signed overflow is undefined, so every operation that
  computes returns an option: \<open>None\<close> stands for an evaluation that C++ does not define.
\<close>

section \<open>Tagged values\<close>

definition int_min :: int where "int_min = - (2 ^ 31)"
definition int_max :: int where "int_max = 2 ^ 31 - 1"

definition checked :: "int \<Rightarrow> int option" where
  "checked z = (if int_min \<le> z \<and> z \<le> int_max then Some z else None)"

text \<open>The tags are types without operations; they only keep the dimensions apart.\<close>

datatype WidthTag = WidthTag
datatype HeightTag = HeightTag
datatype XTag = XTag
datatype YTag = YTag
datatype DeltaXTag = DeltaXTag
datatype DeltaYTag = DeltaYTag

datatype 'tag dim = Dim (as_value: int)

type_synonym Width = "WidthTag dim"
type_synonym Height = "HeightTag dim"
type_synonym X = "XTag dim"
type_synonym Y = "YTag dim"
type_synonym DeltaX = "DeltaXTag dim"
type_synonym DeltaY = "DeltaYTag dim"

text \<open>The comparison operators of \<^verbatim>\<open>Value\<close> compare the wrapped numbers: a linear order.\<close>

definition value_le :: "'a dim \<Rightarrow> 'a dim \<Rightarrow> bool" where
  "value_le a b \<longleftrightarrow> as_value a \<le> as_value b"

definition value_less :: "'a dim \<Rightarrow> 'a dim \<Rightarrow> bool" where
  "value_less a b \<longleftrightarrow> as_value a < as_value b"

instantiation dim :: (type) linorder
begin

definition less_eq_dim_value: "a \<le> b \<longleftrightarrow> value_le a (b :: 'a dim)"

definition less_dim_value: "a < b \<longleftrightarrow> value_less a (b :: 'a dim)"

instance
  by standard (auto simp: less_eq_dim_value less_dim_value value_le_def value_less_def dim.expand)

end

lemma less_eq_dim_def: "a \<le> b \<longleftrightarrow> as_value a \<le> as_value (b :: 'a dim)"
  by (simp add: less_eq_dim_value value_le_def)

lemma less_dim_def: "a < b \<longleftrightarrow> as_value a < as_value (b :: 'a dim)"
  by (simp add: less_dim_value value_less_def)

text \<open>\<^verbatim>\<open>Value()\<close> and \<^verbatim>\<open>as_uint32_t\<close>, whose conversion is modulo 2 to the 32.\<close>

definition zero_dim :: "'a dim" where
  "zero_dim = Dim 0"

definition as_uint32_t :: "'a dim \<Rightarrow> u32" where
  "as_uint32_t v = word_of_int (as_value v)"

text \<open>The bodies the operators share; their types are fixed by the operators below.\<close>

definition dim_plus :: "'a dim \<Rightarrow> 'b dim \<Rightarrow> 'c dim option" where
  "dim_plus lhs rhs = map_option Dim (checked (as_value lhs + as_value rhs))"

definition dim_minus :: "'a dim \<Rightarrow> 'b dim \<Rightarrow> 'c dim option" where
  "dim_minus lhs rhs = map_option Dim (checked (as_value lhs - as_value rhs))"

definition dim_uminus :: "'a dim \<Rightarrow> 'a dim option" where
  "dim_uminus rhs = map_option Dim (checked (- as_value rhs))"

definition dim_scale :: "int \<Rightarrow> 'a dim \<Rightarrow> 'a dim option" where
  "dim_scale scale v = map_option Dim (checked (scale * as_value v))"

definition dim_divide :: "'a dim \<Rightarrow> int \<Rightarrow> 'a dim option" where
  "dim_divide v scale = (if scale = 0 then None else map_option Dim (checked (as_value v sdiv scale)))"

definition retag :: "'a dim \<Rightarrow> 'b dim" where
  "retag v = Dim (as_value v)"

section \<open>The operators the tags permit\<close>

text \<open>Deltas add up, and are added to and taken from coordinates and extents of their axis.\<close>

definition dx_plus_dx :: "DeltaX \<Rightarrow> DeltaX \<Rightarrow> DeltaX option" where "dx_plus_dx = dim_plus"
definition dy_plus_dy :: "DeltaY \<Rightarrow> DeltaY \<Rightarrow> DeltaY option" where "dy_plus_dy = dim_plus"
definition dx_minus_dx :: "DeltaX \<Rightarrow> DeltaX \<Rightarrow> DeltaX option" where "dx_minus_dx = dim_minus"
definition dy_minus_dy :: "DeltaY \<Rightarrow> DeltaY \<Rightarrow> DeltaY option" where "dy_minus_dy = dim_minus"
definition minus_dx :: "DeltaX \<Rightarrow> DeltaX option" where "minus_dx = dim_uminus"
definition minus_dy :: "DeltaY \<Rightarrow> DeltaY option" where "minus_dy = dim_uminus"
definition x_plus_dx :: "X \<Rightarrow> DeltaX \<Rightarrow> X option" where "x_plus_dx = dim_plus"
definition y_plus_dy :: "Y \<Rightarrow> DeltaY \<Rightarrow> Y option" where "y_plus_dy = dim_plus"
definition x_minus_dx :: "X \<Rightarrow> DeltaX \<Rightarrow> X option" where "x_minus_dx = dim_minus"
definition y_minus_dy :: "Y \<Rightarrow> DeltaY \<Rightarrow> Y option" where "y_minus_dy = dim_minus"
definition w_plus_dx :: "Width \<Rightarrow> DeltaX \<Rightarrow> Width option" where "w_plus_dx = dim_plus"
definition h_plus_dy :: "Height \<Rightarrow> DeltaY \<Rightarrow> Height option" where "h_plus_dy = dim_plus"
definition w_minus_dx :: "Width \<Rightarrow> DeltaX \<Rightarrow> Width option" where "w_minus_dx = dim_minus"
definition h_minus_dy :: "Height \<Rightarrow> DeltaY \<Rightarrow> Height option" where "h_minus_dy = dim_minus"

text \<open>Extents add up; the difference of coordinates or extents is a delta.\<close>

definition w_plus_w :: "Width \<Rightarrow> Width \<Rightarrow> Width option" where "w_plus_w = dim_plus"
definition h_plus_h :: "Height \<Rightarrow> Height \<Rightarrow> Height option" where "h_plus_h = dim_plus"
definition x_minus_x :: "X \<Rightarrow> X \<Rightarrow> DeltaX option" where "x_minus_x = dim_minus"
definition y_minus_y :: "Y \<Rightarrow> Y \<Rightarrow> DeltaY option" where "y_minus_y = dim_minus"
definition w_minus_w :: "Width \<Rightarrow> Width \<Rightarrow> DeltaX option" where "w_minus_w = dim_minus"
definition h_minus_h :: "Height \<Rightarrow> Height \<Rightarrow> DeltaY option" where "h_minus_h = dim_minus"

text \<open>Scaling by an \<^verbatim>\<open>int\<close>.\<close>

definition scale_w :: "int \<Rightarrow> Width \<Rightarrow> Width option" where "scale_w = dim_scale"
definition scale_h :: "int \<Rightarrow> Height \<Rightarrow> Height option" where "scale_h = dim_scale"
definition scale_dx :: "int \<Rightarrow> DeltaX \<Rightarrow> DeltaX option" where "scale_dx = dim_scale"
definition scale_dy :: "int \<Rightarrow> DeltaY \<Rightarrow> DeltaY option" where "scale_dy = dim_scale"
definition w_divide :: "Width \<Rightarrow> int \<Rightarrow> Width option" where "w_divide = dim_divide"
definition h_divide :: "Height \<Rightarrow> int \<Rightarrow> Height option" where "h_divide = dim_divide"
definition dx_divide :: "DeltaX \<Rightarrow> int \<Rightarrow> DeltaX option" where "dx_divide = dim_divide"
definition dy_divide :: "DeltaY \<Rightarrow> int \<Rightarrow> DeltaY option" where "dy_divide = dim_divide"

text \<open>Conversions along one axis.\<close>

definition dx_as_width :: "DeltaX \<Rightarrow> Width" where "dx_as_width = retag"
definition dy_as_height :: "DeltaY \<Rightarrow> Height" where "dy_as_height = retag"
definition dx_as_x :: "DeltaX \<Rightarrow> X" where "dx_as_x = retag"
definition dy_as_y :: "DeltaY \<Rightarrow> Y" where "dy_as_y = retag"
definition x_as_delta :: "X \<Rightarrow> DeltaX" where "x_as_delta = retag"
definition y_as_delta :: "Y \<Rightarrow> DeltaY" where "y_as_delta = retag"
definition w_as_x :: "Width \<Rightarrow> X" where "w_as_x = retag"
definition h_as_y :: "Height \<Rightarrow> Y" where "h_as_y = retag"
definition x_as_width :: "X \<Rightarrow> Width" where "x_as_width = retag"
definition y_as_height :: "Y \<Rightarrow> Height" where "y_as_height = retag"
definition w_as_delta :: "Width \<Rightarrow> DeltaX" where "w_as_delta = retag"
definition h_as_delta :: "Height \<Rightarrow> DeltaY" where "h_as_delta = retag"

lemmas operator_defs =
  dx_plus_dx_def dy_plus_dy_def dx_minus_dx_def dy_minus_dy_def minus_dx_def minus_dy_def
  x_plus_dx_def y_plus_dy_def x_minus_dx_def y_minus_dy_def w_plus_dx_def h_plus_dy_def
  w_minus_dx_def h_minus_dy_def w_plus_w_def h_plus_h_def x_minus_x_def y_minus_y_def
  w_minus_w_def h_minus_h_def scale_w_def scale_h_def scale_dx_def scale_dy_def
  w_divide_def h_divide_def dx_divide_def dy_divide_def dx_as_width_def dy_as_height_def
  dx_as_x_def dy_as_y_def x_as_delta_def y_as_delta_def w_as_x_def h_as_y_def
  x_as_width_def y_as_height_def w_as_delta_def h_as_delta_def

section \<open>Points, sizes and displacements\<close>

record Point =
  pt_x :: X
  pt_y :: Y

record Size =
  sz_width :: Width
  sz_height :: Height

record Displacement =
  ds_dx :: DeltaX
  ds_dy :: DeltaY

text \<open>The values of the C++ classes are pairs; two checked components make a checked pair.\<close>

definition mk_point :: "X option \<Rightarrow> Y option \<Rightarrow> Point option" where
  "mk_point x y = Option.bind x (\<lambda>a. map_option (\<lambda>b. \<lparr>pt_x = a, pt_y = b\<rparr>) y)"

definition mk_size :: "Width option \<Rightarrow> Height option \<Rightarrow> Size option" where
  "mk_size w h = Option.bind w (\<lambda>a. map_option (\<lambda>b. \<lparr>sz_width = a, sz_height = b\<rparr>) h)"

definition mk_disp :: "DeltaX option \<Rightarrow> DeltaY option \<Rightarrow> Displacement option" where
  "mk_disp dx dy = Option.bind dx (\<lambda>a. map_option (\<lambda>b. \<lparr>ds_dx = a, ds_dy = b\<rparr>) dy)"

definition point_eq :: "Point \<Rightarrow> Point \<Rightarrow> bool" where
  "point_eq lhs rhs \<longleftrightarrow> pt_x lhs = pt_x rhs \<and> pt_y lhs = pt_y rhs"

definition point_ne :: "Point \<Rightarrow> Point \<Rightarrow> bool" where
  "point_ne lhs rhs \<longleftrightarrow> pt_x lhs \<noteq> pt_x rhs \<or> pt_y lhs \<noteq> pt_y rhs"

definition size_eq :: "Size \<Rightarrow> Size \<Rightarrow> bool" where
  "size_eq lhs rhs \<longleftrightarrow> sz_width lhs = sz_width rhs \<and> sz_height lhs = sz_height rhs"

definition size_ne :: "Size \<Rightarrow> Size \<Rightarrow> bool" where
  "size_ne lhs rhs \<longleftrightarrow> sz_width lhs \<noteq> sz_width rhs \<or> sz_height lhs \<noteq> sz_height rhs"

definition disp_eq :: "Displacement \<Rightarrow> Displacement \<Rightarrow> bool" where
  "disp_eq lhs rhs \<longleftrightarrow> ds_dx lhs = ds_dx rhs \<and> ds_dy lhs = ds_dy rhs"

definition disp_ne :: "Displacement \<Rightarrow> Displacement \<Rightarrow> bool" where
  "disp_ne lhs rhs \<longleftrightarrow> ds_dx lhs \<noteq> ds_dx rhs \<or> ds_dy lhs \<noteq> ds_dy rhs"

definition point_plus_dx :: "Point \<Rightarrow> DeltaX \<Rightarrow> Point option" where
  "point_plus_dx lhs rhs = mk_point (x_plus_dx (pt_x lhs) rhs) (Some (pt_y lhs))"

definition point_plus_dy :: "Point \<Rightarrow> DeltaY \<Rightarrow> Point option" where
  "point_plus_dy lhs rhs = mk_point (Some (pt_x lhs)) (y_plus_dy (pt_y lhs) rhs)"

definition point_minus_dx :: "Point \<Rightarrow> DeltaX \<Rightarrow> Point option" where
  "point_minus_dx lhs rhs = mk_point (x_minus_dx (pt_x lhs) rhs) (Some (pt_y lhs))"

definition point_minus_dy :: "Point \<Rightarrow> DeltaY \<Rightarrow> Point option" where
  "point_minus_dy lhs rhs = mk_point (Some (pt_x lhs)) (y_minus_dy (pt_y lhs) rhs)"

definition scale_size :: "int \<Rightarrow> Size \<Rightarrow> Size option" where
  "scale_size scale s = mk_size (scale_w scale (sz_width s)) (scale_h scale (sz_height s))"

definition size_divide :: "Size \<Rightarrow> int \<Rightarrow> Size option" where
  "size_divide s scale = mk_size (w_divide (sz_width s) scale) (h_divide (sz_height s) scale)"

definition point_as_size :: "Point \<Rightarrow> Size" where
  "point_as_size p = \<lparr>sz_width = Dim (as_value (pt_x p)), sz_height = Dim (as_value (pt_y p))\<rparr>"

definition size_as_point :: "Size \<Rightarrow> Point" where
  "size_as_point s = \<lparr>pt_x = Dim (as_value (sz_width s)), pt_y = Dim (as_value (sz_height s))\<rparr>"

definition disp_plus_disp :: "Displacement \<Rightarrow> Displacement \<Rightarrow> Displacement option" where
  "disp_plus_disp lhs rhs = mk_disp (dx_plus_dx (ds_dx lhs) (ds_dx rhs)) (dy_plus_dy (ds_dy lhs) (ds_dy rhs))"

definition disp_minus_disp :: "Displacement \<Rightarrow> Displacement \<Rightarrow> Displacement option" where
  "disp_minus_disp lhs rhs = mk_disp (dx_minus_dx (ds_dx lhs) (ds_dx rhs)) (dy_minus_dy (ds_dy lhs) (ds_dy rhs))"

definition minus_disp :: "Displacement \<Rightarrow> Displacement option" where
  "minus_disp rhs = mk_disp (minus_dx (ds_dx rhs)) (minus_dy (ds_dy rhs))"

definition point_plus_disp :: "Point \<Rightarrow> Displacement \<Rightarrow> Point option" where
  "point_plus_disp lhs rhs = mk_point (x_plus_dx (pt_x lhs) (ds_dx rhs)) (y_plus_dy (pt_y lhs) (ds_dy rhs))"

definition disp_plus_point :: "Displacement \<Rightarrow> Point \<Rightarrow> Point option" where
  "disp_plus_point lhs rhs = mk_point (x_plus_dx (pt_x rhs) (ds_dx lhs)) (y_plus_dy (pt_y rhs) (ds_dy lhs))"

definition point_minus_disp :: "Point \<Rightarrow> Displacement \<Rightarrow> Point option" where
  "point_minus_disp lhs rhs = mk_point (x_minus_dx (pt_x lhs) (ds_dx rhs)) (y_minus_dy (pt_y lhs) (ds_dy rhs))"

definition point_minus_point :: "Point \<Rightarrow> Point \<Rightarrow> Displacement option" where
  "point_minus_point lhs rhs = mk_disp (x_minus_x (pt_x lhs) (pt_x rhs)) (y_minus_y (pt_y lhs) (pt_y rhs))"

definition scale_disp :: "int \<Rightarrow> Displacement \<Rightarrow> Displacement option" where
  "scale_disp scale d = mk_disp (scale_dx scale (ds_dx d)) (scale_dy scale (ds_dy d))"

definition size_as_displacement :: "Size \<Rightarrow> Displacement" where
  "size_as_displacement s = \<lparr>ds_dx = Dim (as_value (sz_width s)), ds_dy = Dim (as_value (sz_height s))\<rparr>"

definition disp_as_size :: "Displacement \<Rightarrow> Size" where
  "disp_as_size d = \<lparr>sz_width = Dim (as_value (ds_dx d)), sz_height = Dim (as_value (ds_dy d))\<rparr>"

definition point_as_displacement :: "Point \<Rightarrow> Displacement" where
  "point_as_displacement p = \<lparr>ds_dx = Dim (as_value (pt_x p)), ds_dy = Dim (as_value (pt_y p))\<rparr>"

definition disp_as_point :: "Displacement \<Rightarrow> Point" where
  "disp_as_point d = \<lparr>pt_x = Dim (as_value (ds_dx d)), pt_y = Dim (as_value (ds_dy d))\<rparr>"

text \<open>\<^verbatim>\<open>length_squared\<close> computes in \<^verbatim>\<open>long long\<close>, with 64 bits.\<close>

definition checked_ll :: "int \<Rightarrow> int option" where
  "checked_ll z = (if - (2 ^ 63) \<le> z \<and> z < 2 ^ 63 then Some z else None)"

definition length_squared :: "Displacement \<Rightarrow> int option" where
  "length_squared d =
     (let x = as_value (ds_dx d); y = as_value (ds_dy d) in
      Option.bind (checked_ll (x * x)) (\<lambda>xx. Option.bind (checked_ll (y * y)) (\<lambda>yy. checked_ll (xx + yy))))"

definition disp_less :: "Displacement \<Rightarrow> Displacement \<Rightarrow> bool option" where
  "disp_less lhs rhs =
     Option.bind (length_squared lhs) (\<lambda>l. map_option (\<lambda>r. l < r) (length_squared rhs))"

section \<open>Rectangles\<close>

record Rectangle =
  rc_top_left :: Point
  rc_size :: Size

definition default_rectangle :: Rectangle where
  "default_rectangle =
     \<lparr>rc_top_left = \<lparr>pt_x = zero_dim, pt_y = zero_dim\<rparr>, rc_size = \<lparr>sz_width = zero_dim, sz_height = zero_dim\<rparr>\<rparr>"

definition bottom_right :: "Rectangle \<Rightarrow> Point option" where
  "bottom_right r = point_plus_disp (rc_top_left r) (size_as_displacement (rc_size r))"

definition top_right :: "Rectangle \<Rightarrow> Point option" where
  "top_right r = point_plus_dx (rc_top_left r) (w_as_delta (sz_width (rc_size r)))"

definition bottom_left :: "Rectangle \<Rightarrow> Point option" where
  "bottom_left r = point_plus_dy (rc_top_left r) (h_as_delta (sz_height (rc_size r)))"

definition rc_left :: "Rectangle \<Rightarrow> X" where "rc_left r = pt_x (rc_top_left r)"
definition rc_right :: "Rectangle \<Rightarrow> X option" where "rc_right r = map_option pt_x (bottom_right r)"
definition rc_top :: "Rectangle \<Rightarrow> Y" where "rc_top r = pt_y (rc_top_left r)"
definition rc_bottom :: "Rectangle \<Rightarrow> Y option" where "rc_bottom r = map_option pt_y (bottom_right r)"

definition contains_point :: "Rectangle \<Rightarrow> Point \<Rightarrow> bool option" where
  "contains_point r p =
     (if sz_width (rc_size r) = zero_dim \<or> sz_height (rc_size r) = zero_dim then Some False
      else Option.bind (bottom_right r) (\<lambda>br.
        Some (rc_left r \<le> pt_x p \<and> pt_x p < pt_x br \<and> rc_top r \<le> pt_y p \<and> pt_y p < pt_y br)))"

text \<open>The operands of \<^verbatim>\<open>&&\<close> and \<^verbatim>\<open>||\<close> that are not reached are not evaluated.\<close>

definition and_then :: "bool option \<Rightarrow> bool option \<Rightarrow> bool option" where
  "and_then a b = Option.bind a (\<lambda>v. if v then b else Some False)"

definition or_else :: "bool option \<Rightarrow> bool option \<Rightarrow> bool option" where
  "or_else a b = Option.bind a (\<lambda>v. if v then Some True else b)"

definition le_opt :: "'a::linorder option \<Rightarrow> 'a option \<Rightarrow> bool option" where
  "le_opt a b = Option.bind a (\<lambda>u. map_option (\<lambda>v. u \<le> v) b)"

definition contains_rectangle :: "Rectangle \<Rightarrow> Rectangle \<Rightarrow> bool option" where
  "contains_rectangle me r =
     and_then (Some (rc_left me \<le> rc_left r))
     (and_then (le_opt (x_plus_dx (rc_left r) (w_as_delta (sz_width (rc_size r))))
                       (x_plus_dx (rc_left me) (w_as_delta (sz_width (rc_size me)))))
     (and_then (Some (rc_top me \<le> rc_top r))
        (le_opt (y_plus_dy (rc_top r) (h_as_delta (sz_height (rc_size r))))
                (y_plus_dy (rc_top me) (h_as_delta (sz_height (rc_size me)))))))"

definition overlaps :: "Rectangle \<Rightarrow> Rectangle \<Rightarrow> bool option" where
  "overlaps me r =
     map_option Not
       (or_else (le_opt (rc_right me) (Some (rc_left r)))
       (or_else (le_opt (rc_right r) (Some (rc_left me)))
       (or_else (le_opt (rc_bottom me) (Some (rc_top r)))
       (or_else (le_opt (rc_bottom r) (Some (rc_top me)))
          (Some (sz_width (rc_size me) = zero_dim \<or> sz_height (rc_size me) = zero_dim \<or>
                 sz_width (rc_size r) = zero_dim \<or> sz_height (rc_size r) = zero_dim))))))"

definition intersection_of :: "Rectangle \<Rightarrow> Rectangle \<Rightarrow> Rectangle option" where
  "intersection_of a b =
     (let max_left = max (rc_left a) (rc_left b); max_top = max (rc_top a) (rc_top b) in
      Option.bind (rc_right a) (\<lambda>ar. Option.bind (rc_right b) (\<lambda>br.
      Option.bind (rc_bottom a) (\<lambda>ab. Option.bind (rc_bottom b) (\<lambda>bb.
        let min_right = min ar br; min_bottom = min ab bb in
        if max_left < min_right \<and> max_top < min_bottom
        then Option.bind (x_minus_x min_right max_left) (\<lambda>dx.
             Option.bind (y_minus_y min_bottom max_top) (\<lambda>dy.
               Some \<lparr>rc_top_left = \<lparr>pt_x = max_left, pt_y = max_top\<rparr>,
                     rc_size = \<lparr>sz_width = Dim (as_value dx), sz_height = Dim (as_value dy)\<rparr>\<rparr>))
        else Some default_rectangle)))))"

definition rectangle_eq :: "Rectangle \<Rightarrow> Rectangle \<Rightarrow> bool" where
  "rectangle_eq lhs rhs \<longleftrightarrow> point_eq (rc_top_left lhs) (rc_top_left rhs) \<and> size_eq (rc_size lhs) (rc_size rhs)"

definition rectangle_ne :: "Rectangle \<Rightarrow> Rectangle \<Rightarrow> bool" where
  "rectangle_ne lhs rhs \<longleftrightarrow> point_ne (rc_top_left lhs) (rc_top_left rhs) \<or> size_ne (rc_size lhs) (rc_size rhs)"

section \<open>Compound assignments\<close>

text \<open>
  A compound assignment stores into its left operand and returns a reference to it: the result is
  the value stored, which the caller keeps in the place of the operand. The right operand is a copy
  or has another type, so it is never the place written.
\<close>

definition dx_add_assign :: "DeltaX \<Rightarrow> DeltaX \<Rightarrow> DeltaX option" where "dx_add_assign lhs rhs = dx_plus_dx lhs rhs"
definition dy_add_assign :: "DeltaY \<Rightarrow> DeltaY \<Rightarrow> DeltaY option" where "dy_add_assign lhs rhs = dy_plus_dy lhs rhs"
definition dx_sub_assign :: "DeltaX \<Rightarrow> DeltaX \<Rightarrow> DeltaX option" where "dx_sub_assign lhs rhs = dx_minus_dx lhs rhs"
definition dy_sub_assign :: "DeltaY \<Rightarrow> DeltaY \<Rightarrow> DeltaY option" where "dy_sub_assign lhs rhs = dy_minus_dy lhs rhs"
definition x_add_assign :: "X \<Rightarrow> DeltaX \<Rightarrow> X option" where "x_add_assign lhs rhs = x_plus_dx lhs rhs"
definition y_add_assign :: "Y \<Rightarrow> DeltaY \<Rightarrow> Y option" where "y_add_assign lhs rhs = y_plus_dy lhs rhs"
definition x_sub_assign :: "X \<Rightarrow> DeltaX \<Rightarrow> X option" where "x_sub_assign lhs rhs = x_minus_dx lhs rhs"
definition y_sub_assign :: "Y \<Rightarrow> DeltaY \<Rightarrow> Y option" where "y_sub_assign lhs rhs = y_minus_dy lhs rhs"
definition w_add_assign_dx :: "Width \<Rightarrow> DeltaX \<Rightarrow> Width option" where "w_add_assign_dx lhs rhs = w_plus_dx lhs rhs"
definition h_add_assign_dy :: "Height \<Rightarrow> DeltaY \<Rightarrow> Height option" where "h_add_assign_dy lhs rhs = h_plus_dy lhs rhs"
definition w_sub_assign_dx :: "Width \<Rightarrow> DeltaX \<Rightarrow> Width option" where "w_sub_assign_dx lhs rhs = w_minus_dx lhs rhs"
definition h_sub_assign_dy :: "Height \<Rightarrow> DeltaY \<Rightarrow> Height option" where "h_sub_assign_dy lhs rhs = h_minus_dy lhs rhs"
definition w_add_assign :: "Width \<Rightarrow> Width \<Rightarrow> Width option" where "w_add_assign lhs rhs = w_plus_w lhs rhs"
definition h_add_assign :: "Height \<Rightarrow> Height \<Rightarrow> Height option" where "h_add_assign lhs rhs = h_plus_h lhs rhs"

definition point_add_assign_dx :: "Point \<Rightarrow> DeltaX \<Rightarrow> Point option" where
  "point_add_assign_dx lhs rhs = map_option (\<lambda>v. lhs\<lparr>pt_x := v\<rparr>) (x_add_assign (pt_x lhs) rhs)"

definition point_sub_assign_dx :: "Point \<Rightarrow> DeltaX \<Rightarrow> Point option" where
  "point_sub_assign_dx lhs rhs = map_option (\<lambda>v. lhs\<lparr>pt_x := v\<rparr>) (x_sub_assign (pt_x lhs) rhs)"

definition point_add_assign_dy :: "Point \<Rightarrow> DeltaY \<Rightarrow> Point option" where
  "point_add_assign_dy lhs rhs = map_option (\<lambda>v. lhs\<lparr>pt_y := v\<rparr>) (y_add_assign (pt_y lhs) rhs)"

definition point_sub_assign_dy :: "Point \<Rightarrow> DeltaY \<Rightarrow> Point option" where
  "point_sub_assign_dy lhs rhs = map_option (\<lambda>v. lhs\<lparr>pt_y := v\<rparr>) (y_sub_assign (pt_y lhs) rhs)"

definition point_add_assign :: "Point \<Rightarrow> Displacement \<Rightarrow> Point option" where
  "point_add_assign lhs rhs = point_plus_disp lhs rhs"

definition point_sub_assign :: "Point \<Rightarrow> Displacement \<Rightarrow> Point option" where
  "point_sub_assign lhs rhs = point_minus_disp lhs rhs"

text \<open>Scaling with the factor on the right.\<close>

definition w_scale :: "Width \<Rightarrow> int \<Rightarrow> Width option" where "w_scale w scale = scale_w scale w"
definition h_scale :: "Height \<Rightarrow> int \<Rightarrow> Height option" where "h_scale h scale = scale_h scale h"
definition dx_scale :: "DeltaX \<Rightarrow> int \<Rightarrow> DeltaX option" where "dx_scale dx scale = scale_dx scale dx"
definition dy_scale :: "DeltaY \<Rightarrow> int \<Rightarrow> DeltaY option" where "dy_scale dy scale = scale_dy scale dy"
definition size_scale :: "Size \<Rightarrow> int \<Rightarrow> Size option" where "size_scale s scale = scale_size scale s"
definition disp_scale :: "Displacement \<Rightarrow> int \<Rightarrow> Displacement option" where "disp_scale d scale = scale_disp scale d"

section \<open>Lemmas\<close>

text \<open>The set of points a rectangle covers, and that set with its right and lower border.\<close>

definition area :: "Rectangle \<Rightarrow> (int \<times> int) set" where
  "area r =
     {as_value (rc_left r) ..< as_value (rc_left r) + as_value (sz_width (rc_size r))} \<times>
     {as_value (rc_top r) ..< as_value (rc_top r) + as_value (sz_height (rc_size r))}"

definition closed_area :: "Rectangle \<Rightarrow> (int \<times> int) set" where
  "closed_area r =
     {as_value (rc_left r) .. as_value (rc_left r) + as_value (sz_width (rc_size r))} \<times>
     {as_value (rc_top r) .. as_value (rc_top r) + as_value (sz_height (rc_size r))}"

text \<open>A rectangle with a size that is not negative and corners that are representable.\<close>

definition rect_ok :: "Rectangle \<Rightarrow> bool" where
  "rect_ok r \<longleftrightarrow>
     0 \<le> as_value (sz_width (rc_size r)) \<and> as_value (sz_width (rc_size r)) \<le> int_max \<and>
     0 \<le> as_value (sz_height (rc_size r)) \<and> as_value (sz_height (rc_size r)) \<le> int_max \<and>
     int_min \<le> as_value (rc_left r) \<and> as_value (rc_left r) + as_value (sz_width (rc_size r)) \<le> int_max \<and>
     int_min \<le> as_value (rc_top r) \<and> as_value (rc_top r) + as_value (sz_height (rc_size r)) \<le> int_max"

lemma dim_eq_iff: "a = b \<longleftrightarrow> as_value a = as_value b"
  by (cases a; cases b) simp

lemma as_value_max: "as_value (max a b) = max (as_value a) (as_value b)"
  by (simp add: max_def less_eq_dim_def)

lemma as_value_min: "as_value (min a b) = min (as_value a) (as_value b)"
  by (simp add: min_def less_eq_dim_def)

lemmas dim_simps = dim_eq_iff less_eq_dim_def less_dim_def as_value_max as_value_min zero_dim_def

lemma checked_Some [simp]: "int_min \<le> z \<Longrightarrow> z \<le> int_max \<Longrightarrow> checked z = Some z"
  by (simp add: checked_def)

lemma dim_plus_SomeD: "dim_plus a b = Some c \<Longrightarrow> as_value c = as_value a + as_value b"
  by (auto simp: dim_plus_def checked_def split: if_splits)

lemma dim_minus_SomeD: "dim_minus a b = Some c \<Longrightarrow> as_value c = as_value a - as_value b"
  by (auto simp: dim_minus_def checked_def split: if_splits)

text \<open>
  Compound assignments: a coordinate that is an \<^verbatim>\<open>int\<close> gets its value back when what was added to
  it is subtracted again, and adding a displacement is adding its two deltas one after the other,
  with the same overflows.
\<close>

definition dim_ok :: "'a dim \<Rightarrow> bool" where
  "dim_ok v \<longleftrightarrow> int_min \<le> as_value v \<and> as_value v \<le> int_max"

lemma dim_plus_minus:
  "dim_ok a \<Longrightarrow> dim_plus a b = Some c \<Longrightarrow> dim_minus c b = Some a"
  by (cases a) (auto simp: dim_ok_def dim_plus_def dim_minus_def checked_def split: if_splits)

lemmas coordinate_assign_defs =
  x_add_assign_def y_add_assign_def x_sub_assign_def y_sub_assign_def
  point_add_assign_def point_sub_assign_def point_plus_disp_def point_minus_disp_def

lemma point_assign_round_trip:
  assumes "dim_ok (pt_x p)" and "dim_ok (pt_y p)" and "point_add_assign p d = Some q"
  shows "point_sub_assign q d = Some p"
  using assms
  by (cases p) (auto simp: coordinate_assign_defs operator_defs mk_point_def bind_eq_Some_conv dim_plus_minus)

lemma point_add_assign_by_axes:
  "point_add_assign p d =
     Option.bind (point_add_assign_dx p (ds_dx d)) (\<lambda>q. point_add_assign_dy q (ds_dy d))"
  by (cases p; cases "x_plus_dx (pt_x p) (ds_dx d)"; cases "y_plus_dy (pt_y p) (ds_dy d)")
     (simp_all add: coordinate_assign_defs mk_point_def point_add_assign_dx_def point_add_assign_dy_def)

lemma bottom_right_ok:
  assumes "rect_ok r"
  shows "bottom_right r = Some
    \<lparr>pt_x = Dim (as_value (rc_left r) + as_value (sz_width (rc_size r))),
     pt_y = Dim (as_value (rc_top r) + as_value (sz_height (rc_size r)))\<rparr>"
  using assms
  by (simp add: rect_ok_def bottom_right_def point_plus_disp_def mk_point_def operator_defs dim_plus_def
      size_as_displacement_def rc_left_def rc_top_def)

lemma edges_ok:
  assumes "rect_ok r"
  shows "rc_right r = Some (Dim (as_value (rc_left r) + as_value (sz_width (rc_size r))))"
    and "rc_bottom r = Some (Dim (as_value (rc_top r) + as_value (sz_height (rc_size r))))"
    and "x_plus_dx (rc_left r) (w_as_delta (sz_width (rc_size r))) =
           Some (Dim (as_value (rc_left r) + as_value (sz_width (rc_size r))))"
    and "y_plus_dy (rc_top r) (h_as_delta (sz_height (rc_size r))) =
           Some (Dim (as_value (rc_top r) + as_value (sz_height (rc_size r))))"
  using assms bottom_right_ok [OF assms]
  by (simp_all add: rc_right_def rc_bottom_def rect_ok_def operator_defs dim_plus_def retag_def)

lemma contains_point_area:
  assumes "rect_ok r"
  shows "contains_point r p = Some ((as_value (pt_x p), as_value (pt_y p)) \<in> area r)"
  using bottom_right_ok [OF assms]
  by (auto simp: contains_point_def area_def dim_simps)

lemma or_else_Some [simp]: "or_else (Some a) (Some b) = Some (a \<or> b)"
  by (simp add: or_else_def)

lemma and_then_Some [simp]: "and_then (Some a) (Some b) = Some (a \<and> b)"
  by (simp add: and_then_def)

lemma le_opt_Some [simp]: "le_opt (Some a) (Some b) = Some (a \<le> b)"
  by (simp add: le_opt_def)

text \<open>Intervals of integers: when two half-open ones meet, and when a closed one includes another.\<close>

lemma interval_meets:
  "{a ..< b} \<inter> {c ..< d} \<noteq> {} \<longleftrightarrow> max a c < min b (d :: int)"
  by auto

lemma product_meets: "(A \<times> B) \<inter> (C \<times> D) \<noteq> {} \<longleftrightarrow> A \<inter> C \<noteq> {} \<and> B \<inter> D \<noteq> {}"
  by (auto simp: Times_Int_Times)

lemma overlaps_area:
  assumes "rect_ok a" and "rect_ok b"
  shows "overlaps a b = Some (area a \<inter> area b \<noteq> {})"
proof -
  have "area a \<inter> area b \<noteq> {} \<longleftrightarrow>
    max (as_value (rc_left a)) (as_value (rc_left b)) <
      min (as_value (rc_left a) + as_value (sz_width (rc_size a))) (as_value (rc_left b) + as_value (sz_width (rc_size b))) \<and>
    max (as_value (rc_top a)) (as_value (rc_top b)) <
      min (as_value (rc_top a) + as_value (sz_height (rc_size a))) (as_value (rc_top b) + as_value (sz_height (rc_size b)))"
    unfolding area_def product_meets interval_meets ..
  then show ?thesis
    using assms by (auto simp: overlaps_def edges_ok dim_simps rect_ok_def)
qed

lemma contains_rectangle_closed:
  assumes "rect_ok a" and "rect_ok b"
  shows "contains_rectangle a b = Some (closed_area b \<subseteq> closed_area a)"
proof -
  have "closed_area b \<subseteq> closed_area a \<longleftrightarrow>
    as_value (rc_left a) \<le> as_value (rc_left b) \<and>
    as_value (rc_left b) + as_value (sz_width (rc_size b)) \<le> as_value (rc_left a) + as_value (sz_width (rc_size a)) \<and>
    as_value (rc_top a) \<le> as_value (rc_top b) \<and>
    as_value (rc_top b) + as_value (sz_height (rc_size b)) \<le> as_value (rc_top a) + as_value (sz_height (rc_size a))"
    using assms by (auto simp: closed_area_def times_subset_iff rect_ok_def)
  then show ?thesis
    using assms by (simp add: contains_rectangle_def edges_ok dim_simps)
qed

lemma area_default [simp]: "area default_rectangle = {}" and rect_ok_default [simp]: "rect_ok default_rectangle"
  by (simp_all add: area_def rect_ok_def default_rectangle_def zero_dim_def rc_left_def rc_top_def int_min_def int_max_def)

lemma intersection_area:
  assumes "rect_ok a" and "rect_ok b"
  shows "\<exists>c. intersection_of a b = Some c \<and> rect_ok c \<and> area c = area a \<inter> area b"
proof -
  let ?l = "max (rc_left a) (rc_left b)" and ?t = "max (rc_top a) (rc_top b)"
  let ?r = "min (as_value (rc_left a) + as_value (sz_width (rc_size a))) (as_value (rc_left b) + as_value (sz_width (rc_size b)))"
  let ?b = "min (as_value (rc_top a) + as_value (sz_height (rc_size a))) (as_value (rc_top b) + as_value (sz_height (rc_size b)))"
  let ?c = "\<lparr>rc_top_left = \<lparr>pt_x = ?l, pt_y = ?t\<rparr>,
    rc_size = \<lparr>sz_width = Dim (?r - as_value ?l), sz_height = Dim (?b - as_value ?t)\<rparr>\<rparr>"
  have meet: "area a \<inter> area b = {as_value ?l ..< ?r} \<times> {as_value ?t ..< ?b}"
    by (simp add: area_def Times_Int_Times as_value_max)
  show ?thesis
  proof (cases "as_value ?l < ?r \<and> as_value ?t < ?b")
    case True
    have bounds: "?r - as_value ?l \<le> int_max" "?b - as_value ?t \<le> int_max" "int_min \<le> ?r - as_value ?l" "int_min \<le> ?b - as_value ?t"
      using assms True by (auto simp: rect_ok_def as_value_max int_min_def int_max_def)
    have "intersection_of a b = Some ?c"
      using True bounds
      by (simp add: intersection_of_def Let_def edges_ok [OF assms(1)] edges_ok [OF assms(2)] dim_simps
          operator_defs dim_minus_def)
    moreover have "area ?c = area a \<inter> area b"
      unfolding meet by (simp add: area_def rc_left_def rc_top_def)
    moreover have "rect_ok ?c"
      using assms True by (auto simp: rect_ok_def rc_left_def rc_top_def as_value_max)
    ultimately show ?thesis by blast
  next
    case False
    have "intersection_of a b = Some default_rectangle"
      using False by (auto simp: intersection_of_def Let_def edges_ok [OF assms(1)] edges_ok [OF assms(2)] dim_simps)
    moreover have "area a \<inter> area b = {}"
      using False unfolding meet by auto
    ultimately show ?thesis by simp
  qed
qed

lemma equality_operators:
  "point_eq p q \<longleftrightarrow> p = q" "point_ne p q \<longleftrightarrow> p \<noteq> q" "size_eq s t \<longleftrightarrow> s = t" "size_ne s t \<longleftrightarrow> s \<noteq> t"
  "disp_eq d e \<longleftrightarrow> d = e" "disp_ne d e \<longleftrightarrow> d \<noteq> e" "rectangle_eq a b \<longleftrightarrow> a = b" "rectangle_ne a b \<longleftrightarrow> a \<noteq> b"
  by (auto simp: point_eq_def point_ne_def size_eq_def size_ne_def disp_eq_def disp_ne_def rectangle_eq_def rectangle_ne_def)

lemma square_bounds:
  assumes "int_min \<le> z" and "z \<le> int_max"
  shows "0 \<le> z * z" and "z * z \<le> 2 ^ 62" and "z * z = 2 ^ 62 \<longleftrightarrow> z = int_min"
proof -
  have abs: "\<bar>z\<bar> \<le> 2 ^ 31" "z \<noteq> int_min \<Longrightarrow> \<bar>z\<bar> < 2 ^ 31"
    using assms by (auto simp: int_min_def int_max_def)
  have "\<bar>z\<bar> * \<bar>z\<bar> \<le> 2 ^ 31 * 2 ^ 31" by (intro mult_mono abs) auto
  then show "z * z \<le> 2 ^ 62" by simp
  have "\<bar>z\<bar> * \<bar>z\<bar> < 2 ^ 31 * 2 ^ 31" if "z \<noteq> int_min"
    using abs(2) [OF that] by (intro mult_strict_mono) auto
  then have "z * z < 2 ^ 62" if "z \<noteq> int_min" using that by simp
  then show "z * z = 2 ^ 62 \<longleftrightarrow> z = int_min" by (cases "z = int_min") (simp_all add: int_min_def)
qed simp

lemma checked_sum:
  assumes "0 \<le> a" and "a \<le> 2 ^ 62" and "0 \<le> b" and "b \<le> 2 ^ 62"
  shows "Option.bind (checked_ll a) (\<lambda>xx. Option.bind (checked_ll b) (\<lambda>yy. checked_ll (xx + yy))) =
    (if a = 2 ^ 62 \<and> b = 2 ^ 62 then None else Some (a + b))"
  using assms by (auto simp: checked_ll_def)

section \<open>Well-formed values\<close>

text \<open>
  The values a program can make: from \<^verbatim>\<open>int\<close>s by the explicit constructors, and from other values by
  the operators and conversions. Every kind of value has its own predicate, as it has its own type.
\<close>

inductive w_val :: "Width \<Rightarrow> bool" and h_val :: "Height \<Rightarrow> bool" and x_val :: "X \<Rightarrow> bool" and y_val :: "Y \<Rightarrow> bool"
  and dx_val :: "DeltaX \<Rightarrow> bool" and dy_val :: "DeltaY \<Rightarrow> bool"
  and point_val :: "Point \<Rightarrow> bool" and size_val :: "Size \<Rightarrow> bool" and disp_val :: "Displacement \<Rightarrow> bool"
  and rect_val :: "Rectangle \<Rightarrow> bool"
where
  "dim_ok v \<Longrightarrow> w_val v"
| "w_val a \<Longrightarrow> dx_val b \<Longrightarrow> w_plus_dx a b = Some c \<Longrightarrow> w_val c"
| "w_val a \<Longrightarrow> dx_val b \<Longrightarrow> w_minus_dx a b = Some c \<Longrightarrow> w_val c"
| "w_val a \<Longrightarrow> w_val b \<Longrightarrow> w_plus_w a b = Some c \<Longrightarrow> w_val c"
| "w_val a \<Longrightarrow> scale_w n a = Some c \<Longrightarrow> w_val c"
| "w_val a \<Longrightarrow> w_divide a n = Some c \<Longrightarrow> w_val c"
| "dx_val a \<Longrightarrow> w_val (dx_as_width a)"
| "x_val a \<Longrightarrow> w_val (x_as_width a)"
| "size_val s \<Longrightarrow> w_val (sz_width s)"
| "dim_ok v \<Longrightarrow> h_val v"
| "h_val a \<Longrightarrow> dy_val b \<Longrightarrow> h_plus_dy a b = Some c \<Longrightarrow> h_val c"
| "h_val a \<Longrightarrow> dy_val b \<Longrightarrow> h_minus_dy a b = Some c \<Longrightarrow> h_val c"
| "h_val a \<Longrightarrow> h_val b \<Longrightarrow> h_plus_h a b = Some c \<Longrightarrow> h_val c"
| "h_val a \<Longrightarrow> scale_h n a = Some c \<Longrightarrow> h_val c"
| "h_val a \<Longrightarrow> h_divide a n = Some c \<Longrightarrow> h_val c"
| "dy_val a \<Longrightarrow> h_val (dy_as_height a)"
| "y_val a \<Longrightarrow> h_val (y_as_height a)"
| "size_val s \<Longrightarrow> h_val (sz_height s)"
| "dim_ok v \<Longrightarrow> x_val v"
| "x_val a \<Longrightarrow> dx_val b \<Longrightarrow> x_plus_dx a b = Some c \<Longrightarrow> x_val c"
| "x_val a \<Longrightarrow> dx_val b \<Longrightarrow> x_minus_dx a b = Some c \<Longrightarrow> x_val c"
| "dx_val a \<Longrightarrow> x_val (dx_as_x a)"
| "w_val a \<Longrightarrow> x_val (w_as_x a)"
| "point_val p \<Longrightarrow> x_val (pt_x p)"
| "dim_ok v \<Longrightarrow> y_val v"
| "y_val a \<Longrightarrow> dy_val b \<Longrightarrow> y_plus_dy a b = Some c \<Longrightarrow> y_val c"
| "y_val a \<Longrightarrow> dy_val b \<Longrightarrow> y_minus_dy a b = Some c \<Longrightarrow> y_val c"
| "dy_val a \<Longrightarrow> y_val (dy_as_y a)"
| "h_val a \<Longrightarrow> y_val (h_as_y a)"
| "point_val p \<Longrightarrow> y_val (pt_y p)"
| "dim_ok v \<Longrightarrow> dx_val v"
| "dx_val a \<Longrightarrow> dx_val b \<Longrightarrow> dx_plus_dx a b = Some c \<Longrightarrow> dx_val c"
| "dx_val a \<Longrightarrow> dx_val b \<Longrightarrow> dx_minus_dx a b = Some c \<Longrightarrow> dx_val c"
| "dx_val a \<Longrightarrow> minus_dx a = Some c \<Longrightarrow> dx_val c"
| "x_val a \<Longrightarrow> x_val b \<Longrightarrow> x_minus_x a b = Some c \<Longrightarrow> dx_val c"
| "w_val a \<Longrightarrow> w_val b \<Longrightarrow> w_minus_w a b = Some c \<Longrightarrow> dx_val c"
| "dx_val a \<Longrightarrow> scale_dx n a = Some c \<Longrightarrow> dx_val c"
| "dx_val a \<Longrightarrow> dx_divide a n = Some c \<Longrightarrow> dx_val c"
| "x_val a \<Longrightarrow> dx_val (x_as_delta a)"
| "w_val a \<Longrightarrow> dx_val (w_as_delta a)"
| "disp_val d \<Longrightarrow> dx_val (ds_dx d)"
| "dim_ok v \<Longrightarrow> dy_val v"
| "dy_val a \<Longrightarrow> dy_val b \<Longrightarrow> dy_plus_dy a b = Some c \<Longrightarrow> dy_val c"
| "dy_val a \<Longrightarrow> dy_val b \<Longrightarrow> dy_minus_dy a b = Some c \<Longrightarrow> dy_val c"
| "dy_val a \<Longrightarrow> minus_dy a = Some c \<Longrightarrow> dy_val c"
| "y_val a \<Longrightarrow> y_val b \<Longrightarrow> y_minus_y a b = Some c \<Longrightarrow> dy_val c"
| "h_val a \<Longrightarrow> h_val b \<Longrightarrow> h_minus_h a b = Some c \<Longrightarrow> dy_val c"
| "dy_val a \<Longrightarrow> scale_dy n a = Some c \<Longrightarrow> dy_val c"
| "dy_val a \<Longrightarrow> dy_divide a n = Some c \<Longrightarrow> dy_val c"
| "y_val a \<Longrightarrow> dy_val (y_as_delta a)"
| "h_val a \<Longrightarrow> dy_val (h_as_delta a)"
| "disp_val d \<Longrightarrow> dy_val (ds_dy d)"
| "x_val a \<Longrightarrow> y_val b \<Longrightarrow> point_val \<lparr>pt_x = a, pt_y = b\<rparr>"
| "point_val p \<Longrightarrow> dx_val a \<Longrightarrow> point_add_assign_dx p a = Some q \<Longrightarrow> point_val q"
| "point_val p \<Longrightarrow> dy_val a \<Longrightarrow> point_add_assign_dy p a = Some q \<Longrightarrow> point_val q"
| "point_val p \<Longrightarrow> dx_val a \<Longrightarrow> point_sub_assign_dx p a = Some q \<Longrightarrow> point_val q"
| "point_val p \<Longrightarrow> dy_val a \<Longrightarrow> point_sub_assign_dy p a = Some q \<Longrightarrow> point_val q"
| "point_val p \<Longrightarrow> disp_val d \<Longrightarrow> point_add_assign p d = Some q \<Longrightarrow> point_val q"
| "point_val p \<Longrightarrow> disp_val d \<Longrightarrow> point_sub_assign p d = Some q \<Longrightarrow> point_val q"
| "size_val s \<Longrightarrow> point_val (size_as_point s)"
| "disp_val d \<Longrightarrow> point_val (disp_as_point d)"
| "rect_val r \<Longrightarrow> point_val (rc_top_left r)"
| "rect_val r \<Longrightarrow> bottom_right r = Some p \<Longrightarrow> point_val p"
| "rect_val r \<Longrightarrow> top_right r = Some p \<Longrightarrow> point_val p"
| "rect_val r \<Longrightarrow> bottom_left r = Some p \<Longrightarrow> point_val p"
| "w_val a \<Longrightarrow> h_val b \<Longrightarrow> size_val \<lparr>sz_width = a, sz_height = b\<rparr>"
| "size_val s \<Longrightarrow> scale_size n s = Some t \<Longrightarrow> size_val t"
| "size_val s \<Longrightarrow> size_divide s n = Some t \<Longrightarrow> size_val t"
| "point_val p \<Longrightarrow> size_val (point_as_size p)"
| "disp_val d \<Longrightarrow> size_val (disp_as_size d)"
| "rect_val r \<Longrightarrow> size_val (rc_size r)"
| "dx_val a \<Longrightarrow> dy_val b \<Longrightarrow> disp_val \<lparr>ds_dx = a, ds_dy = b\<rparr>"
| "disp_val d \<Longrightarrow> disp_val e \<Longrightarrow> disp_plus_disp d e = Some f \<Longrightarrow> disp_val f"
| "disp_val d \<Longrightarrow> disp_val e \<Longrightarrow> disp_minus_disp d e = Some f \<Longrightarrow> disp_val f"
| "disp_val d \<Longrightarrow> minus_disp d = Some f \<Longrightarrow> disp_val f"
| "point_val p \<Longrightarrow> point_val q \<Longrightarrow> point_minus_point p q = Some f \<Longrightarrow> disp_val f"
| "disp_val d \<Longrightarrow> scale_disp n d = Some f \<Longrightarrow> disp_val f"
| "size_val s \<Longrightarrow> disp_val (size_as_displacement s)"
| "point_val p \<Longrightarrow> disp_val (point_as_displacement p)"
| "rect_val default_rectangle"
| "point_val p \<Longrightarrow> size_val s \<Longrightarrow> rect_val \<lparr>rc_top_left = p, rc_size = s\<rparr>"
| "rect_val a \<Longrightarrow> rect_val b \<Longrightarrow> intersection_of a b = Some c \<Longrightarrow> rect_val c"

definition point_ok :: "Point \<Rightarrow> bool" where
  "point_ok p \<longleftrightarrow> dim_ok (pt_x p) \<and> dim_ok (pt_y p)"

definition size_ok :: "Size \<Rightarrow> bool" where
  "size_ok s \<longleftrightarrow> dim_ok (sz_width s) \<and> dim_ok (sz_height s)"

definition disp_ok :: "Displacement \<Rightarrow> bool" where
  "disp_ok d \<longleftrightarrow> dim_ok (ds_dx d) \<and> dim_ok (ds_dy d)"

lemma checked_dim_ok: "checked z = Some y \<Longrightarrow> dim_ok (Dim y)"
  by (auto simp: checked_def dim_ok_def split: if_splits)

lemma dim_ops_ok:
  fixes a :: "'a dim" and b :: "'b dim" and c :: "'c dim" and v :: "'d dim"
  shows "dim_plus a b = Some c \<Longrightarrow> dim_ok c" and "dim_minus a b = Some c \<Longrightarrow> dim_ok c"
    and "dim_uminus v = Some v' \<Longrightarrow> dim_ok v'" and "dim_scale n v = Some v' \<Longrightarrow> dim_ok v'"
    and "dim_divide v n = Some v' \<Longrightarrow> dim_ok v'"
  by (auto simp: dim_plus_def dim_minus_def dim_uminus_def dim_scale_def dim_divide_def split: if_splits
      dest: checked_dim_ok)

lemma retag_ok [simp]: "dim_ok (retag a) \<longleftrightarrow> dim_ok a" and Dim_value_ok: "dim_ok (Dim (as_value a)) \<longleftrightarrow> dim_ok a"
  by (simp_all add: dim_ok_def retag_def)

lemma zero_dim_ok [simp]: "dim_ok zero_dim"
  by (simp add: dim_ok_def zero_dim_def int_min_def int_max_def)

lemma mk_ok:
  "mk_point x y = Some p \<Longrightarrow> (\<And>a. x = Some a \<Longrightarrow> dim_ok a) \<Longrightarrow> (\<And>b. y = Some b \<Longrightarrow> dim_ok b) \<Longrightarrow> point_ok p"
  "mk_size w h = Some s \<Longrightarrow> (\<And>a. w = Some a \<Longrightarrow> dim_ok a) \<Longrightarrow> (\<And>b. h = Some b \<Longrightarrow> dim_ok b) \<Longrightarrow> size_ok s"
  "mk_disp dx dy = Some d \<Longrightarrow> (\<And>a. dx = Some a \<Longrightarrow> dim_ok a) \<Longrightarrow> (\<And>b. dy = Some b \<Longrightarrow> dim_ok b) \<Longrightarrow> disp_ok d"
  by (auto simp: mk_point_def mk_size_def mk_disp_def point_ok_def size_ok_def disp_ok_def bind_eq_Some_conv)

lemma intersection_ok:
  assumes "intersection_of a b = Some c" and "point_ok (rc_top_left a)" and "point_ok (rc_top_left b)"
  shows "point_ok (rc_top_left c) \<and> size_ok (rc_size c)"
  using assms
  by (auto simp: intersection_of_def Let_def bind_eq_Some_conv operator_defs point_ok_def size_ok_def
      default_rectangle_def rc_left_def rc_top_def max_def Dim_value_ok intro: dim_ops_ok split: if_splits)

lemma delta_ops_ok:
  "x_minus_x x1 x2 = Some dx \<Longrightarrow> dim_ok dx" "w_minus_w w1 w2 = Some dx \<Longrightarrow> dim_ok dx"
  "y_minus_y y1 y2 = Some dy \<Longrightarrow> dim_ok dy" "h_minus_h h1 h2 = Some dy \<Longrightarrow> dim_ok dy"
  by (auto simp: operator_defs intro: dim_ops_ok)

lemma point_ops_ok:
  "point_ok p \<Longrightarrow> point_add_assign_dx p a = Some q \<Longrightarrow> point_ok q"
  "point_ok p \<Longrightarrow> point_sub_assign_dx p a = Some q \<Longrightarrow> point_ok q"
  "point_ok p \<Longrightarrow> point_add_assign_dy p b = Some q \<Longrightarrow> point_ok q"
  "point_ok p \<Longrightarrow> point_sub_assign_dy p b = Some q \<Longrightarrow> point_ok q"
  by (auto simp: point_ok_def point_add_assign_dx_def point_sub_assign_dx_def point_add_assign_dy_def
      point_sub_assign_dy_def coordinate_assign_defs operator_defs intro: dim_ops_ok)

lemma pair_ops_ok:
  "point_add_assign p d = Some q \<Longrightarrow> point_ok q" "point_sub_assign p d = Some q \<Longrightarrow> point_ok q"
  "scale_size n s = Some t \<Longrightarrow> size_ok t" "size_divide s n = Some t \<Longrightarrow> size_ok t"
  "disp_plus_disp d e = Some f \<Longrightarrow> disp_ok f" "disp_minus_disp d e = Some f \<Longrightarrow> disp_ok f"
  "minus_disp d = Some f \<Longrightarrow> disp_ok f" "point_minus_point p q' = Some f \<Longrightarrow> disp_ok f"
  "scale_disp n d = Some f \<Longrightarrow> disp_ok f"
  by (auto simp: coordinate_assign_defs scale_size_def size_divide_def disp_plus_disp_def disp_minus_disp_def
      minus_disp_def point_minus_point_def scale_disp_def operator_defs elim!: mk_ok intro: dim_ops_ok)

lemma conversions_ok:
  "point_ok (size_as_point s) \<longleftrightarrow> size_ok s" "point_ok (disp_as_point d) \<longleftrightarrow> disp_ok d"
  "size_ok (point_as_size p) \<longleftrightarrow> point_ok p" "size_ok (disp_as_size d) \<longleftrightarrow> disp_ok d"
  "disp_ok (size_as_displacement s) \<longleftrightarrow> size_ok s" "disp_ok (point_as_displacement p) \<longleftrightarrow> point_ok p"
  by (simp_all add: point_ok_def size_ok_def disp_ok_def Dim_value_ok size_as_point_def disp_as_point_def
      point_as_size_def disp_as_size_def size_as_displacement_def point_as_displacement_def)

lemma corners_ok:
  "bottom_right r = Some p \<Longrightarrow> point_ok p"
  "point_ok (rc_top_left r) \<Longrightarrow> top_right r = Some p \<Longrightarrow> point_ok p"
  "point_ok (rc_top_left r) \<Longrightarrow> bottom_left r = Some p \<Longrightarrow> point_ok p"
  by (auto simp: bottom_right_def top_right_def bottom_left_def point_plus_disp_def point_plus_dx_def
      point_plus_dy_def operator_defs point_ok_def mk_point_def bind_eq_Some_conv intro: dim_ops_ok)

lemma fields_ok:
  "point_ok \<lparr>pt_x = x, pt_y = y\<rparr> \<longleftrightarrow> dim_ok x \<and> dim_ok y"
  "size_ok \<lparr>sz_width = w, sz_height = h\<rparr> \<longleftrightarrow> dim_ok w \<and> dim_ok h"
  "disp_ok \<lparr>ds_dx = dx, ds_dy = dy\<rparr> \<longleftrightarrow> dim_ok dx \<and> dim_ok dy"
  "point_ok p \<Longrightarrow> dim_ok (pt_x p)" "point_ok p \<Longrightarrow> dim_ok (pt_y p)"
  "size_ok s \<Longrightarrow> dim_ok (sz_width s)" "size_ok s \<Longrightarrow> dim_ok (sz_height s)"
  "disp_ok d \<Longrightarrow> dim_ok (ds_dx d)" "disp_ok d \<Longrightarrow> dim_ok (ds_dy d)"
  by (simp_all add: point_ok_def size_ok_def disp_ok_def)

lemma values_in_range:
  "(w_val w \<longrightarrow> dim_ok w) \<and> (h_val h \<longrightarrow> dim_ok h) \<and> (x_val x \<longrightarrow> dim_ok x) \<and> (y_val y \<longrightarrow> dim_ok y) \<and>
   (dx_val dx \<longrightarrow> dim_ok dx) \<and> (dy_val dy \<longrightarrow> dim_ok dy) \<and>
   (point_val p \<longrightarrow> point_ok p) \<and> (size_val s \<longrightarrow> size_ok s) \<and> (disp_val d \<longrightarrow> disp_ok d) \<and>
   (rect_val r \<longrightarrow> point_ok (rc_top_left r) \<and> size_ok (rc_size r))"
  by (induction rule: w_val_h_val_x_val_y_val_dx_val_dy_val_point_val_size_val_disp_val_rect_val.induct)
    (auto simp: operator_defs conversions_ok default_rectangle_def fields_ok
       intro: dim_ops_ok delta_ops_ok point_ops_ok pair_ops_ok corners_ok dest: intersection_ok)

section \<open>Properties\<close>

text \<open>
  Claim C29. The operations on rectangles are those on sets of points: for rectangles whose size is
  not negative and whose corners are representable none of them overflows; a point is contained
  exactly when it lies in the half-open area, two rectangles overlap exactly when their areas meet,
  the intersection covers exactly the common points and is itself such a rectangle, and one
  rectangle contains another exactly when it includes it together with its right and lower border
  (so that an empty rectangle is contained as the point or line it degenerates to).
\<close>

theorem rectangles_are_point_sets:
  assumes "rect_ok a" and "rect_ok b"
  shows "contains_point a p = Some ((as_value (pt_x p), as_value (pt_y p)) \<in> area a) \<and>
    overlaps a b = Some (area a \<inter> area b \<noteq> {}) \<and>
    (\<exists>c. intersection_of a b = Some c \<and> rect_ok c \<and> area c = area a \<inter> area b) \<and>
    contains_rectangle a b = Some (closed_area b \<subseteq> closed_area a)"
  using contains_point_area [OF assms(1)] overlaps_area [OF assms] intersection_area [OF assms]
    contains_rectangle_closed [OF assms]
  by simp

definition sample_rect :: "int \<Rightarrow> int \<Rightarrow> int \<Rightarrow> int \<Rightarrow> Rectangle" where
  "sample_rect x y w h =
     \<lparr>rc_top_left = \<lparr>pt_x = Dim x, pt_y = Dim y\<rparr>, rc_size = \<lparr>sz_width = Dim w, sz_height = Dim h\<rparr>\<rparr>"

theorem rectangles_are_point_sets_witness:
  "overlaps (sample_rect 0 0 10 10) (sample_rect 5 5 10 10) =
     Some (area (sample_rect 0 0 10 10) \<inter> area (sample_rect 5 5 10 10) \<noteq> {}) \<and>
   overlaps (sample_rect 0 0 10 10) (sample_rect 5 5 10 10) = Some True"
  using rectangles_are_point_sets [of "sample_rect 0 0 10 10" "sample_rect 5 5 10 10" "\<lparr>pt_x = Dim 1, pt_y = Dim 1\<rparr>"]
  by (auto simp: rect_ok_def sample_rect_def rc_left_def rc_top_def int_min_def int_max_def overlaps_def area_def
      rc_right_def rc_bottom_def bottom_right_def point_plus_disp_def mk_point_def operator_defs dim_plus_def
      size_as_displacement_def dim_simps)

text \<open>
  The squared length of a displacement with representable components is computed without
  overflow in every case but one: it is the sum of the squares, and is undefined exactly when both
  components are the least \<^verbatim>\<open>int\<close>.
\<close>

theorem length_squared_overflow:
  assumes "int_min \<le> as_value (ds_dx d)" and "as_value (ds_dx d) \<le> int_max"
    and "int_min \<le> as_value (ds_dy d)" and "as_value (ds_dy d) \<le> int_max"
  shows "length_squared d =
    (if as_value (ds_dx d) = int_min \<and> as_value (ds_dy d) = int_min then None
     else Some ((as_value (ds_dx d))\<^sup>2 + (as_value (ds_dy d))\<^sup>2))"
  using square_bounds [OF assms(1,2)] square_bounds [OF assms(3,4)]
    checked_sum [of "as_value (ds_dx d) * as_value (ds_dx d)" "as_value (ds_dy d) * as_value (ds_dy d)"]
  by (auto simp: length_squared_def Let_def power2_eq_square)

theorem length_squared_overflow_witness:
  "length_squared \<lparr>ds_dx = Dim int_min, ds_dy = Dim int_min\<rparr> = None \<and>
   length_squared \<lparr>ds_dx = Dim 3, ds_dy = Dim int_min\<rparr> = Some (9 + 2 ^ 62)"
  using length_squared_overflow [of "\<lparr>ds_dx = Dim int_min, ds_dy = Dim int_min\<rparr>"]
    length_squared_overflow [of "\<lparr>ds_dx = Dim 3, ds_dy = Dim int_min\<rparr>"]
  by (simp add: int_min_def int_max_def)

text \<open>
  Points and displacements form an affine space as far as they are representable: adding
  the difference of two points to the second gives the first, taking a displacement away again
  gives the point it was added to, and the operands of the sum can be exchanged.
\<close>

theorem affine_round_trips:
  assumes "int_min \<le> as_value (pt_x q)" and "as_value (pt_x q) \<le> int_max"
    and "int_min \<le> as_value (pt_y q)" and "as_value (pt_y q) \<le> int_max"
  shows "(point_minus_point q p = Some d \<longrightarrow> point_plus_disp p d = Some q) \<and>
    (point_plus_disp q d = Some r \<longrightarrow> point_minus_disp r d = Some q) \<and>
    disp_plus_point d q = point_plus_disp q d"
proof (intro conjI impI)
  assume "point_minus_point q p = Some d"
  then have d: "as_value (ds_dx d) = as_value (pt_x q) - as_value (pt_x p)"
    "as_value (ds_dy d) = as_value (pt_y q) - as_value (pt_y p)"
    by (auto simp: point_minus_point_def mk_disp_def operator_defs bind_eq_Some_conv dest!: dim_minus_SomeD)
  show "point_plus_disp p d = Some q"
    using assms by (simp add: point_plus_disp_def mk_point_def operator_defs dim_plus_def d)
next
  assume "point_plus_disp q d = Some r"
  then have r: "as_value (pt_x r) = as_value (pt_x q) + as_value (ds_dx d)"
    "as_value (pt_y r) = as_value (pt_y q) + as_value (ds_dy d)"
    by (auto simp: point_plus_disp_def mk_point_def operator_defs bind_eq_Some_conv dest!: dim_plus_SomeD)
  show "point_minus_disp r d = Some q"
    using assms by (simp add: point_minus_disp_def mk_point_def operator_defs dim_minus_def r)
qed (simp add: disp_plus_point_def point_plus_disp_def)

theorem affine_round_trips_witness:
  "point_plus_disp \<lparr>pt_x = Dim 1, pt_y = Dim 2\<rparr> \<lparr>ds_dx = Dim 4, ds_dy = Dim 6\<rparr> = Some \<lparr>pt_x = Dim 5, pt_y = Dim 8\<rparr>"
proof -
  have "point_minus_point \<lparr>pt_x = Dim 5, pt_y = Dim 8\<rparr> \<lparr>pt_x = Dim 1, pt_y = Dim 2\<rparr> = Some \<lparr>ds_dx = Dim 4, ds_dy = Dim 6\<rparr>"
    by (simp add: point_minus_point_def mk_disp_def operator_defs dim_minus_def checked_def int_min_def int_max_def)
  with affine_round_trips [of "\<lparr>pt_x = Dim 5, pt_y = Dim 8\<rparr>" "\<lparr>pt_x = Dim 1, pt_y = Dim 2\<rparr>"]
  show ?thesis by (simp add: int_min_def int_max_def)
qed



end
