(* ===== verification/Geometry_Print.thy ===== *)
theory Geometry_Print
  imports Geometry
begin

text \<open>
  The stream output of the geometry types (\<^verbatim>\<open>operator<<\<close> of \<^verbatim>\<open>include/geometry\<close>), which is what a failing
  test shows. An \<^verbatim>\<open>int\<close> is printed in decimal; what is printed is shown to determine the value.
\<close>

section \<open>Printing\<close>

definition print_value :: "'tag dim \<Rightarrow> string" where
  "print_value v = int_to_string (as_value v)"

definition print_point :: "Point \<Rightarrow> string" where
  "print_point p = print_value (pt_x p) @ '', '' @ print_value (pt_y p)"

definition print_size :: "Size \<Rightarrow> string" where
  "print_size s = ''('' @ print_value (sz_width s) @ '', '' @ print_value (sz_height s) @ '')''"

definition print_displacement :: "Displacement \<Rightarrow> string" where
  "print_displacement d = ''('' @ print_value (ds_dx d) @ '', '' @ print_value (ds_dy d) @ '')''"

definition print_rectangle :: "Rectangle \<Rightarrow> string" where
  "print_rectangle r = ''('' @ print_point (rc_top_left r) @ '', '' @ print_size (rc_size r) @ '')''"

section \<open>Reading back\<close>

definition numeral_char :: "char \<Rightarrow> bool" where
  "numeral_char c \<longleftrightarrow> c \<in> set ''-0123456789''"

definition finish_token :: "string \<Rightarrow> string list" where
  "finish_token t = (if t = [] then [] else [t])"

text \<open>The numerals in a text: the longest runs of characters that occur in numerals.\<close>

fun tokens :: "string \<Rightarrow> string \<Rightarrow> string list" where
  "tokens t [] = finish_token t"
| "tokens t (c # cs) = (if numeral_char c then tokens (t @ [c]) cs else finish_token t @ tokens [] cs)"

fun read_int :: "string \<Rightarrow> int" where
  "read_int (c # cs) = (if c = CHR ''-'' then - int (read_nat cs) else int (read_nat (c # cs)))"
| "read_int [] = 0"

definition read_ints :: "string \<Rightarrow> int list" where
  "read_ints s = map read_int (tokens [] s)"

lemma nat_to_string_chars: "set (nat_to_string n) \<subseteq> set ''0123456789'' \<and> nat_to_string n \<noteq> []"
proof (induction n rule: nat_to_string.induct)
  case (1 n)
  have digit: "''0123456789'' ! d \<in> set ''0123456789''" if "d < 10" for d
    using that by (intro nth_mem) simp
  show ?case
  proof (cases "n < 10")
    case True
    then show ?thesis using digit [of n] by (subst (1 2) nat_to_string.simps) simp
  next
    case False
    then show ?thesis using "1.IH" digit [of "n mod 10"] by (subst (1 2) nat_to_string.simps) simp
  qed
qed

lemma int_to_string_chars: "list_all numeral_char (int_to_string z)" "int_to_string z \<noteq> []"
proof -
  have digits: "set ''0123456789'' \<subseteq> set ''-0123456789''" by (simp add: subset_iff)
  have nat: "list_all numeral_char (nat_to_string n)" for n
    unfolding list_all_iff numeral_char_def using nat_to_string_chars [of n] digits by blast
  have "numeral_char CHR ''-''" by (simp add: numeral_char_def)
  with nat show "list_all numeral_char (int_to_string z)" by (simp add: int_to_string_def)
  show "int_to_string z \<noteq> []" using nat_to_string_chars by (simp add: int_to_string_def)
qed

lemma read_int_to_string [simp]: "read_int (int_to_string z) = z"
proof -
  have "read_int (nat_to_string n) = int n" for n
  proof -
    obtain c cs where cs: "nat_to_string n = c # cs" using nat_to_string_chars [of n] by (cases "nat_to_string n") auto
    then have "c \<noteq> CHR ''-''" using nat_to_string_chars [of n] by auto
    then show ?thesis using read_nat_to_string [of n] unfolding cs by simp
  qed
  then show ?thesis by (simp add: int_to_string_def)
qed

lemma tokens_numeral: "list_all numeral_char s \<Longrightarrow> tokens t (s @ rest) = tokens (t @ s) rest"
  by (induction s arbitrary: t) simp_all

lemma tokens_int [simp]:
  "tokens [] (int_to_string z @ rest) = tokens (int_to_string z) rest"
  "tokens [] (int_to_string z) = [int_to_string z]"
  using tokens_numeral [OF int_to_string_chars(1), of "[]" z rest]
    tokens_numeral [OF int_to_string_chars(1), of "[]" z "[]"] int_to_string_chars(2) [of z]
  by (simp_all add: finish_token_def)

lemma separators [simp]:
  "\<not> numeral_char CHR '',''" "\<not> numeral_char CHR '' ''" "\<not> numeral_char CHR ''(''" "\<not> numeral_char CHR '')''"
  by (simp_all add: numeral_char_def)

lemma finish_int [simp]: "finish_token (int_to_string z) = [int_to_string z]" "finish_token [] = []"
  using int_to_string_chars(2) [of z] by (simp_all add: finish_token_def)

lemmas print_defs = print_value_def print_point_def print_size_def print_displacement_def print_rectangle_def

section \<open>Properties\<close>

text \<open>
  What is printed can be read back: the numerals in the text are the components, in order, so two
  values that print alike are equal.
\<close>

theorem printed_geometry_reads_back:
  "read_ints (print_point p) = [as_value (pt_x p), as_value (pt_y p)]"
  "read_ints (print_size s) = [as_value (sz_width s), as_value (sz_height s)]"
  "read_ints (print_displacement d) = [as_value (ds_dx d), as_value (ds_dy d)]"
  "read_ints (print_rectangle r) =
     [as_value (pt_x (rc_top_left r)), as_value (pt_y (rc_top_left r)),
      as_value (sz_width (rc_size r)), as_value (sz_height (rc_size r))]"
  by (simp_all add: read_ints_def print_defs)

theorem printed_rectangles_differ: "print_rectangle r = print_rectangle r' \<longleftrightarrow> r = r'"
proof
  assume "print_rectangle r = print_rectangle r'"
  then have "read_ints (print_rectangle r) = read_ints (print_rectangle r')" by simp
  then show "r = r'"
    unfolding printed_geometry_reads_back(4) by (auto intro!: Rectangle.equality Point.equality Size.equality dim.expand)
qed simp

end
