(* ===== verification/Test_Runner.thy ===== *)
theory Test_Runner
  imports Prelude
begin

text \<open>
  The test runner: \<^verbatim>\<open>XFailSupportingTestListenerWrapper\<close>
  (\<^verbatim>\<open>src/xfail_supporting_test_listener.cpp\<close>), which turns failures of tests that recorded a
  skip reason into skips, \<^verbatim>\<open>main\<close> (\<^verbatim>\<open>src/main.cpp\<close>), \<^verbatim>\<open>SharedLibrary\<close>
  (\<^verbatim>\<open>src/shared_library.cpp\<close>) and the globals of \<^verbatim>\<open>src/helpers.cpp\<close>. The test framework is a
  parameter: it is the sequence of events it delivers to the listener. The dynamic loader is a
  parameter too.
\<close>

section \<open>Events of the test framework\<close>

record test_info =
  test_case_name :: string
  test_name :: string

text \<open>The counts \<^verbatim>\<open>UnitTest\<close> reports at the end of an iteration.\<close>

record unit_test =
  test_to_run_count :: nat
  test_case_to_run_count :: nat
  elapsed_time :: nat
  successful_test_count :: nat

text \<open>
  A part result comes with whether it is a failure and with the properties (keys and values) the
  current test has recorded so far; events that read the clock come with its value in milliseconds.
\<close>

datatype gtest_event =
    Test_program_start
  | Test_iteration_start nat
  | Environments_set_up_start
  | Environments_set_up_end
  | Test_case_start string
  | Test_start test_info int
  | Test_part_result bool "(string \<times> string) list"
  | Test_end test_info int
  | Test_case_end string
  | Environments_tear_down_start
  | Environments_tear_down_end
  | Test_iteration_end unit_test nat
  | Test_program_end

section \<open>The listener\<close>

datatype colour = Green | Yellow | Red

text \<open>A line of output: a coloured tag and a text.\<close>

datatype out_line = Line colour string string

text \<open>
  \<open>current_test_info\<close> is not initialised until the first test starts (\<open>None\<close>). The unordered sets
  of names are lists without duplicates, in the order of insertion. \<open>delegated\<close> logs the events
  passed on to the wrapped listener.
\<close>

record xfail_listener =
  delegated :: "gtest_event list"
  current_test_start :: int
  current_test_info :: "test_info option"
  current_skip_reasons :: "string list option"
  failed_test_names :: "string list"
  skipped_test_names :: "string list"
  failed_flag :: bool
  printed :: "out_line list"

definition new_listener :: xfail_listener where
  "new_listener =
     \<lparr>delegated = [], current_test_start = 0, current_test_info = None, current_skip_reasons = None,
      failed_test_names = [], skipped_test_names = [], failed_flag = False, printed = []\<rparr>"

definition delegate :: "gtest_event \<Rightarrow> xfail_listener \<Rightarrow> xfail_listener" where
  "delegate e me = me\<lparr>delegated := delegated me @ [e]\<rparr>"

definition print_line :: "out_line \<Rightarrow> xfail_listener \<Rightarrow> xfail_listener" where
  "print_line l me = me\<lparr>printed := printed me @ [l]\<rparr>"

definition full_name :: "test_info \<Rightarrow> string" where
  "full_name t = test_case_name t @ ''.'' @ test_name t"

definition set_insert :: "'a \<Rightarrow> 'a list \<Rightarrow> 'a list" where
  "set_insert x xs = (if x \<in> set xs then xs else xs @ [x])"

definition OnTestIterationStart :: "nat \<Rightarrow> xfail_listener \<Rightarrow> xfail_listener" where
  "OnTestIterationStart iteration me =
     delegate (Test_iteration_start iteration) (me\<lparr>failed_test_names := [], skipped_test_names := []\<rparr>)"

definition OnTestStart :: "test_info \<Rightarrow> int \<Rightarrow> xfail_listener \<Rightarrow> xfail_listener" where
  "OnTestStart t now me =
     delegate (Test_start t now) (me\<lparr>current_test_info := Some t, current_test_start := now\<rparr>)"

fun collect_skip_reasons :: "(string \<times> string) list \<Rightarrow> string list option \<Rightarrow> string list option" where
  "collect_skip_reasons [] reasons = reasons"
| "collect_skip_reasons ((key, val) # props) reasons =
     collect_skip_reasons props
       (if key = ''wlcs-skip-test''
        then Some ((case reasons of None \<Rightarrow> [] | Some rs \<Rightarrow> rs) @ [val]) else reasons)"

definition OnTestPartResult :: "bool \<Rightarrow> (string \<times> string) list \<Rightarrow> (xfail_listener, unit) eff" where
  "OnTestPartResult failed props me =
     (if failed then
        (case current_test_info me of
           None \<Rightarrow> (Inl (Undefined_behaviour ''current_test_info is not initialised''), me)
         | Some t \<Rightarrow>
             let me = me\<lparr>current_skip_reasons := collect_skip_reasons props (current_skip_reasons me)\<rparr> in
             if current_skip_reasons me \<noteq> None
             then (Inr (), me\<lparr>skipped_test_names := set_insert (full_name t) (skipped_test_names me)\<rparr>)
             else (Inr (), delegate (Test_part_result failed props)
                     (me\<lparr>failed_test_names := set_insert (full_name t) (failed_test_names me)\<rparr>)))
      else (Inr (), delegate (Test_part_result failed props) me))"

definition OnTestEnd :: "test_info \<Rightarrow> int \<Rightarrow> xfail_listener \<Rightarrow> xfail_listener" where
  "OnTestEnd t now me =
     (case current_skip_reasons me of
        Some reasons \<Rightarrow>
          let me = fold (\<lambda>reason. print_line (Line Yellow ''[          ]'' ('' '' @ reason))) reasons me;
              elapsed = now - current_test_start me;
              me = print_line (Line Yellow ''[     SKIP ]''
                     ('' '' @ full_name t @ '' ('' @ int_to_string elapsed @ ''ms)'')) me
          in me\<lparr>current_skip_reasons := None\<rparr>
      | None \<Rightarrow> (delegate (Test_end t now) me)\<lparr>current_skip_reasons := None\<rparr>)"

definition singular_or_plural :: "string \<Rightarrow> nat \<Rightarrow> string" where
  "singular_or_plural base count = (if count = 1 then base else base @ ''s'')"

definition OnTestIterationEnd :: "unit_test \<Rightarrow> xfail_listener \<Rightarrow> xfail_listener" where
  "OnTestIterationEnd u me =
     (let me = print_line (Line Green ''[==========] ''
            (nat_to_string (test_to_run_count u) @ '' tests from '' @ nat_to_string (test_case_to_run_count u) @
             '' test cases run. ('' @ nat_to_string (elapsed_time u) @ ''ms total elapsed)'')) me;
          me = print_line (Line Green ''[  PASSED  ]''
            ('' '' @ nat_to_string (successful_test_count u) @
             singular_or_plural '' test'' (successful_test_count u))) me;
          skipped_tests = length (skipped_test_names me);
          me = (if skipped_tests > 0 then
                  fold (\<lambda>name. print_line (Line Yellow ''[  SKIPPED ] '' name)) (skipped_test_names me)
                    (print_line (Line Yellow ''[  SKIPPED ] ''
                      (nat_to_string skipped_tests @ singular_or_plural '' test'' skipped_tests @ '' skipped:'')) me)
                else me);
          failed_tests = length (failed_test_names me)
      in if failed_tests > 0 then
           let me = me\<lparr>failed_flag := True\<rparr>;
               me = print_line (Line Red ''[  FAILED  ] ''
                      (nat_to_string failed_tests @ singular_or_plural '' test'' failed_tests @ '' failed:'')) me
           in fold (\<lambda>name. print_line (Line Red ''[  FAILED  ] '' name)) (failed_test_names me) me
         else me)"

text \<open>The virtual methods of the listener: the other ones only delegate.\<close>

fun listener_event :: "gtest_event \<Rightarrow> (xfail_listener, unit) eff" where
  "listener_event (Test_iteration_start i) me = (Inr (), OnTestIterationStart i me)"
| "listener_event (Test_start t now) me = (Inr (), OnTestStart t now me)"
| "listener_event (Test_part_result failed props) me = OnTestPartResult failed props me"
| "listener_event (Test_end t now) me = (Inr (), OnTestEnd t now me)"
| "listener_event (Test_iteration_end u i) me = (Inr (), OnTestIterationEnd u me)"
| "listener_event e me = (Inr (), delegate e me)"

fun listener_run :: "gtest_event list \<Rightarrow> (xfail_listener, unit) eff" where
  "listener_run [] me = (Inr (), me)"
| "listener_run (e # es) me = bindE (listener_event e) (\<lambda>_. listener_run es) me"

definition listener_failed :: "xfail_listener \<Rightarrow> bool" where
  "listener_failed me = failed_flag me"

section \<open>Loading the integration module\<close>

record dynamic_loader =
  dlopen :: "string \<Rightarrow> handle"
  dlsym :: "handle \<Rightarrow> string \<Rightarrow> handle"
  dlerror :: string

definition SharedLibrary :: "dynamic_loader \<Rightarrow> string \<Rightarrow> handle result" where
  "SharedLibrary dl library_name =
     (let so = dlopen dl library_name in
      if so = nullptr then Inl (Runtime_error (dlerror dl)) else Inr so)"

definition load_symbol :: "dynamic_loader \<Rightarrow> handle \<Rightarrow> string \<Rightarrow> handle result" where
  "load_symbol dl so function_name =
     (let r = dlsym dl so function_name in
      if r \<noteq> nullptr then Inr r else Inl (Runtime_error (dlerror dl)))"

text \<open>The globals of \<^verbatim>\<open>src/helpers.cpp\<close>.\<close>

record helper_globals =
  g_argc :: int
  g_argv :: "string option list"
  g_entry_point :: handle

definition set_command_line :: "int \<Rightarrow> string option list \<Rightarrow> helper_globals \<Rightarrow> helper_globals" where
  "set_command_line argc argv g = g\<lparr>g_argc := argc, g_argv := argv\<rparr>"

definition set_entry_point :: "handle \<Rightarrow> helper_globals \<Rightarrow> helper_globals" where
  "set_entry_point e g = g\<lparr>g_entry_point := e\<rparr>"

definition a_short_time :: "int \<Rightarrow> int" where
  "a_short_time multiplier = 1 * multiplier"

definition a_long_time :: "int \<Rightarrow> int" where
  "a_long_time multiplier = 10 * multiplier"

section \<open>\<^verbatim>\<open>main\<close>\<close>

text \<open>The loop that shuffles the module's name out of the arguments.\<close>

function shuffle_argv :: "nat \<Rightarrow> nat \<Rightarrow> 'a list \<Rightarrow> 'a list" where
  "shuffle_argv i argc argv =
     (if i < argc - 1 then shuffle_argv (i + 1) argc (argv[i := argv ! (i + 1)]) else argv)"
  by pat_completeness auto
termination
  by (relation "measure (\<lambda>(i, argc, argv). argc - i)") auto

declare shuffle_argv.simps [simp del]

text \<open>
  \<open>argv\<close> are the arguments left by \<^verbatim>\<open>InitGoogleTest\<close>; \<open>events\<close> is what \<^verbatim>\<open>RUN_ALL_TESTS\<close> delivers
  to the listener. An event whose handling is undefined behaviour leaves no result.
\<close>

definition wlcs_main ::
    "dynamic_loader \<Rightarrow> gtest_event list \<Rightarrow> string option list \<Rightarrow> helper_globals \<Rightarrow> int result \<times> helper_globals" where
  "wlcs_main dl events argv g =
     (let argc = length argv in
      if argc < 2 \<or> argv ! 1 = None \<or> argv ! 1 = Some ''--help'' then (Inr 1, g)
      else
        let integration_filename = the (argv ! 1);
            argv = shuffle_argv 1 argc argv;
            g = set_command_line (int argc - 1) argv g
        in case SharedLibrary dl integration_filename of
             Inl e \<Rightarrow> (Inr 1, g)
           | Inr dso \<Rightarrow>
               (case load_symbol dl dso ''wlcs_server_integration'' of
                  Inl e \<Rightarrow> (Inr 1, g)
                | Inr entry \<Rightarrow>
                    (case listener_run events new_listener of
                       (Inl e, _) \<Rightarrow> (Inl e, set_entry_point entry g)
                     | (Inr _, listener) \<Rightarrow>
                         (Inr (if listener_failed listener then 1 else 0), set_entry_point entry g))))"

section \<open>Runs of the test framework\<close>

text \<open>
  What googletest delivers: a test starts, reports its parts and ends; test cases run their tests
  one after the other; an iteration runs the test cases.
\<close>

record test_run =
  run_info :: test_info
  run_started :: int
  run_parts :: "(bool \<times> (string \<times> string) list) list"
  run_ended :: int

definition test_events :: "test_run \<Rightarrow> gtest_event list" where
  "test_events r =
     Test_start (run_info r) (run_started r) #
     map (\<lambda>(failed, props). Test_part_result failed props) (run_parts r) @
     [Test_end (run_info r) (run_ended r)]"

definition case_events :: "string \<times> test_run list \<Rightarrow> gtest_event list" where
  "case_events c = Test_case_start (fst c) # concat (map test_events (snd c)) @ [Test_case_end (fst c)]"

record iteration =
  iteration_number :: nat
  iteration_cases :: "(string \<times> test_run list) list"
  iteration_counts :: unit_test

definition iteration_events :: "iteration \<Rightarrow> gtest_event list" where
  "iteration_events it =
     [Test_iteration_start (iteration_number it), Environments_set_up_start, Environments_set_up_end] @
     concat (map case_events (iteration_cases it)) @
     [Environments_tear_down_start, Environments_tear_down_end,
      Test_iteration_end (iteration_counts it) (iteration_number it)]"

definition program_events :: "iteration list \<Rightarrow> gtest_event list" where
  "program_events its = Test_program_start # concat (map iteration_events its) @ [Test_program_end]"

definition iteration_tests :: "iteration \<Rightarrow> test_run list" where
  "iteration_tests it = concat (map snd (iteration_cases it))"

text \<open>A test's failing parts, before and after it recorded a reason to skip it.\<close>

definition skip_recorded :: "(string \<times> string) list \<Rightarrow> bool" where
  "skip_recorded props \<longleftrightarrow> ''wlcs-skip-test'' \<in> fst ` set props"

definition really_fails :: "test_run \<Rightarrow> bool" where
  "really_fails r \<longleftrightarrow> (\<exists>p \<in> set (run_parts r). fst p \<and> \<not> skip_recorded (snd p))"

definition is_skipped :: "test_run \<Rightarrow> bool" where
  "is_skipped r \<longleftrightarrow> (\<exists>p \<in> set (run_parts r). fst p \<and> skip_recorded (snd p))"

text \<open>Properties are only ever added during a test.\<close>

definition properties_grow :: "test_run \<Rightarrow> bool" where
  "properties_grow r \<longleftrightarrow> sorted_wrt (\<lambda>p q. set (snd p) \<subseteq> set (snd q)) (run_parts r)"

section \<open>Lemmas\<close>

lemma set_set_insert [simp]: "set (set_insert x xs) = insert x (set xs)"
  by (auto simp: set_insert_def)

lemma distinct_set_insert [simp]: "distinct xs \<Longrightarrow> distinct (set_insert x xs)"
  by (simp add: set_insert_def)

lemma collect_skip_reasons_None [simp]:
  "(collect_skip_reasons props reasons = None) \<longleftrightarrow> reasons = None \<and> \<not> skip_recorded props"
  by (induction props reasons rule: collect_skip_reasons.induct) (auto simp: skip_recorded_def)

lemma listener_run_append:
  "listener_run (es @ fs) me = bindE (listener_run es) (\<lambda>_. listener_run fs) me"
  by (induction es arbitrary: me) (auto simp: bindE_def split: prod.split sum.split)

text \<open>What a part of a run leaves, for the fields the outcome depends on.\<close>

definition leaves ::
    "xfail_listener \<Rightarrow> xfail_listener \<Rightarrow> string set \<Rightarrow> string set \<Rightarrow> bool" where
  "leaves me me' failures skips \<longleftrightarrow>
     set (failed_test_names me') = set (failed_test_names me) \<union> failures \<and>
     set (skipped_test_names me') = set (skipped_test_names me) \<union> skips \<and>
     failed_flag me' = failed_flag me \<and> current_skip_reasons me' = None"

lemma part_step:
  assumes "current_test_info me = Some t" and "current_skip_reasons me \<noteq> None \<longrightarrow> skip_recorded props"
  shows "\<exists>me1. OnTestPartResult failed props me = (Inr (), me1) \<and> current_test_info me1 = Some t \<and>
    (current_skip_reasons me1 \<noteq> None \<longrightarrow> current_skip_reasons me \<noteq> None \<or> (failed \<and> skip_recorded props)) \<and>
    set (failed_test_names me1) = set (failed_test_names me) \<union>
      (if failed \<and> \<not> skip_recorded props then {full_name t} else {}) \<and>
    set (skipped_test_names me1) = set (skipped_test_names me) \<union>
      (if failed \<and> skip_recorded props then {full_name t} else {}) \<and>
    failed_flag me1 = failed_flag me"
proof -
  consider "\<not> failed" | "failed" "skip_recorded props" | "failed" "\<not> skip_recorded props" by blast
  then show ?thesis
  proof cases
    case 1
    with assms(1) show ?thesis by (simp add: OnTestPartResult_def delegate_def)
  next
    case 2
    then obtain rs where "collect_skip_reasons props (current_skip_reasons me) = Some rs"
      using collect_skip_reasons_None [of props "current_skip_reasons me"] by blast
    with 2 assms(1) show ?thesis by (simp add: OnTestPartResult_def Let_def)
  next
    case 3
    then have "collect_skip_reasons props (current_skip_reasons me) = None" using assms(2) by simp
    with 3 assms(1) show ?thesis
      by (simp add: OnTestPartResult_def Let_def delegate_def del: collect_skip_reasons_None)
  qed
qed

lemma part_run:
  assumes "current_test_info me = Some t"
    and "sorted_wrt (\<lambda>p q. set (snd p) \<subseteq> set (snd q)) parts"
    and "current_skip_reasons me \<noteq> None \<longrightarrow> (\<forall>p \<in> set parts. skip_recorded (snd p))"
  shows "\<exists>me'. listener_run (map (\<lambda>(failed, props). Test_part_result failed props) parts) me = (Inr (), me') \<and>
    set (failed_test_names me') = set (failed_test_names me) \<union>
      (if \<exists>p \<in> set parts. fst p \<and> \<not> skip_recorded (snd p) then {full_name t} else {}) \<and>
    set (skipped_test_names me') = set (skipped_test_names me) \<union>
      (if \<exists>p \<in> set parts. fst p \<and> skip_recorded (snd p) then {full_name t} else {}) \<and>
    failed_flag me' = failed_flag me"
  using assms
proof (induction parts arbitrary: me)
  case (Cons p parts)
  obtain failed props where p: "p = (failed, props)" by fastforce
  have mono: "skip_recorded props \<Longrightarrow> q \<in> set parts \<Longrightarrow> skip_recorded (snd q)" for q
    using Cons.prems(2) p by (auto simp: skip_recorded_def)
  obtain me1 where step: "OnTestPartResult failed props me = (Inr (), me1)"
    and info: "current_test_info me1 = Some t"
    and reasons: "current_skip_reasons me1 \<noteq> None \<longrightarrow> current_skip_reasons me \<noteq> None \<or> (failed \<and> skip_recorded props)"
    and names: "set (failed_test_names me1) = set (failed_test_names me) \<union>
        (if failed \<and> \<not> skip_recorded props then {full_name t} else {})"
      "set (skipped_test_names me1) = set (skipped_test_names me) \<union>
        (if failed \<and> skip_recorded props then {full_name t} else {})"
      "failed_flag me1 = failed_flag me"
    using part_step [OF Cons.prems(1), of props failed] Cons.prems(3) p by auto
  have "current_skip_reasons me1 \<noteq> None \<longrightarrow> (\<forall>q \<in> set parts. skip_recorded (snd q))"
    using reasons mono Cons.prems(3) by auto
  then obtain me' where "listener_run (map (\<lambda>(failed, props). Test_part_result failed props) parts) me1 = (Inr (), me')"
    and "set (failed_test_names me') = set (failed_test_names me1) \<union>
        (if \<exists>p \<in> set parts. fst p \<and> \<not> skip_recorded (snd p) then {full_name t} else {})"
    and "set (skipped_test_names me') = set (skipped_test_names me1) \<union>
        (if \<exists>p \<in> set parts. fst p \<and> skip_recorded (snd p) then {full_name t} else {})"
    and "failed_flag me' = failed_flag me1"
    using Cons.IH [OF info] Cons.prems(2) by auto
  with step names p show ?case by (auto simp: bindE_def)
qed simp

lemma fold_print_line [simp]:
  "fold (\<lambda>x. print_line (f x)) xs me = me\<lparr>printed := printed me @ map f xs\<rparr>"
  by (induction xs arbitrary: me) (simp_all add: print_line_def)

lemma test_end_leaves:
  "set (failed_test_names (OnTestEnd t now me)) = set (failed_test_names me)"
  "set (skipped_test_names (OnTestEnd t now me)) = set (skipped_test_names me)"
  "failed_flag (OnTestEnd t now me) = failed_flag me" "current_skip_reasons (OnTestEnd t now me) = None"
  by (simp_all add: OnTestEnd_def delegate_def print_line_def Let_def split: option.split)

lemma test_run_leaves:
  assumes "properties_grow r" and "current_skip_reasons me = None"
  shows "\<exists>me'. listener_run (test_events r) me = (Inr (), me') \<and>
    leaves me me' (if really_fails r then {full_name (run_info r)} else {})
                  (if is_skipped r then {full_name (run_info r)} else {})"
proof -
  let ?me = "OnTestStart (run_info r) (run_started r) me"
  have start: "current_test_info ?me = Some (run_info r)" "current_skip_reasons ?me = None"
    "failed_test_names ?me = failed_test_names me" "skipped_test_names ?me = skipped_test_names me"
    "failed_flag ?me = failed_flag me"
    using assms(2) by (simp_all add: OnTestStart_def delegate_def)
  obtain me1 where "listener_run (map (\<lambda>(failed, props). Test_part_result failed props) (run_parts r)) ?me = (Inr (), me1)"
    and "set (failed_test_names me1) = set (failed_test_names me) \<union>
        (if really_fails r then {full_name (run_info r)} else {})"
    and "set (skipped_test_names me1) = set (skipped_test_names me) \<union>
        (if is_skipped r then {full_name (run_info r)} else {})"
    and "failed_flag me1 = failed_flag me"
    using part_run [OF start(1)] assms(1) start
    unfolding properties_grow_def really_fails_def is_skipped_def by fastforce
  then show ?thesis
    by (simp add: test_events_def bindE_def listener_run_append leaves_def test_end_leaves)
qed

definition names_of :: "(test_run \<Rightarrow> bool) \<Rightarrow> test_run list \<Rightarrow> string set" where
  "names_of P rs = {full_name (run_info r) | r. r \<in> set rs \<and> P r}"

lemma names_of_simps [simp]:
  "names_of P [] = {}" "names_of P (r # rs) = (if P r then {full_name (run_info r)} else {}) \<union> names_of P rs"
  "names_of P (rs @ qs) = names_of P rs \<union> names_of P qs"
  by (auto simp: names_of_def)

lemma leaves_reasons: "leaves me me' F S \<Longrightarrow> current_skip_reasons me' = None"
  by (simp add: leaves_def)

lemma leaves_trans:
  "leaves me me1 F S \<Longrightarrow> leaves me1 me2 F' S' \<Longrightarrow> leaves me me2 (F \<union> F') (S \<union> S')"
  by (auto simp: leaves_def)

lemma tests_run_leave:
  assumes "\<And>r. r \<in> set rs \<Longrightarrow> properties_grow r" and "current_skip_reasons me = None"
  shows "\<exists>me'. listener_run (concat (map test_events rs)) me = (Inr (), me') \<and>
    leaves me me' (names_of really_fails rs) (names_of is_skipped rs)"
  using assms
proof (induction rs arbitrary: me)
  case (Cons r rs)
  obtain me1 where 1: "listener_run (test_events r) me = (Inr (), me1)"
    and l1: "leaves me me1 (if really_fails r then {full_name (run_info r)} else {})
                  (if is_skipped r then {full_name (run_info r)} else {})"
    using test_run_leaves [of r me] Cons.prems by auto
  obtain me' where 2: "listener_run (concat (map test_events rs)) me1 = (Inr (), me')"
    and l2: "leaves me1 me' (names_of really_fails rs) (names_of is_skipped rs)"
    using Cons.IH [of me1] Cons.prems leaves_reasons [OF l1] by auto
  from leaves_trans [OF l1 l2] 1 2 show ?case by (auto simp: listener_run_append bindE_def)
qed (simp add: leaves_def)

lemma delegate_leaves [simp]:
  "leaves (delegate e me) me' F S = leaves me me' F S" "leaves me (delegate e me') F S = leaves me me' F S"
  "current_skip_reasons (delegate e me) = current_skip_reasons me"
  by (simp_all add: leaves_def delegate_def)

lemma cases_run_leave:
  assumes "\<And>r. r \<in> set (concat (map snd cs)) \<Longrightarrow> properties_grow r" and "current_skip_reasons me = None"
  shows "\<exists>me'. listener_run (concat (map case_events cs)) me = (Inr (), me') \<and>
    leaves me me' (names_of really_fails (concat (map snd cs))) (names_of is_skipped (concat (map snd cs)))"
  using assms
proof (induction cs arbitrary: me)
  case (Cons c cs)
  obtain me1 where 1: "listener_run (concat (map test_events (snd c))) (delegate (Test_case_start (fst c)) me) = (Inr (), me1)"
    and l1: "leaves me me1 (names_of really_fails (snd c)) (names_of is_skipped (snd c))"
    using tests_run_leave [of "snd c" "delegate (Test_case_start (fst c)) me"] Cons.prems by auto
  obtain me' where 2: "listener_run (concat (map case_events cs)) (delegate (Test_case_end (fst c)) me1) = (Inr (), me')"
    and l2: "leaves me1 me' (names_of really_fails (concat (map snd cs))) (names_of is_skipped (concat (map snd cs)))"
    using Cons.IH [of "delegate (Test_case_end (fst c)) me1"] Cons.prems leaves_reasons [OF l1] by auto
  have c: "case_events c = Test_case_start (fst c) # concat (map test_events (snd c)) @ [Test_case_end (fst c)]"
    by (simp add: case_events_def)
  from leaves_trans [OF l1 l2] 1 2 show ?case
    by (auto simp: c listener_run_append bindE_def)
qed (simp add: leaves_def)

lemma iteration_end_fields [simp]:
  "failed_flag (OnTestIterationEnd u me) \<longleftrightarrow> failed_flag me \<or> failed_test_names me \<noteq> []"
  "failed_test_names (OnTestIterationEnd u me) = failed_test_names me"
  "skipped_test_names (OnTestIterationEnd u me) = skipped_test_names me"
  "current_skip_reasons (OnTestIterationEnd u me) = current_skip_reasons me"
  by (simp_all add: OnTestIterationEnd_def Let_def print_line_def)

lemma iteration_run:
  assumes "\<And>r. r \<in> set (iteration_tests it) \<Longrightarrow> properties_grow r" and "current_skip_reasons me = None"
  shows "\<exists>me'. listener_run (iteration_events it) me = (Inr (), me') \<and> current_skip_reasons me' = None \<and>
    set (failed_test_names me') = names_of really_fails (iteration_tests it) \<and>
    set (skipped_test_names me') = names_of is_skipped (iteration_tests it) \<and>
    (failed_flag me' \<longleftrightarrow> failed_flag me \<or> (\<exists>r \<in> set (iteration_tests it). really_fails r))"
proof -
  define me0 where "me0 = delegate Environments_set_up_end (delegate Environments_set_up_start
      (OnTestIterationStart (iteration_number it) me))"
  have init: "failed_test_names me0 = []" "skipped_test_names me0 = []" "failed_flag me0 = failed_flag me"
    "current_skip_reasons me0 = None"
    using assms(2) by (simp_all add: me0_def OnTestIterationStart_def delegate_def)
  obtain me1 where 1: "listener_run (concat (map case_events (iteration_cases it))) me0 = (Inr (), me1)"
    and l: "leaves me0 me1 (names_of really_fails (iteration_tests it)) (names_of is_skipped (iteration_tests it))"
    using cases_run_leave [of "iteration_cases it" me0] assms(1) init(4) by (auto simp: iteration_tests_def)
  define me2 where "me2 = delegate Environments_tear_down_end (delegate Environments_tear_down_start me1)"
  have run: "listener_run (iteration_events it) me = (Inr (), OnTestIterationEnd (iteration_counts it) me2)"
    using 1 by (simp add: iteration_events_def listener_run_append bindE_def me2_def me0_def)
  have end': "set (failed_test_names me2) = names_of really_fails (iteration_tests it)"
    "set (skipped_test_names me2) = names_of is_skipped (iteration_tests it)"
    "failed_flag me2 = failed_flag me" "current_skip_reasons me2 = None"
    using l init by (simp_all add: leaves_def me2_def delegate_def)
  have "failed_test_names me2 \<noteq> [] \<longleftrightarrow> (\<exists>r \<in> set (iteration_tests it). really_fails r)"
    using end'(1) by (fastforce simp: names_of_def simp flip: set_empty)
  with run end' show ?thesis by simp
qed

lemma program_run:
  assumes "\<And>it r. it \<in> set its \<Longrightarrow> r \<in> set (iteration_tests it) \<Longrightarrow> properties_grow r"
    and "current_skip_reasons me = None"
  shows "\<exists>me'. listener_run (concat (map iteration_events its)) me = (Inr (), me') \<and>
    (failed_flag me' \<longleftrightarrow> failed_flag me \<or> (\<exists>it \<in> set its. \<exists>r \<in> set (iteration_tests it). really_fails r))"
  using assms
proof (induction its arbitrary: me)
  case (Cons it its)
  obtain me1 where 1: "listener_run (iteration_events it) me = (Inr (), me1)" "current_skip_reasons me1 = None"
    "failed_flag me1 \<longleftrightarrow> failed_flag me \<or> (\<exists>r \<in> set (iteration_tests it). really_fails r)"
    using iteration_run [of it me] Cons.prems by fastforce
  obtain me' where "listener_run (concat (map iteration_events its)) me1 = (Inr (), me')"
    "failed_flag me' \<longleftrightarrow> failed_flag me1 \<or> (\<exists>it \<in> set its. \<exists>r \<in> set (iteration_tests it). really_fails r)"
    using Cons.IH [of me1] Cons.prems(1) 1(2) by fastforce
  with 1 show ?case by (auto simp: listener_run_append bindE_def)
qed simp

lemma shuffle_argv_eq:
  assumes "1 \<le> i" and "argc = length argv" and "i \<le> argc - 1" and "i < argc"
  shows "take (argc - 1) (shuffle_argv i argc argv) = take i argv @ drop (Suc i) argv"
  using assms
proof (induction i argc argv rule: shuffle_argv.induct)
  case (1 i argc argv)
  show ?case
  proof (cases "i < argc - 1")
    case True
    then have lt: "Suc i < length argv" using 1 by simp
    let ?a = "argv[i := argv ! (i + 1)]"
    have "take (argc - 1) (shuffle_argv i argc argv) = take (argc - 1) (shuffle_argv (i + 1) argc ?a)"
      using True by (subst shuffle_argv.simps) simp
    also have "\<dots> = take (i + 1) ?a @ drop (Suc (i + 1)) ?a"
      using 1 True lt by simp
    also have "\<dots> = take i argv @ [argv ! (i + 1)] @ drop (Suc (Suc i)) argv"
      using lt by (simp add: take_Suc_conv_app_nth)
    also have "\<dots> = take i argv @ drop (Suc i) argv"
      using lt by (simp add: Cons_nth_drop_Suc)
    finally show ?thesis .
  next
    case False
    with 1 have "i = argc - 1" by simp
    with 1 False show ?thesis by (subst shuffle_argv.simps) simp
  qed
qed

section \<open>Properties\<close>

text \<open>
  Claim C13. The verdict of a test run: for every run of the framework, over any number of iterations,
  the exit status is failure exactly when some test, in some iteration, had a failing part before
  it had recorded a reason to be skipped; it is success otherwise. The module's name has been taken
  out of the command line given to the compositor, and its entry point is published to the tests.
\<close>

theorem main_exit_status:
  assumes "\<forall>it \<in> set its. \<forall>r \<in> set (iteration_tests it). properties_grow r"
    and "argv = prog # Some module # rest" and "module \<noteq> ''--help''"
    and "dlopen dl module = Some so" and "dlsym dl (Some so) ''wlcs_server_integration'' = Some entry"
  shows "\<exists>argv'. wlcs_main dl (program_events its) argv g =
      (Inr (if \<exists>it \<in> set its. \<exists>r \<in> set (iteration_tests it). really_fails r then 1 else 0),
       g\<lparr>g_argc := int (length rest) + 1, g_argv := argv', g_entry_point := Some entry\<rparr>) \<and>
    take (Suc (length rest)) argv' = prog # rest"
proof -
  have new: "current_skip_reasons (delegate Test_program_start new_listener) = None"
    "failed_flag (delegate Test_program_start new_listener) = False"
    by (simp_all add: new_listener_def delegate_def)
  obtain me' where run: "listener_run (concat (map iteration_events its)) (delegate Test_program_start new_listener) = (Inr (), me')"
    and flag: "failed_flag me' \<longleftrightarrow> (\<exists>it \<in> set its. \<exists>r \<in> set (iteration_tests it). really_fails r)"
    using program_run [where its = its, OF _ new(1)] assms(1) new(2) by fastforce
  have "listener_run (program_events its) new_listener = (Inr (), delegate Test_program_end me')"
    using run by (simp add: program_events_def listener_run_append bindE_def)
  moreover have "listener_failed (delegate Test_program_end me') = failed_flag me'"
    by (simp add: listener_failed_def delegate_def)
  moreover have "take (Suc (length rest)) (shuffle_argv 1 (length argv) argv) = prog # rest"
    using shuffle_argv_eq [of 1 "length argv" argv] assms(2) by (simp add: drop_Suc)
  ultimately show ?thesis
    using assms(2-5) flag
    by (intro exI [of _ "shuffle_argv 1 (length argv) argv"])
      (simp add: wlcs_main_def Let_def SharedLibrary_def load_symbol_def set_command_line_def set_entry_point_def add.commute)
qed

definition sample_run :: test_run where
  "sample_run =
     \<lparr>run_info = \<lparr>test_case_name = ''Suite'', test_name = ''test''\<rparr>, run_started = 0,
      run_parts = [(True, [(''wlcs-skip-test'', ''Missing extension'')])], run_ended = 5\<rparr>"

definition sample_iteration :: iteration where
  "sample_iteration =
     \<lparr>iteration_number = 0, iteration_cases = [(''Suite'', [sample_run])],
      iteration_counts = \<lparr>test_to_run_count = 1, test_case_to_run_count = 1, elapsed_time = 5,
        successful_test_count = 0\<rparr>\<rparr>"

definition sample_dl :: dynamic_loader where
  "sample_dl = \<lparr>dlopen = (\<lambda>n. Some 1), dlsym = (\<lambda>so n. Some 2), dlerror = []\<rparr>"

theorem main_exit_status_witness:
  "fst (wlcs_main sample_dl (program_events [sample_iteration])
     [Some ''wlcs'', Some ''module.so'', Some ''--opt''] \<lparr>g_argc = 0, g_argv = [], g_entry_point = None\<rparr>) = Inr 0"
proof -
  have grow: "\<forall>it \<in> set [sample_iteration]. \<forall>r \<in> set (iteration_tests it). properties_grow r"
    by (simp add: sample_iteration_def iteration_tests_def sample_run_def properties_grow_def)
  from main_exit_status [OF grow, where argv = "[Some ''wlcs'', Some ''module.so'', Some ''--opt'']" and
      prog = "Some ''wlcs''" and module = "''module.so''" and rest = "[Some ''--opt'']" and so = 1 and entry = 2 and
      dl = sample_dl and g = "\<lparr>g_argc = 0, g_argv = [], g_entry_point = None\<rparr>"]
  obtain argv' where "wlcs_main sample_dl (program_events [sample_iteration])
      [Some ''wlcs'', Some ''module.so'', Some ''--opt''] \<lparr>g_argc = 0, g_argv = [], g_entry_point = None\<rparr> =
    (Inr (if \<exists>it \<in> set [sample_iteration]. \<exists>r \<in> set (iteration_tests it). really_fails r then 1 else 0),
     \<lparr>g_argc = 2, g_argv = argv', g_entry_point = Some 2\<rparr>)"
    by (auto simp: sample_dl_def)
  moreover have "\<not> (\<exists>it \<in> set [sample_iteration]. \<exists>r \<in> set (iteration_tests it). really_fails r)"
    by (simp add: sample_iteration_def iteration_tests_def sample_run_def really_fails_def skip_recorded_def)
  ultimately show ?thesis by simp
qed

text \<open>
  A failure outside any test, before the first test has started, reads the uninitialised pointer;
  and every failing part of a skipped test appends all the reasons again.
\<close>

lemma failure_before_first_test:
  "fst (listener_run [Test_program_start, Test_iteration_start 0, Test_part_result True props] new_listener) =
     Inl (Undefined_behaviour ''current_test_info is not initialised'')"
  by (simp add: bindE_def OnTestPartResult_def OnTestIterationStart_def delegate_def new_listener_def)

lemma skip_reasons_repeat:
  "collect_skip_reasons [(''wlcs-skip-test'', r)] (collect_skip_reasons [(''wlcs-skip-test'', r)] None) = Some [r, r]"
  by simp

text \<open>
  The report of an iteration: the names listed as failed are those of the tests with a
  failing part before any reason to skip, the names listed as skipped are those of the tests with a
  failing part after one, whatever earlier iterations did; a test can be in both lists.
\<close>

theorem iteration_report:
  assumes "\<forall>r \<in> set (iteration_tests it). properties_grow r" and "current_skip_reasons me = None"
  shows "\<exists>me'. listener_run (iteration_events it) me = (Inr (), me') \<and>
    set (failed_test_names me') = names_of really_fails (iteration_tests it) \<and>
    set (skipped_test_names me') = names_of is_skipped (iteration_tests it)"
  using iteration_run [OF bspec [OF assms(1)] assms(2)] by blast

theorem iteration_report_witness:
  "\<exists>me'. listener_run (iteration_events sample_iteration) new_listener = (Inr (), me') \<and>
    set (failed_test_names me') = {} \<and> set (skipped_test_names me') = {''Suite.test''}"
proof -
  have grow: "\<forall>r \<in> set (iteration_tests sample_iteration). properties_grow r"
    by (simp add: sample_iteration_def iteration_tests_def sample_run_def properties_grow_def)
  have "names_of really_fails (iteration_tests sample_iteration) = {}"
    "names_of is_skipped (iteration_tests sample_iteration) = {''Suite.test''}"
    by (simp_all add: sample_iteration_def iteration_tests_def sample_run_def really_fails_def names_of_def
        is_skipped_def skip_recorded_def full_name_def)
  with iteration_report [OF grow, of new_listener] show ?thesis by (simp add: new_listener_def)
qed

end
