(* ===== verification/Test_Support.thy ===== *)
theory Test_Support
  imports Prelude "HOL-Library.Signed_Division"
begin

text \<open>
  What the headers give to tests: the mocks of text input and input method objects
  (\<^verbatim>\<open>include/mock_text_input_v2.h\<close>, \<^verbatim>\<open>include/mock_text_input_v3.h\<close>,
  \<^verbatim>\<open>include/mock_input_method_v1.h\<close>, \<^verbatim>\<open>include/mock_input_method_v2.h\<close> on
  \<^verbatim>\<open>include/method_event_impl.h\<close>), the macro \<^verbatim>\<open>EXPECT_PROTOCOL_ERROR\<close> and the printing of
  times of \<^verbatim>\<open>include/gtest_helpers.h\<close>. A call of a mock method is recorded; what GoogleMock then does with
  it is not modelled.
\<close>

section \<open>Mocks\<close>

text \<open>
  \<^verbatim>\<open>method_event_impl\<close> passes the arguments of an event to a method of the object. A string
  arrives as a pointer to characters, which may be null, and becomes a \<^verbatim>\<open>std::string\<close>; that is
  undefined for a null pointer.
\<close>

definition std_string :: "string option \<Rightarrow> string result" where
  "std_string s = (case s of None \<Rightarrow> Inl (Undefined_behaviour ''std::string from a null pointer'') | Some t \<Rightarrow> Inr t)"

text \<open>
  A mock object: the calls of its mock methods in order (\<open>'c\<close> is the type of calls), the last serial
  (\<open>None\<close>: never written), and the counter of done events.
\<close>

record 'c mock =
  mock_calls :: "'c list"
  mock_serial :: "u32 option"
  done_count :: u32

definition mock_call :: "'c \<Rightarrow> ('c mock, unit) eff" where
  "mock_call c m = (Inr (), m\<lparr>mock_calls := mock_calls m @ [c]\<rparr>)"

definition with_string :: "string option \<Rightarrow> (string \<Rightarrow> ('s, 'a) eff) \<Rightarrow> ('s, 'a) eff" where
  "with_string s f m = (case std_string s of Inl e \<Rightarrow> (Inl e, m) | Inr t \<Rightarrow> f t m)"

subsection \<open>\<^verbatim>\<open>MockTextInputV2\<close>\<close>

datatype text_input_v2_event =
    V2_enter u32 handle | V2_leave u32 handle
  | V2_input_panel_state u32 int int int int
  | V2_preedit_string "string option" "string option"
  | V2_predit_styling u32 u32 u32
  | V2_preedit_cursor int
  | V2_commit_string "string option"
  | V2_cursor_position int int
  | V2_delete_surrounding_text u32 u32
  | V2_modifiers_map "u32 list"
  | V2_keysym u32 u32 u32 u32
  | V2_language "string option"
  | V2_text_direction u32
  | V2_configure_surrounding_text int int
  | V2_input_method_changed u32 u32

text \<open>\<open>serial\<close> has no initialiser.\<close>

definition MockTextInputV2 :: "text_input_v2_event mock" where
  "MockTextInputV2 = \<lparr>mock_calls = [], mock_serial = None, done_count = 0\<rparr>"

definition mock_set_serial :: "u32 \<Rightarrow> 'c mock \<Rightarrow> 'c mock" where
  "mock_set_serial s m = m\<lparr>mock_serial := Some s\<rparr>"

fun text_input_v2_listener :: "text_input_v2_event \<Rightarrow> (text_input_v2_event mock, unit) eff" where
  "text_input_v2_listener (V2_enter in_serial surface) m = mock_call (V2_enter in_serial surface) (mock_set_serial in_serial m)"
| "text_input_v2_listener (V2_leave in_serial surface) m = mock_call (V2_leave in_serial surface) (mock_set_serial in_serial m)"
| "text_input_v2_listener (V2_preedit_string text commit) m =
     with_string text (\<lambda>t. with_string commit (\<lambda>c. mock_call (V2_preedit_string (Some t) (Some c)))) m"
| "text_input_v2_listener (V2_commit_string text) m = with_string text (\<lambda>t. mock_call (V2_commit_string (Some t))) m"
| "text_input_v2_listener (V2_language text) m = with_string text (\<lambda>t. mock_call (V2_language (Some t))) m"
| "text_input_v2_listener (V2_input_method_changed in_serial reason) m =
     mock_call (V2_input_method_changed in_serial reason) (mock_set_serial in_serial m)"
| "text_input_v2_listener e m = mock_call e m"

subsection \<open>\<^verbatim>\<open>MockTextInputV3\<close>\<close>

datatype text_input_v3_event =
    V3_enter handle | V3_leave handle
  | V3_preedit_string "string option" int int
  | V3_commit_string "string option"
  | V3_delete_surrounding_text int int
  | V3_done int

definition MockTextInputV3 :: "text_input_v3_event mock" where
  "MockTextInputV3 = \<lparr>mock_calls = [], mock_serial = None, done_count = 0\<rparr>"

fun text_input_v3_listener :: "text_input_v3_event \<Rightarrow> (text_input_v3_event mock, unit) eff" where
  "text_input_v3_listener (V3_preedit_string text b e) m = with_string text (\<lambda>t. mock_call (V3_preedit_string (Some t) b e)) m"
| "text_input_v3_listener (V3_commit_string text) m = with_string text (\<lambda>t. mock_call (V3_commit_string (Some t))) m"
| "text_input_v3_listener e m = mock_call e m"

subsection \<open>\<^verbatim>\<open>MockInputMethodContextV1\<close>\<close>

datatype input_method_v1_event =
    Im1_surrounding_text "string option" u32 u32
  | Im1_reset
  | Im1_content_type u32 u32
  | Im1_invoke_action u32 u32
  | Im1_commit_state u32
  | Im1_preferred_language "string option"

definition MockInputMethodContextV1 :: "input_method_v1_event mock" where
  "MockInputMethodContextV1 = \<lparr>mock_calls = [], mock_serial = Some 0, done_count = 0\<rparr>"

text \<open>\<^verbatim>\<open>commit_state\<close> is not a mock method.\<close>

fun input_method_v1_listener :: "input_method_v1_event \<Rightarrow> (input_method_v1_event mock, unit) eff" where
  "input_method_v1_listener (Im1_surrounding_text text cursor anchor) m =
     with_string text (\<lambda>t. mock_call (Im1_surrounding_text (Some t) cursor anchor)) m"
| "input_method_v1_listener (Im1_commit_state in_serial) m = (Inr (), mock_set_serial in_serial m)"
| "input_method_v1_listener (Im1_preferred_language text) m =
     with_string text (\<lambda>t. mock_call (Im1_preferred_language (Some t))) m"
| "input_method_v1_listener e m = mock_call e m"

subsection \<open>\<^verbatim>\<open>MockInputMethodV2\<close>\<close>

datatype input_method_v2_event =
    Im2_activate | Im2_deactivate
  | Im2_surrounding_text "string option" u32 u32
  | Im2_text_change_cause u32
  | Im2_content_type u32 u32
  | Im2_done
  | Im2_unavailable

definition MockInputMethodV2 :: "input_method_v2_event mock" where
  "MockInputMethodV2 = \<lparr>mock_calls = [], mock_serial = None, done_count = 0\<rparr>"

definition done_wrapper :: "(input_method_v2_event mock, unit) eff" where
  "done_wrapper m = mock_call Im2_done (m\<lparr>done_count := done_count m + 1\<rparr>)"

fun input_method_v2_listener :: "input_method_v2_event \<Rightarrow> (input_method_v2_event mock, unit) eff" where
  "input_method_v2_listener (Im2_surrounding_text text cursor anchor) m =
     with_string text (\<lambda>t. mock_call (Im2_surrounding_text (Some t) cursor anchor)) m"
| "input_method_v2_listener Im2_done m = done_wrapper m"
| "input_method_v2_listener e m = mock_call e m"

text \<open>A sequence of events, as long as none of them is undefined.\<close>

fun mock_events :: "('e \<Rightarrow> ('e mock, unit) eff) \<Rightarrow> 'e list \<Rightarrow> ('e mock, unit) eff" where
  "mock_events listener [] m = (Inr (), m)"
| "mock_events listener (e # es) m = bindE (listener e) (\<lambda>_. mock_events listener es) m"

section \<open>\<^verbatim>\<open>EXPECT_PROTOCOL_ERROR\<close>\<close>

text \<open>
  The macro runs a block: the failures it records for the test, and the exception that leaves it, if
  any. Interfaces are compared as pointers, here by their names and versions.
\<close>

definition EXPECT_PROTOCOL_ERROR ::
    "('s, 'a) eff \<Rightarrow> (string \<times> u32) option \<Rightarrow> u32 \<Rightarrow> ('s, string list) eff" where
  "EXPECT_PROTOCOL_ERROR block iface err_code s =
     (case block s of
        (Inr _, s) \<Rightarrow> (Inr [''Expected protocol error not raised''], s)
      | (Inl (Protocol_error i c), s) \<Rightarrow>
          (Inr ((if i = iface then [] else [''err.interface()'']) @ (if c = err_code then [] else [''err.error_code()''])), s)
      | (Inl e, s) \<Rightarrow> (Inl e, s))"

section \<open>Printing times\<close>

text \<open>\<^verbatim>\<open>setw(n) << setfill('0')\<close>.\<close>

definition pad :: "nat \<Rightarrow> string \<Rightarrow> string" where
  "pad n s = replicate (n - length s) CHR ''0'' @ s"

text \<open>The time since the epoch in nanoseconds; \<^verbatim>\<open>duration_cast\<close> rounds towards zero.\<close>

definition PrintTo :: "int \<Rightarrow> string" where
  "PrintTo time =
     (let hours = time sdiv (3600 * 10 ^ 9); remainder = time - hours * (3600 * 10 ^ 9);
          minutes = remainder sdiv (60 * 10 ^ 9); remainder = remainder - minutes * (60 * 10 ^ 9);
          seconds = remainder sdiv 10 ^ 9; nsec = remainder - seconds * 10 ^ 9
      in int_to_string hours @ '':'' @ pad 2 (int_to_string minutes) @ '':'' @ pad 2 (int_to_string seconds) @
         ''.'' @ pad 9 (int_to_string nsec))"

section \<open>Lemmas\<close>

lemma with_string_Some [simp]: "with_string (Some t) f = f t"
  by (simp add: fun_eq_iff with_string_def std_string_def)

lemma with_string_None [simp]: "with_string None f m = (Inl (Undefined_behaviour ''std::string from a null pointer''), m)"
  by (simp add: with_string_def std_string_def)

lemma mock_events_append:
  "mock_events l (es @ fs) m = bindE (mock_events l es) (\<lambda>_. mock_events l fs) m"
  by (induction es arbitrary: m) (auto simp: bindE_def split: prod.split sum.split)

text \<open>The events whose strings are there.\<close>

fun v2_strings :: "text_input_v2_event \<Rightarrow> bool" where
  "v2_strings (V2_preedit_string t c) \<longleftrightarrow> t \<noteq> None \<and> c \<noteq> None"
| "v2_strings (V2_commit_string t) \<longleftrightarrow> t \<noteq> None"
| "v2_strings (V2_language t) \<longleftrightarrow> t \<noteq> None"
| "v2_strings _ \<longleftrightarrow> True"

fun v3_strings :: "text_input_v3_event \<Rightarrow> bool" where
  "v3_strings (V3_preedit_string t b e) \<longleftrightarrow> t \<noteq> None"
| "v3_strings (V3_commit_string t) \<longleftrightarrow> t \<noteq> None"
| "v3_strings _ \<longleftrightarrow> True"

fun im2_strings :: "input_method_v2_event \<Rightarrow> bool" where
  "im2_strings (Im2_surrounding_text t c a) \<longleftrightarrow> t \<noteq> None"
| "im2_strings _ \<longleftrightarrow> True"

text \<open>The serial that an event of the second text input protocol carries.\<close>

fun v2_serial :: "text_input_v2_event \<Rightarrow> u32 option" where
  "v2_serial (V2_enter s h) = Some s"
| "v2_serial (V2_leave s h) = Some s"
| "v2_serial (V2_input_method_changed s r) = Some s"
| "v2_serial _ = None"

definition last_serial :: "text_input_v2_event list \<Rightarrow> u32 option" where
  "last_serial es = (let ss = List.map_filter v2_serial es in if ss = [] then None else Some (last ss))"

lemma last_serial_snoc: "last_serial (es @ [e]) = (case v2_serial e of None \<Rightarrow> last_serial es | Some s \<Rightarrow> Some s)"
  by (simp add: last_serial_def List.map_filter_def Let_def split: option.split)

lemma text_input_v2_one:
  assumes "v2_strings e"
  shows "text_input_v2_listener e m =
    (Inr (), m\<lparr>mock_calls := mock_calls m @ [e], mock_serial := (case v2_serial e of None \<Rightarrow> mock_serial m | Some s \<Rightarrow> Some s)\<rparr>)"
  using assms by (cases e) (auto simp: mock_call_def mock_set_serial_def)

lemma text_input_v2_events:
  assumes "\<forall>e \<in> set es. v2_strings e"
  shows "mock_events text_input_v2_listener es MockTextInputV2 =
    (Inr (), \<lparr>mock_calls = es, mock_serial = last_serial es, done_count = 0\<rparr>)"
  using assms
proof (induction es rule: rev_induct)
  case Nil
  show ?case by (simp add: MockTextInputV2_def last_serial_def List.map_filter_def)
next
  case (snoc e es)
  then show ?case by (simp add: mock_events_append bindE_def text_input_v2_one last_serial_snoc split: option.split)
qed

lemma text_input_v3_one:
  "v3_strings e \<Longrightarrow> text_input_v3_listener e m = (Inr (), m\<lparr>mock_calls := mock_calls m @ [e]\<rparr>)"
  by (cases e) (auto simp: mock_call_def)

lemma text_input_v3_events:
  assumes "\<forall>e \<in> set es. v3_strings e"
  shows "mock_events text_input_v3_listener es MockTextInputV3 =
    (Inr (), \<lparr>mock_calls = es, mock_serial = None, done_count = 0\<rparr>)"
  using assms
  by (induction es rule: rev_induct)
    (simp_all add: MockTextInputV3_def mock_events_append bindE_def text_input_v3_one)

lemma input_method_v2_one:
  "im2_strings e \<Longrightarrow> input_method_v2_listener e m =
    (Inr (), m\<lparr>mock_calls := mock_calls m @ [e], done_count := done_count m + of_bool (e = Im2_done)\<rparr>)"
  by (cases e) (auto simp: mock_call_def done_wrapper_def)

lemma input_method_v2_events:
  assumes "\<forall>e \<in> set es. im2_strings e"
  shows "mock_events input_method_v2_listener es MockInputMethodV2 =
    (Inr (), \<lparr>mock_calls = es, mock_serial = None, done_count = of_nat (count_list es Im2_done)\<rparr>)"
  using assms
  by (induction es rule: rev_induct)
    (auto simp: MockInputMethodV2_def mock_events_append bindE_def input_method_v2_one)

text \<open>The first input method protocol: the serials of commits, and the calls of the other events.\<close>

fun im1_strings :: "input_method_v1_event \<Rightarrow> bool" where
  "im1_strings (Im1_surrounding_text t c a) \<longleftrightarrow> t \<noteq> None"
| "im1_strings (Im1_preferred_language t) \<longleftrightarrow> t \<noteq> None"
| "im1_strings _ \<longleftrightarrow> True"

fun im1_serial :: "input_method_v1_event \<Rightarrow> u32 option" where
  "im1_serial (Im1_commit_state s) = Some s"
| "im1_serial _ = None"

lemma input_method_v1_one:
  assumes "im1_strings e"
  shows "input_method_v1_listener e m =
    (Inr (), m\<lparr>mock_calls := mock_calls m @ (if im1_serial e = None then [e] else []),
              mock_serial := (case im1_serial e of None \<Rightarrow> mock_serial m | Some s \<Rightarrow> Some s)\<rparr>)"
  using assms by (cases e) (auto simp: mock_call_def mock_set_serial_def)

lemma input_method_v1_events:
  assumes "\<forall>e \<in> set es. im1_strings e"
  shows "mock_events input_method_v1_listener es MockInputMethodContextV1 =
    (Inr (), \<lparr>mock_calls = filter (\<lambda>e. im1_serial e = None) es,
              mock_serial = Some (last (0 # List.map_filter im1_serial es)), done_count = 0\<rparr>)"
  using assms
proof (induction es rule: rev_induct)
  case Nil
  show ?case by (simp add: MockInputMethodContextV1_def List.map_filter_def)
next
  case (snoc e es)
  then show ?case
    by (auto simp: mock_events_append bindE_def input_method_v1_one List.map_filter_def split: option.split)
qed

text \<open>Decimal numbers of bounded length.\<close>

lemma length_nat_to_string: "n < 10 ^ Suc k \<Longrightarrow> length (nat_to_string n) \<le> Suc k"
proof (induction k arbitrary: n)
  case 0
  then show ?case by (subst nat_to_string.simps) simp
next
  case (Suc k)
  then have "length (nat_to_string (n div 10)) \<le> Suc k" by (intro Suc.IH) (simp add: less_mult_imp_div_less)
  then show ?case by (subst nat_to_string.simps) simp
qed

lemma read_nat_pad: "read_nat (pad n s) = read_nat s"
proof -
  have "foldl (\<lambda>acc c. 10 * acc + digit_val c) 0 (replicate k CHR ''0'') = 0" for k
    by (induction k) (simp_all add: digit_val_def)
  then show ?thesis by (simp add: read_nat_def pad_def)
qed

lemma length_pad: "length s \<le> n \<Longrightarrow> length (pad n s) = n"
  by (simp add: pad_def)

lemma sdiv_nonneg: "0 \<le> a \<Longrightarrow> 0 < b \<Longrightarrow> a sdiv b = a div (b :: int)"
  by (simp add: signed_divide_int_def sgn_if)

lemma read_two: "0 \<le> z \<Longrightarrow> read_nat (pad n (int_to_string z)) = nat z"
  by (simp add: read_nat_pad int_to_string_def)

lemma length_two:
  assumes "0 \<le> z" and "z < 10 ^ Suc k"
  shows "length (pad (Suc k) (int_to_string z)) = Suc k"
proof -
  have "nat z < 10 ^ Suc k" using assms by (metis nat_less_iff of_nat_numeral of_nat_power)
  then show ?thesis using assms(1) length_nat_to_string [of "nat z" k] by (simp add: length_pad int_to_string_def)
qed

section \<open>Properties\<close>

text \<open>
  The mocks report exactly what the compositor sent. As long as every string of the events
  is there, each event calls its mock method once, with its arguments and in order; the serial of a
  text input object is that of the last event that carried one, the serial of an input method context
  that of the last commit, and the counter of an input method is the number of done events, modulo
  2 to the 32. An event with a null string, which the third
  text input protocol admits, is undefined and calls nothing.
\<close>

theorem mocks_follow_events:
  "(list_all im1_strings es1 \<longrightarrow>
      mock_events input_method_v1_listener es1 MockInputMethodContextV1 =
        (Inr (), \<lparr>mock_calls = filter (\<lambda>e. im1_serial e = None) es1,
                  mock_serial = Some (last (0 # List.map_filter im1_serial es1)), done_count = 0\<rparr>)) \<and>
   (list_all v2_strings es2 \<longrightarrow>
      mock_events text_input_v2_listener es2 MockTextInputV2 =
        (Inr (), \<lparr>mock_calls = es2, mock_serial = last_serial es2, done_count = 0\<rparr>)) \<and>
   (list_all v3_strings es3 \<longrightarrow>
      mock_events text_input_v3_listener es3 MockTextInputV3 =
        (Inr (), \<lparr>mock_calls = es3, mock_serial = None, done_count = 0\<rparr>)) \<and>
   (list_all im2_strings es4 \<longrightarrow>
      mock_events input_method_v2_listener es4 MockInputMethodV2 =
        (Inr (), \<lparr>mock_calls = es4, mock_serial = None, done_count = of_nat (count_list es4 Im2_done)\<rparr>)) \<and>
   (\<not> v3_strings e \<longrightarrow>
      text_input_v3_listener e m = (Inl (Undefined_behaviour ''std::string from a null pointer''), m))"
proof -
  have "\<not> v3_strings e \<longrightarrow>
      text_input_v3_listener e m = (Inl (Undefined_behaviour ''std::string from a null pointer''), m)"
    by (cases e) auto
  then show ?thesis
    using input_method_v1_events [of es1] text_input_v2_events [of es2] text_input_v3_events [of es3] input_method_v2_events [of es4]
    by (simp add: list_all_iff)
qed

theorem mocks_follow_events_witness:
  "mock_events text_input_v2_listener [V2_enter 4 (Some 1), V2_commit_string (Some ''a''), V2_leave 9 (Some 1)] MockTextInputV2 =
     (Inr (), \<lparr>mock_calls = [V2_enter 4 (Some 1), V2_commit_string (Some ''a''), V2_leave 9 (Some 1)],
               mock_serial = Some 9, done_count = 0\<rparr>) \<and>
   done_count (snd (mock_events input_method_v2_listener [Im2_activate, Im2_done, Im2_done] MockInputMethodV2)) = 2"
  using mocks_follow_events [of "[]" "[V2_enter 4 (Some 1), V2_commit_string (Some ''a''), V2_leave 9 (Some 1)]" "[]"
      "[Im2_activate, Im2_done, Im2_done]"]
  by (simp add: last_serial_def List.map_filter_def)

text \<open>
  A test with \<^verbatim>\<open>EXPECT_PROTOCOL_ERROR\<close> passes exactly when its block throws a protocol
  error of the given interface and code: it records no failure and lets no exception through just
  in that case, and whatever else the block throws passes through the macro.
\<close>

theorem expect_protocol_error_passes:
  "(fst (EXPECT_PROTOCOL_ERROR block iface err_code s) = Inr [] \<longleftrightarrow> fst (block s) = Inl (Protocol_error iface err_code)) \<and>
   (fst (EXPECT_PROTOCOL_ERROR block iface err_code s) = Inl e \<longleftrightarrow>
      fst (block s) = Inl e \<and> \<not> (\<exists>i c. e = Protocol_error i c))"
proof -
  obtain r s' where b: "block s = (r, s')" by fastforce
  show ?thesis
    by (cases r; cases "projl r") (auto simp: EXPECT_PROTOCOL_ERROR_def b)
qed

text \<open>
  A printed time can be read back: it is the hours, two digits of minutes below 60, two
  digits of seconds below 60 and nine digits of nanoseconds, and these add up to the time.
\<close>

theorem printed_time_round_trip:
  assumes "0 \<le> time"
  shows "\<exists>h mm ss ns. PrintTo time = h @ '':'' @ mm @ '':'' @ ss @ ''.'' @ ns \<and>
    length mm = 2 \<and> length ss = 2 \<and> length ns = 9 \<and> read_nat mm < 60 \<and> read_nat ss < 60 \<and>
    time = int (((read_nat h * 60 + read_nat mm) * 60 + read_nat ss) * 10 ^ 9 + read_nat ns)"
proof -
  define h r1 where "h = time div (3600 * 10 ^ 9)" and "r1 = time - h * (3600 * 10 ^ 9)"
  define m r2 where "m = r1 div (60 * 10 ^ 9)" and "r2 = r1 - m * (60 * 10 ^ 9)"
  define s n where "s = r2 div 10 ^ 9" and "n = r2 - s * 10 ^ 9"
  have r1: "0 \<le> r1" "r1 < 3600 * 10 ^ 9" and h: "0 \<le> h"
    using assms by (simp_all add: h_def r1_def minus_div_mult_eq_mod)
  have r2: "0 \<le> r2" "r2 < 60 * 10 ^ 9" and m: "0 \<le> m" "m < 60"
    using r1 by (simp_all add: m_def r2_def minus_div_mult_eq_mod)
  have n: "0 \<le> n" "n < 10 ^ 9" and s: "0 \<le> s" "s < 60"
    using r2 by (simp_all add: s_def n_def minus_div_mult_eq_mod)
  let ?mm = "pad 2 (int_to_string m)" and ?ss = "pad 2 (int_to_string s)" and ?ns = "pad 9 (int_to_string n)"
  have print: "PrintTo time = int_to_string h @ '':'' @ ?mm @ '':'' @ ?ss @ ''.'' @ ?ns"
  proof -
    have div: "time sdiv (3600 * 10 ^ 9) = h" "r1 sdiv (60 * 10 ^ 9) = m" "r2 sdiv 10 ^ 9 = s"
      using assms r1(1) r2(1) by (simp_all add: sdiv_nonneg h_def m_def s_def)
    show ?thesis
      unfolding PrintTo_def Let_def div r1_def [symmetric] r2_def [symmetric] n_def [symmetric] ..
  qed
  have lengths: "length ?mm = 2" "length ?ss = 2" "length ?ns = 9"
    using length_two [of m 1] length_two [of s 1] length_two [of n 8] m s n by (simp_all add: numeral_eq_Suc)
  have reads: "read_nat (int_to_string h) = nat h" "read_nat ?mm = nat m" "read_nat ?ss = nat s" "read_nat ?ns = nat n"
    using h m s n by (simp_all add: read_two) (simp add: int_to_string_def)
  have "time = ((h * 60 + m) * 60 + s) * 10 ^ 9 + n"
    unfolding n_def r2_def r1_def by (simp add: algebra_simps)
  also have "\<dots> = int (((nat h * 60 + nat m) * 60 + nat s) * 10 ^ 9 + nat n)" using h m s n by simp
  finally have sum: "time = int (((read_nat (int_to_string h) * 60 + read_nat ?mm) * 60 + read_nat ?ss) * 10 ^ 9 + read_nat ?ns)"
    unfolding reads .
  have "read_nat ?mm < 60" and "read_nat ?ss < 60" using m s unfolding reads by simp_all
  with print lengths sum show ?thesis by blast
qed

theorem printed_time_round_trip_witness:
  "0 \<le> (3723000000045 :: int) \<and> (\<exists>h mm ss ns. PrintTo 3723000000045 = h @ '':'' @ mm @ '':'' @ ss @ ''.'' @ ns \<and>
     length ns = 9 \<and> (3723000000045 :: int) = int (((read_nat h * 60 + read_nat mm) * 60 + read_nat ss) * 10 ^ 9 + read_nat ns))"
  using printed_time_round_trip [of 3723000000045] by fastforce

end
