(* ===== verification/Module_Lifetime.thy ===== *)
theory Module_Lifetime
  imports Prelude
begin

text \<open>
  How long the integration module stays loaded. \<^verbatim>\<open>main\<close> loads it into a \<^verbatim>\<open>SharedLibrary\<close>, whose
  destructor unloads it; everything that may call into the module holds a share of that object:
  \<^verbatim>\<open>main\<close>, the global \<^verbatim>\<open>entry_point\<close> of \<^verbatim>\<open>src/helpers.cpp\<close>, the member \<^verbatim>\<open>hooks\<close> of a
  \<^verbatim>\<open>Server::Impl\<close>, and the member \<^verbatim>\<open>keep_dso_loaded\<close> of the \<^verbatim>\<open>Impl\<close> of a \<^verbatim>\<open>Pointer\<close>, \<^verbatim>\<open>Touch\<close> or
  \<^verbatim>\<open>Keyboard\<close>. Here these owners are counted, with the objects of those classes, which can be moved,
  and with the order in which members are destroyed. What a call does inside the module is the
  subject of the theories \<open>Devices\<close> and \<open>Server\<close>; here a call is recorded, and undefined when the
  module is no longer loaded.
\<close>

section \<open>State\<close>

datatype device_class = Pointer_class | Touch_class | Keyboard_class

datatype pointer_request = Move_to int int | Move_by int int | Button_down int | Button_up int
datatype touch_request = Down_at int int | Drag_to int int | Lift
datatype keyboard_request = Key_down int | Key_up int
datatype server_request = Start | Stop | Create_client_socket | Move_surface_to handle int int

text \<open>The calls into the module; devices are named by the number the module gave them.\<close>

datatype module_call =
    Create_server
  | Destroy_server nat
  | Server_call nat server_request
  | Create_device nat device_class
  | Destroy_device nat
  | Pointer_call nat pointer_request
  | Touch_call nat touch_request
  | Keyboard_call nat keyboard_request

text \<open>An object of a device class: its \<^verbatim>\<open>unique_ptr\<close> to an \<^verbatim>\<open>Impl\<close>, here the raw device in it.\<close>

record device_object =
  dev_class :: device_class
  dev_impl :: "nat option"

record module_world =
  dso_refs :: nat
  module_loaded :: bool
  main_locals :: bool
  global_hooks :: bool
  servers :: "nat set"
  devices :: "nat \<rightharpoonup> device_object"
  module_log :: "module_call list"

section \<open>Shares of the library\<close>

text \<open>\<^verbatim>\<open>~SharedLibrary\<close> calls \<^verbatim>\<open>dlclose\<close>; nothing else keeps the library open.\<close>

definition SharedLibrary_destructor :: "module_world \<Rightarrow> module_world" where
  "SharedLibrary_destructor w = w\<lparr>module_loaded := False\<rparr>"

definition share_dso :: "module_world \<Rightarrow> module_world" where
  "share_dso w = w\<lparr>dso_refs := dso_refs w + 1\<rparr>"

definition unshare_dso :: "module_world \<Rightarrow> module_world" where
  "unshare_dso w =
     (let w = w\<lparr>dso_refs := dso_refs w - 1\<rparr>
      in if dso_refs w = 0 then SharedLibrary_destructor w else w)"

definition unloaded :: exn where
  "unloaded = Undefined_behaviour ''call into an unloaded module''"

definition into_module :: "module_call \<Rightarrow> (module_world, unit) eff" where
  "into_module c w =
     (if module_loaded w then (Inr (), w\<lparr>module_log := module_log w @ [c]\<rparr>) else (Inl unloaded, w))"

text \<open>\<^verbatim>\<open>get_test_hooks\<close> returns a copy of the global pointer, which may be null.\<close>

definition get_test_hooks :: "module_world \<Rightarrow> bool \<times> module_world" where
  "get_test_hooks w = (if global_hooks w then (True, share_dso w) else (False, w))"

section \<open>\<^verbatim>\<open>main\<close>\<close>

text \<open>
  The state when the tests start: the local variables \<^verbatim>\<open>dso\<close> and \<^verbatim>\<open>entry_point\<close> of \<^verbatim>\<open>main\<close> and the
  global \<^verbatim>\<open>entry_point\<close> share the library.
\<close>

definition tests_start :: module_world where
  "tests_start =
     \<lparr>dso_refs = 3, module_loaded = True, main_locals = True, global_hooks = True, servers = {},
      devices = Map.empty, module_log = []\<rparr>"

definition main_returns :: "module_world \<Rightarrow> module_world" where
  "main_returns w = (unshare_dso (unshare_dso w))\<lparr>main_locals := False\<rparr>"

text \<open>After \<^verbatim>\<open>main\<close>, objects with static storage are destroyed.\<close>

definition static_destruction :: "module_world \<Rightarrow> module_world" where
  "static_destruction w = unshare_dso (w\<lparr>global_hooks := False\<rparr>)"

section \<open>Servers\<close>

text \<open>
  Construction fails in the initialiser of \<^verbatim>\<open>thread_context\<close>, before \<^verbatim>\<open>hooks\<close> is initialised, or
  in the body of the constructor.
\<close>

datatype construction = Complete | Fails_before_hooks exn | Fails_after_hooks exn

text \<open>
  \<^verbatim>\<open>InProcessServer()\<close>: the pointer that \<^verbatim>\<open>get_test_hooks\<close> returned lives until the constructor of
  \<^verbatim>\<open>Server\<close> has returned or thrown.
\<close>

definition InProcessServer :: "nat \<Rightarrow> construction \<Rightarrow> (module_world, unit) eff" where
  "InProcessServer this outcome w =
     (case get_test_hooks w of
        (False, w) \<Rightarrow> (Inl (Undefined_behaviour ''null hooks''), w)
      | (True, w) \<Rightarrow>
          (case into_module Create_server w of
             (Inl e, w) \<Rightarrow> (Inl e, unshare_dso w)
           | (Inr _, w) \<Rightarrow>
               (case outcome of
                  Complete \<Rightarrow> (Inr (), unshare_dso ((share_dso w)\<lparr>servers := insert this (servers w)\<rparr>))
                | Fails_before_hooks e \<Rightarrow>
                    (case into_module (Destroy_server this) w of
                       (Inl e', w) \<Rightarrow> (Inl e', unshare_dso w)
                     | (Inr _, w) \<Rightarrow> (Inl e, unshare_dso w))
                | Fails_after_hooks e \<Rightarrow>
                    (case into_module (Destroy_server this) (unshare_dso (share_dso w)) of
                       (Inl e', w) \<Rightarrow> (Inl e', unshare_dso w)
                     | (Inr _, w) \<Rightarrow> (Inl e, unshare_dso w)))))"

definition Server_method :: "nat \<Rightarrow> server_request \<Rightarrow> (module_world, unit) eff" where
  "Server_method this r w =
     (if this \<in> servers w then into_module (Server_call this r) w
      else (Inl (Undefined_behaviour ''no object''), w))"

definition Server_start :: "nat \<Rightarrow> (module_world, unit) eff" where
  "Server_start this = Server_method this Start"

definition Server_stop :: "nat \<Rightarrow> (module_world, unit) eff" where
  "Server_stop this = Server_method this Stop"

text \<open>
  \<^verbatim>\<open>~Server\<close>: members are destroyed in the reverse order of their declaration, that is \<^verbatim>\<open>hooks\<close>, then
  \<^verbatim>\<open>thread_context\<close>, and \<^verbatim>\<open>server\<close>, whose deleter is a function of the module, last.
\<close>

definition Server_destructor :: "nat \<Rightarrow> (module_world, unit) eff" where
  "Server_destructor this w =
     (if this \<in> servers w
      then into_module (Destroy_server this) (unshare_dso (w\<lparr>servers := servers w - {this}\<rparr>))
      else (Inl (Undefined_behaviour ''no object''), w))"

section \<open>Devices\<close>

text \<open>
  Creating a device: the module makes the raw device \<open>raw\<close>, the \<^verbatim>\<open>Impl\<close> takes a share of \<^verbatim>\<open>hooks\<close>. The
  constructor of \<^verbatim>\<open>Touch::Impl\<close> or \<^verbatim>\<open>Keyboard::Impl\<close> may throw then; its members are destroyed, the
  device first.
\<close>

definition create_device_object ::
    "device_class \<Rightarrow> nat \<Rightarrow> nat \<Rightarrow> nat \<Rightarrow> exn option \<Rightarrow> (module_world, unit) eff" where
  "create_device_object cls srv this raw fails w =
     (if srv \<in> servers w
      then (case into_module (Create_device srv cls) w of
              (Inl e, w) \<Rightarrow> (Inl e, w)
            | (Inr _, w) \<Rightarrow>
                (case fails of
                   None \<Rightarrow>
                     (Inr (), (share_dso w)\<lparr>devices := (devices w)(this \<mapsto> \<lparr>dev_class = cls, dev_impl = Some raw\<rparr>)\<rparr>)
                 | Some e \<Rightarrow>
                     (case into_module (Destroy_device raw) (share_dso w) of
                        (Inl e', w) \<Rightarrow> (Inl e', unshare_dso w)
                      | (Inr _, w) \<Rightarrow> (Inl e, unshare_dso w))))
      else (Inl (Undefined_behaviour ''no object''), w))"

text \<open>The move constructors of the three classes.\<close>

definition device_move :: "nat \<Rightarrow> nat \<Rightarrow> (module_world, unit) eff" where
  "device_move this other w =
     (case devices w other of
        None \<Rightarrow> (Inl (Undefined_behaviour ''no object''), w)
      | Some d \<Rightarrow> (Inr (), w\<lparr>devices := (devices w)(other \<mapsto> d\<lparr>dev_impl := None\<rparr>, this \<mapsto> d)\<rparr>))"

text \<open>
  The destructors: the raw device is destroyed by the module, and \<^verbatim>\<open>keep_dso_loaded\<close>, the first member,
  goes last.
\<close>

definition device_destructor :: "nat \<Rightarrow> (module_world, unit) eff" where
  "device_destructor this w =
     (case devices w this of
        None \<Rightarrow> (Inl (Undefined_behaviour ''no object''), w)
      | Some d \<Rightarrow>
          let w = w\<lparr>devices := (devices w)(this := None)\<rparr> in
          (case dev_impl d of
             None \<Rightarrow> (Inr (), w)
           | Some raw \<Rightarrow>
               (case into_module (Destroy_device raw) w of
                  (Inl e, w) \<Rightarrow> (Inl e, unshare_dso w)
                | (Inr _, w) \<Rightarrow> (Inr (), unshare_dso w))))"

text \<open>\<^verbatim>\<open>impl->\<close> in a method of an object of the given class.\<close>

definition via_device :: "nat \<Rightarrow> device_class \<Rightarrow> (nat \<Rightarrow> module_call) \<Rightarrow> (module_world, unit) eff" where
  "via_device this cls c w =
     (case devices w this of
        None \<Rightarrow> (Inl (Undefined_behaviour ''no object''), w)
      | Some d \<Rightarrow>
          if dev_class d \<noteq> cls then (Inl (Undefined_behaviour ''object of another class''), w)
          else (case dev_impl d of
                  None \<Rightarrow> (Inl (Undefined_behaviour ''null impl''), w)
                | Some raw \<Rightarrow> into_module (c raw) w))"

definition Pointer_method :: "nat \<Rightarrow> pointer_request \<Rightarrow> (module_world, unit) eff" where
  "Pointer_method this r = via_device this Pointer_class (\<lambda>raw. Pointer_call raw r)"

definition Touch_method :: "nat \<Rightarrow> touch_request \<Rightarrow> (module_world, unit) eff" where
  "Touch_method this r = via_device this Touch_class (\<lambda>raw. Touch_call raw r)"

definition Keyboard_method :: "nat \<Rightarrow> keyboard_request \<Rightarrow> (module_world, unit) eff" where
  "Keyboard_method this r = via_device this Keyboard_class (\<lambda>raw. Keyboard_call raw r)"

section \<open>Programs\<close>

datatype lifetime_op =
    Make_server nat construction
  | Use_server nat server_request
  | Drop_server nat
  | Make_device device_class nat nat nat "exn option"
  | Move_device nat nat
  | Use_pointer nat pointer_request
  | Use_touch nat touch_request
  | Use_keyboard nat keyboard_request
  | Drop_device nat
  | Main_returns
  | Static_destruction

fun run_op :: "lifetime_op \<Rightarrow> (module_world, unit) eff" where
  "run_op (Make_server s outcome) w = InProcessServer s outcome w"
| "run_op (Use_server s r) w = Server_method s r w"
| "run_op (Drop_server s) w = Server_destructor s w"
| "run_op (Make_device cls s d raw fails) w = create_device_object cls s d raw fails w"
| "run_op (Move_device d d') w = device_move d d' w"
| "run_op (Use_pointer d r) w = Pointer_method d r w"
| "run_op (Use_touch d r) w = Touch_method d r w"
| "run_op (Use_keyboard d r) w = Keyboard_method d r w"
| "run_op (Drop_device d) w = device_destructor d w"
| "run_op Main_returns w = (Inr (), main_returns w)"
| "run_op Static_destruction w = (Inr (), static_destruction w)"

text \<open>
  What a program may do by the rules of C++: objects are made where there is none, used while they
  exist and have not been moved from, and destroyed once; \<^verbatim>\<open>main\<close> returns once and static objects
  are destroyed once, after that. Exceptions thrown on purpose are not undefined behaviour.
\<close>

definition is_ub :: "exn \<Rightarrow> bool" where
  "is_ub e \<longleftrightarrow> (\<exists>m. e = Undefined_behaviour m)"

definition has_impl :: "nat \<Rightarrow> device_class \<Rightarrow> module_world \<Rightarrow> bool" where
  "has_impl d cls w \<longleftrightarrow> (\<exists>raw. devices w d = Some \<lparr>dev_class = cls, dev_impl = Some raw\<rparr>)"

fun legal :: "lifetime_op \<Rightarrow> module_world \<Rightarrow> bool" where
  "legal (Make_server s outcome) w \<longleftrightarrow> s \<notin> servers w \<and> global_hooks w \<and>
     (\<forall>e. outcome = Fails_before_hooks e \<or> outcome = Fails_after_hooks e \<longrightarrow> \<not> is_ub e)"
| "legal (Use_server s r) w \<longleftrightarrow> s \<in> servers w"
| "legal (Drop_server s) w \<longleftrightarrow> s \<in> servers w"
| "legal (Make_device cls s d raw fails) w \<longleftrightarrow> s \<in> servers w \<and> devices w d = None \<and> (\<forall>e. fails = Some e \<longrightarrow> \<not> is_ub e)"
| "legal (Move_device d d') w \<longleftrightarrow> devices w d = None \<and> devices w d' \<noteq> None"
| "legal (Use_pointer d r) w \<longleftrightarrow> has_impl d Pointer_class w"
| "legal (Use_touch d r) w \<longleftrightarrow> has_impl d Touch_class w"
| "legal (Use_keyboard d r) w \<longleftrightarrow> has_impl d Keyboard_class w"
| "legal (Drop_device d) w \<longleftrightarrow> devices w d \<noteq> None"
| "legal Main_returns w \<longleftrightarrow> main_locals w"
| "legal Static_destruction w \<longleftrightarrow> global_hooks w \<and> \<not> main_locals w"

text \<open>
  The one restriction that is not a rule of C++: a server is not destroyed as the last owner of the
  library.
\<close>

fun not_last_server :: "lifetime_op \<Rightarrow> module_world \<Rightarrow> bool" where
  "not_last_server (Drop_server s) w \<longleftrightarrow> 1 < dso_refs w"
| "not_last_server _ w \<longleftrightarrow> True"

inductive module_history :: "module_world \<Rightarrow> bool" where
  start: "module_history tests_start"
| step: "module_history w \<Longrightarrow> legal op w \<Longrightarrow> not_last_server op w \<Longrightarrow> run_op op w = (r, w') \<Longrightarrow> module_history w'"

section \<open>Lemmas\<close>

definition live_devices :: "(nat \<rightharpoonup> device_object) \<Rightarrow> nat set" where
  "live_devices ds = {d. \<exists>ob. ds d = Some ob \<and> dev_impl ob \<noteq> None}"

lemma live_devices_upd:
  "live_devices (ds(d \<mapsto> ob)) = (if dev_impl ob = None then live_devices ds - {d} else insert d (live_devices ds))"
  "live_devices (ds(d := None)) = live_devices ds - {d}"
  by (auto simp: live_devices_def)

lemma finite_live_devices [simp]: "finite (dom ds) \<Longrightarrow> finite (live_devices ds)"
  by (rule finite_subset [of _ "dom ds"]) (auto simp: live_devices_def)

text \<open>The owners of the library; the library is loaded as long as there is one.\<close>

definition owners :: "module_world \<Rightarrow> nat" where
  "owners w = (if main_locals w then 2 else 0) + (if global_hooks w then 1 else 0) +
     card (servers w) + card (live_devices (devices w))"

definition lifetime_ok :: "module_world \<Rightarrow> bool" where
  "lifetime_ok w \<longleftrightarrow> finite (servers w) \<and> finite (dom (devices w)) \<and> dso_refs w = owners w \<and>
     (module_loaded w \<longleftrightarrow> dso_refs w \<noteq> 0)"

lemma into_module_loaded: "module_loaded w \<Longrightarrow> into_module c w = (Inr (), w\<lparr>module_log := module_log w @ [c]\<rparr>)"
  by (simp add: into_module_def)

lemma unshare_dso_eq:
  "unshare_dso w = w\<lparr>dso_refs := dso_refs w - 1, module_loaded := module_loaded w \<and> 1 < dso_refs w\<rparr>"
  by (auto simp: unshare_dso_def SharedLibrary_destructor_def Let_def)

lemmas share_simps = into_module_loaded unshare_dso_eq share_dso_def

text \<open>Whoever is an owner finds the library loaded.\<close>

lemma owner_loaded:
  assumes "lifetime_ok w"
  shows "main_locals w \<Longrightarrow> module_loaded w" and "global_hooks w \<Longrightarrow> module_loaded w"
    and "s \<in> servers w \<Longrightarrow> module_loaded w" and "d \<in> live_devices (devices w) \<Longrightarrow> module_loaded w"
proof -
  have fin: "finite (servers w)" "finite (live_devices (devices w))" using assms by (simp_all add: lifetime_ok_def)
  have "0 < card (servers w)" if "s \<in> servers w" using that fin by (auto simp: card_gt_0_iff)
  moreover have "0 < card (live_devices (devices w))" if "d \<in> live_devices (devices w)"
    using that fin by (auto simp: card_gt_0_iff)
  ultimately show "main_locals w \<Longrightarrow> module_loaded w" "global_hooks w \<Longrightarrow> module_loaded w"
    "s \<in> servers w \<Longrightarrow> module_loaded w" "d \<in> live_devices (devices w) \<Longrightarrow> module_loaded w"
    using assms by (auto simp: lifetime_ok_def owners_def)
qed

text \<open>What each operation keeps, and that it is not undefined; one lemma for each kind.\<close>

definition goes_well :: "lifetime_op \<Rightarrow> module_world \<Rightarrow> bool" where
  "goes_well op w \<longleftrightarrow> (case run_op op w of (r, w') \<Rightarrow> lifetime_ok w' \<and> (\<forall>e. r = Inl e \<longrightarrow> \<not> is_ub e))"

lemma lifetime_ok_log [simp]: "lifetime_ok (w\<lparr>module_log := l\<rparr>) = lifetime_ok w"
  by (simp add: lifetime_ok_def owners_def)

lemma make_server_well:
  assumes "lifetime_ok w" and "legal (Make_server s outcome) w"
  shows "goes_well (Make_server s outcome) w"
proof -
  have "global_hooks w" "s \<notin> servers w" using assms(2) by auto
  moreover from this have l: "module_loaded w" using owner_loaded(2) [OF assms(1)] by simp
  ultimately show ?thesis
    using assms
    by (cases outcome)
      (auto simp: goes_well_def InProcessServer_def get_test_hooks_def share_simps lifetime_ok_def owners_def)
qed

lemma use_server_well: "lifetime_ok w \<Longrightarrow> legal (Use_server s r) w \<Longrightarrow> goes_well (Use_server s r) w"
  using owner_loaded(3) [of w s] by (simp add: goes_well_def Server_method_def share_simps)

lemma drop_server_well:
  assumes "lifetime_ok w" and "legal (Drop_server s) w" and "1 < dso_refs w"
  shows "goes_well (Drop_server s) w"
proof -
  have s: "s \<in> servers w" and fin: "finite (servers w)" using assms(1,2) by (auto simp: lifetime_ok_def)
  then have "module_loaded w" and "card (servers w - {s}) = card (servers w) - 1" and "0 < card (servers w)"
    using owner_loaded(3) [OF assms(1)] by (auto simp: card_gt_0_iff)
  with assms s show ?thesis
    by (auto simp: goes_well_def Server_destructor_def share_simps lifetime_ok_def owners_def)
qed

lemma make_device_well:
  assumes "lifetime_ok w" and "legal (Make_device cls s d raw fails) w"
  shows "goes_well (Make_device cls s d raw fails) w"
proof -
  have s: "s \<in> servers w" and d: "d \<notin> live_devices (devices w)" using assms(2) by (auto simp: live_devices_def)
  then have l: "module_loaded w" using owner_loaded(3) [OF assms(1)] by blast
  with s d assms show ?thesis
    by (cases fails)
      (auto simp: goes_well_def create_device_object_def share_simps lifetime_ok_def owners_def live_devices_upd)
qed

lemma move_device_well:
  assumes "lifetime_ok w" and "legal (Move_device d d') w"
  shows "goes_well (Move_device d d') w"
proof -
  from assms(2) obtain ob where ob: "devices w d' = Some ob" and d: "devices w d = None" by auto
  then have neq: "d \<noteq> d'" and nd: "d \<notin> live_devices (devices w)" by (auto simp: live_devices_def)
  have fin: "finite (live_devices (devices w))" using assms(1) by (simp add: lifetime_ok_def)
  have "card (live_devices ((devices w)(d' \<mapsto> ob\<lparr>dev_impl := None\<rparr>, d \<mapsto> ob))) = card (live_devices (devices w))"
  proof (cases "dev_impl ob")
    case None
    then have "d' \<notin> live_devices (devices w)" using ob by (auto simp: live_devices_def)
    with None nd show ?thesis by (simp add: live_devices_upd)
  next
    case (Some raw)
    then have "d' \<in> live_devices (devices w)" using ob by (auto simp: live_devices_def)
    then have "card (insert d (live_devices (devices w) - {d'})) = card (live_devices (devices w))"
      using nd fin card_Suc_Diff1 [OF fin] by simp
    with Some show ?thesis by (simp add: live_devices_upd)
  qed
  with assms(1) ob show ?thesis by (simp add: goes_well_def device_move_def lifetime_ok_def owners_def)
qed

lemma has_impl_live: "has_impl d cls w \<Longrightarrow> d \<in> live_devices (devices w)"
  by (auto simp: has_impl_def live_devices_def)

lemma use_device_well:
  assumes "lifetime_ok w" and "has_impl d cls w"
  shows "case via_device d cls c w of (r, w') \<Rightarrow> lifetime_ok w' \<and> (\<forall>e. r = Inl e \<longrightarrow> \<not> is_ub e)"
  using assms owner_loaded(4) [OF assms(1) has_impl_live [OF assms(2)]]
  by (auto simp: via_device_def has_impl_def share_simps)

lemma drop_device_well:
  assumes "lifetime_ok w" and "legal (Drop_device d) w"
  shows "goes_well (Drop_device d) w"
proof -
  from assms(2) obtain ob where ob: "devices w d = Some ob" by auto
  have fin: "finite (live_devices (devices w))" using assms(1) by (simp add: lifetime_ok_def)
  show ?thesis
  proof (cases "dev_impl ob")
    case None
    then have "live_devices (devices w) - {d} = live_devices (devices w)" using ob by (auto simp: live_devices_def)
    with None assms ob show ?thesis
      by (simp add: goes_well_def device_destructor_def Let_def lifetime_ok_def owners_def live_devices_upd)
  next
    case (Some raw)
    then have d: "d \<in> live_devices (devices w)" using ob by (auto simp: live_devices_def)
    then have "module_loaded w" "0 < card (live_devices (devices w))"
      using owner_loaded(4) [OF assms(1)] fin by (auto simp: card_gt_0_iff)
    moreover have "card (live_devices (devices w) - {d}) = card (live_devices (devices w)) - 1" using d fin by simp
    ultimately show ?thesis
      using Some assms ob
      by (auto simp: goes_well_def device_destructor_def Let_def share_simps lifetime_ok_def owners_def live_devices_upd)
  qed
qed

lemma op_goes_well:
  assumes "lifetime_ok w" and "legal op w" and "not_last_server op w"
  shows "goes_well op w"
proof (cases op)
  case Use_pointer
  with assms use_device_well show ?thesis by (simp add: goes_well_def Pointer_method_def)
next
  case Use_touch
  with assms use_device_well show ?thesis by (simp add: goes_well_def Touch_method_def)
next
  case Use_keyboard
  with assms use_device_well show ?thesis by (simp add: goes_well_def Keyboard_method_def)
next
  case Main_returns
  then show ?thesis
    using assms owner_loaded(1) [OF assms(1)]
    by (auto simp: goes_well_def main_returns_def share_simps lifetime_ok_def owners_def)
next
  case Static_destruction
  then show ?thesis
    using assms owner_loaded(2) [OF assms(1)]
    by (auto simp: goes_well_def static_destruction_def share_simps lifetime_ok_def owners_def)
qed (use assms make_server_well use_server_well drop_server_well make_device_well move_device_well
      drop_device_well in \<open>simp_all del: legal.simps\<close>)

lemma lifetime_ok_history: "module_history w \<Longrightarrow> lifetime_ok w"
proof (induction rule: module_history.induct)
  case start
  then show ?case by (simp add: tests_start_def lifetime_ok_def owners_def live_devices_def)
next
  case (step w op r w')
  from op_goes_well [OF step.IH step.hyps(2,3)] step.hyps(4) show ?case by (simp add: goes_well_def)
qed

section \<open>Properties\<close>

text \<open>
  Claim C6. The module is loaded whenever it is called, and unloaded when nobody needs it: whatever a
  program does with servers and devices by the rules of C++, in any order, with failing constructors
  and moved devices, during \<^verbatim>\<open>main\<close> and after it, no operation calls into an unloaded module or is
  undefined otherwise, as long as no server is destroyed as the last owner of the library. The
  library is loaded exactly as long as \<^verbatim>\<open>main\<close>, the global pointer, a server or a device that was not
  moved from exists; a device may be the last of them.
\<close>

theorem module_is_loaded_when_called:
  assumes "module_history w" and "legal op w" and "not_last_server op w" and "run_op op w = (r, w')"
  shows "(\<forall>e. r = Inl e \<longrightarrow> \<not> is_ub e) \<and>
    (module_loaded w' \<longleftrightarrow> main_locals w' \<or> global_hooks w' \<or> servers w' \<noteq> {} \<or> live_devices (devices w') \<noteq> {})"
proof -
  have "goes_well op w" using op_goes_well [OF lifetime_ok_history [OF assms(1)] assms(2,3)] .
  then have ok: "lifetime_ok w'" and "\<forall>e. r = Inl e \<longrightarrow> \<not> is_ub e" using assms(4) by (simp_all add: goes_well_def)
  moreover have "finite (live_devices (devices w'))" using ok by (simp add: lifetime_ok_def)
  ultimately show ?thesis by (auto simp: lifetime_ok_def owners_def card_eq_0_iff)
qed

text \<open>
  The exception: a server that is the last owner gives up its share before its deleter runs, and the
  deleter is a function of the module.
\<close>

theorem last_server_calls_unloaded_module:
  assumes "lifetime_ok w" and "s \<in> servers w" and "dso_refs w = 1"
  shows "fst (Server_destructor s w) = Inl unloaded"
  using assms by (simp add: Server_destructor_def unshare_dso_eq into_module_def)

text \<open>A pointer that outlives everything else: it is moved once and destroyed after the static objects.\<close>

definition example_ops :: "lifetime_op list" where
  "example_ops =
     [Make_server 1 Complete, Make_device Pointer_class 1 2 7 None, Move_device 3 2, Use_pointer 3 (Move_to 5 6),
      Drop_device 2, Drop_server 1, Main_returns, Static_destruction]"

definition example_end :: module_world where
  "example_end = fold (\<lambda>op w. snd (run_op op w)) example_ops tests_start"

lemmas module_defs = tests_start_def InProcessServer_def get_test_hooks_def share_simps create_device_object_def
  device_move_def Pointer_method_def via_device_def device_destructor_def Server_destructor_def main_returns_def
  static_destruction_def has_impl_def

lemma example_end_eq:
  "example_end = \<lparr>dso_refs = 1, module_loaded = True, main_locals = False, global_hooks = False, servers = {},
     devices = [3 \<mapsto> \<lparr>dev_class = Pointer_class, dev_impl = Some 7\<rparr>],
     module_log = [Create_server, Create_device 1 Pointer_class, Pointer_call 7 (Move_to 5 6), Destroy_server 1]\<rparr>"
  by (auto simp: example_end_def example_ops_def module_defs Let_def fun_eq_iff)

fun legal_run :: "lifetime_op list \<Rightarrow> module_world \<Rightarrow> bool" where
  "legal_run [] w \<longleftrightarrow> True"
| "legal_run (op # ops) w \<longleftrightarrow> legal op w \<and> not_last_server op w \<and> legal_run ops (snd (run_op op w))"

lemma legal_run_history:
  "module_history w \<Longrightarrow> legal_run ops w \<Longrightarrow> module_history (fold (\<lambda>op w. snd (run_op op w)) ops w)"
proof (induction ops arbitrary: w)
  case (Cons op ops)
  have "module_history (snd (run_op op w))"
    using Cons.prems by (auto intro: module_history.step [of w op "fst (run_op op w)"])
  with Cons show ?case by simp
qed simp

lemma example_history: "module_history example_end"
  unfolding example_end_def
  by (rule legal_run_history [OF module_history.start]) (simp add: example_ops_def module_defs Let_def)

theorem module_is_loaded_when_called_witness:
  "fst (run_op (Drop_device 3) example_end) = Inr () \<and> \<not> module_loaded (snd (run_op (Drop_device 3) example_end)) \<and>
   last (module_log (snd (run_op (Drop_device 3) example_end))) = Destroy_device 7"
proof -
  obtain r w' where run: "run_op (Drop_device 3) example_end = (r, w')" by fastforce
  have "legal (Drop_device 3) example_end" by (simp add: example_end_eq)
  from module_is_loaded_when_called [OF example_history this _ run] have
    "module_loaded w' \<longleftrightarrow> main_locals w' \<or> global_hooks w' \<or> servers w' \<noteq> {} \<or> live_devices (devices w') \<noteq> {}" by simp
  moreover have "w' = example_end\<lparr>dso_refs := 0, module_loaded := False, devices := Map.empty,
      module_log := module_log example_end @ [Destroy_device 7]\<rparr>" "r = Inr ()"
    using run by (auto simp: device_destructor_def example_end_eq share_simps Let_def)
  ultimately show ?thesis using run by simp
qed

end
