(* ===== verification/Mir_Executor.thy ===== *)
theory Mir_Executor
  imports Prelude "HOL-Library.Multiset"
begin

text \<open>
  \<^verbatim>\<open>WaylandExecutor\<close> of \<^verbatim>\<open>example/mir_integration.cpp\<close>: a queue of work that any thread appends to
  and that the thread of a Wayland event loop empties when an \<^verbatim>\<open>eventfd\<close> wakes it. The work is
  code of other components; a piece of work is a name \<open>'j\<close>, and the parameter \<open>body\<close> says what it does:
  it changes a state \<open>'s\<close>, may throw, and may spawn more work. The calls of the operating system
  on the \<^verbatim>\<open>eventfd\<close> are parameters too.
\<close>

section \<open>State\<close>

text \<open>
  \<^verbatim>\<open>eventfd_write(fd, 1)\<close> and \<^verbatim>\<open>eventfd_read\<close> as functions of the counter of the descriptor: what
  they return and the new counter.
\<close>

record eventfd_ops =
  ev_write :: "nat \<Rightarrow> int \<times> nat"
  ev_read :: "nat \<Rightarrow> int \<times> nat"

datatype log_entry = Wakeup_not_consumed int | Work_threw exn

text \<open>
  The executor. A \<^verbatim>\<open>std::function\<close> in the queue may be empty (\<open>None\<close>). The last three fields are
  ghosts: the work that was appended and that was taken, in order, and the number of failed writes.
\<close>

record 'j executor =
  workqueue :: "'j option list"
  notify_count :: nat
  source_active :: bool
  mir_log :: "log_entry list"
  submitted :: "'j option list"
  taken :: "'j option list"
  lost_wakeups :: nat

text \<open>What a piece of work does, one action after the other, until one throws.\<close>

datatype ('j, 's) action = Spawn "'j option" | Act "'s \<Rightarrow> unit result \<times> 's"

section \<open>Operations\<close>

text \<open>
  The constructor registers the descriptor with the loop before it looks at it; \<open>fd\<close> is what
  \<^verbatim>\<open>eventfd\<close> returned and \<open>err\<close> the value of \<^verbatim>\<open>errno\<close> after that.
\<close>

definition WaylandExecutor :: "int \<Rightarrow> int \<Rightarrow> 'j executor result" where
  "WaylandExecutor fd err =
     (if fd = -1 then Inl (System_error err ''Failed to create IPC pause notification eventfd'')
      else Inr \<lparr>workqueue = [], notify_count = 0, source_active = True, mir_log = [],
                submitted = [], taken = [], lost_wakeups = 0\<rparr>)"

text \<open>\<^verbatim>\<open>spawn\<close> appends under the lock and then, without it, wakes the loop.\<close>

definition spawn_push :: "'j option \<Rightarrow> 'j executor \<Rightarrow> 'j executor" where
  "spawn_push work ex = ex\<lparr>workqueue := workqueue ex @ [work], submitted := submitted ex @ [work]\<rparr>"

definition spawn_notify :: "eventfd_ops \<Rightarrow> 'j executor \<Rightarrow> unit result \<times> 'j executor" where
  "spawn_notify ev ex =
     (case ev_write ev (notify_count ex) of (err, c) \<Rightarrow>
        if err \<noteq> 0
        then (Inl (System_error err ''eventfd_write failed to notify event loop''),
              ex\<lparr>notify_count := c, lost_wakeups := lost_wakeups ex + 1\<rparr>)
        else (Inr (), ex\<lparr>notify_count := c\<rparr>))"

definition spawn :: "eventfd_ops \<Rightarrow> 'j option \<Rightarrow> 'j executor \<Rightarrow> unit result \<times> 'j executor" where
  "spawn ev work ex = spawn_notify ev (spawn_push work ex)"

definition get_work :: "'j executor \<Rightarrow> 'j option \<times> 'j executor" where
  "get_work ex =
     (case workqueue ex of
        [] \<Rightarrow> (None, ex)
      | work # rest \<Rightarrow> (work, ex\<lparr>workqueue := rest, taken := taken ex @ [work]\<rparr>))"

fun run_body :: "eventfd_ops \<Rightarrow> ('j, 's) action list \<Rightarrow> 'j executor \<times> 's \<Rightarrow> unit result \<times> 'j executor \<times> 's" where
  "run_body ev [] (ex, s) = (Inr (), ex, s)"
| "run_body ev (Spawn work # as) (ex, s) =
     (case spawn ev work ex of
        (Inl e, ex) \<Rightarrow> (Inl e, ex, s)
      | (Inr _, ex) \<Rightarrow> run_body ev as (ex, s))"
| "run_body ev (Act f # as) (ex, s) =
     (case f s of
        (Inl e, s) \<Rightarrow> (Inl e, ex, s)
      | (Inr _, s) \<Rightarrow> run_body ev as (ex, s))"

text \<open>One turn of the loop of \<^verbatim>\<open>on_notify\<close>: what work throws is logged.\<close>

definition run_work ::
    "eventfd_ops \<Rightarrow> ('j \<Rightarrow> 's \<Rightarrow> ('j, 's) action list) \<Rightarrow> 'j \<Rightarrow> 'j executor \<times> 's \<Rightarrow> 'j executor \<times> 's" where
  "run_work ev body j st =
     (case run_body ev (body j (snd st)) st of
        (Inl e, ex, s) \<Rightarrow> (ex\<lparr>mir_log := mir_log ex @ [Work_threw e]\<rparr>, s)
      | (Inr _, ex, s) \<Rightarrow> (ex, s))"

text \<open>
  The loop ends when \<^verbatim>\<open>get_work\<close> returns an empty function: when nothing is left, and also when
  an empty function was in the queue.
\<close>

partial_function (option) drain ::
    "eventfd_ops \<Rightarrow> ('j \<Rightarrow> 's \<Rightarrow> ('j, 's) action list) \<Rightarrow> 'j executor \<times> 's \<Rightarrow> ('j executor \<times> 's) option" where
  "drain ev body st =
     (case get_work (fst st) of (work, ex) \<Rightarrow>
        (case work of
           None \<Rightarrow> Some (ex, snd st)
         | Some j \<Rightarrow> drain ev body (run_work ev body j (ex, snd st))))"

definition consume_wakeup :: "eventfd_ops \<Rightarrow> 'j executor \<Rightarrow> 'j executor" where
  "consume_wakeup ev ex =
     (case ev_read ev (notify_count ex) of (err, c) \<Rightarrow>
        ex\<lparr>notify_count := c,
            mir_log := mir_log ex @ (if err \<noteq> 0 then [Wakeup_not_consumed err] else [])\<rparr>)"

definition on_notify ::
    "eventfd_ops \<Rightarrow> ('j \<Rightarrow> 's \<Rightarrow> ('j, 's) action list) \<Rightarrow> 'j executor \<times> 's \<Rightarrow> ('j executor \<times> 's) option" where
  "on_notify ev body st = drain ev body (consume_wakeup ev (fst st), snd st)"

section \<open>The executor of an event loop\<close>

text \<open>
  Executors are objects at addresses; a loop keeps a list of destroy listeners, and the listeners
  whose function is \<^verbatim>\<open>on_display_destruction\<close> are the shims, each with an executor.
\<close>

record 'j loop_world =
  executor_at :: "nat \<rightharpoonup> 'j executor"
  destroy_listeners :: "(string \<times> nat) list"

definition executor_for_event_loop :: "nat \<Rightarrow> int \<Rightarrow> int \<Rightarrow> 'j loop_world \<Rightarrow> nat result \<times> 'j loop_world" where
  "executor_for_event_loop fresh fd err w =
     (case find (\<lambda>l. fst l = ''on_display_destruction'') (destroy_listeners w) of
        Some (_, a) \<Rightarrow> (Inr a, w)
      | None \<Rightarrow>
          (case WaylandExecutor fd err of
             Inl e \<Rightarrow> (Inl e, w)
           | Inr ex \<Rightarrow>
               (Inr fresh, w\<lparr>executor_at := (executor_at w)(fresh \<mapsto> ex),
                             destroy_listeners := destroy_listeners w @ [(''on_display_destruction'', fresh)]\<rparr>)))"

text \<open>Destroying the loop calls the shim's listener; the executor lives on if somebody owns it.\<close>

definition on_display_destruction :: "nat \<Rightarrow> 'j loop_world \<Rightarrow> 'j loop_world" where
  "on_display_destruction a w =
     w\<lparr>executor_at := (executor_at w)(a := map_option (\<lambda>ex. ex\<lparr>source_active := False\<rparr>) (executor_at w a)),
       destroy_listeners := remove1 (''on_display_destruction'', a) (destroy_listeners w)\<rparr>"

section \<open>Steps\<close>

text \<open>
  Threads and the loop together: a thread appends work and later writes to the descriptor, the loop
  reads the descriptor when it is readable and then empties the queue (the lock is held for all of
  that), and the loop is destroyed. \<open>spawners\<close> counts the threads that have not written yet.
\<close>

record ('j, 's) exec_system =
  exec :: "'j executor"
  world :: 's
  spawners :: nat
  reading :: bool

inductive exec_step ::
    "eventfd_ops \<Rightarrow> ('j \<Rightarrow> 's \<Rightarrow> ('j, 's) action list) \<Rightarrow> ('j, 's) exec_system \<Rightarrow> ('j, 's) exec_system \<Rightarrow> bool"
  for ev body where
  Push: "exec_step ev body S (S\<lparr>exec := spawn_push work (exec S), spawners := spawners S + 1\<rparr>)"
| Signal: "spawners S = Suc n \<Longrightarrow> spawn_notify ev (exec S) = (r, ex) \<Longrightarrow>
    exec_step ev body S (S\<lparr>exec := ex, spawners := n\<rparr>)"
| Read: "\<not> reading S \<Longrightarrow> source_active (exec S) \<Longrightarrow> 0 < notify_count (exec S) \<Longrightarrow>
    exec_step ev body S (S\<lparr>exec := consume_wakeup ev (exec S), reading := True\<rparr>)"
| Empty: "reading S \<Longrightarrow> drain ev body (exec S, world S) = Some (ex, s) \<Longrightarrow>
    exec_step ev body S (S\<lparr>exec := ex, world := s, reading := False\<rparr>)"
| Destroy: "\<not> reading S \<Longrightarrow> exec_step ev body S (S\<lparr>exec := (exec S)\<lparr>source_active := False\<rparr>\<rparr>)"

definition exec_start :: "'j executor \<Rightarrow> 's \<Rightarrow> ('j, 's) exec_system" where
  "exec_start ex s = \<lparr>exec = ex, world = s, spawners = 0, reading = False\<rparr>"

section \<open>Lemmas\<close>

text \<open>What an \<^verbatim>\<open>eventfd\<close> with \<^verbatim>\<open>EFD_SEMAPHORE | EFD_NONBLOCK\<close> documents.\<close>

definition eventfd_laws :: "eventfd_ops \<Rightarrow> bool" where
  "eventfd_laws ev \<longleftrightarrow>
     (\<forall>c. snd (ev_write ev c) = (if fst (ev_write ev c) = 0 then c + 1 else c)) \<and>
     (\<forall>c. ev_read ev c = (if 0 < c then (0, c - 1) else (-1, 0)))"

text \<open>The queue holds what was appended and not yet taken, in order.\<close>

definition fifo :: "'j executor \<Rightarrow> bool" where
  "fifo ex \<longleftrightarrow> submitted ex = taken ex @ workqueue ex"

text \<open>There are wake-ups for all the work in the queue, up to \<open>n\<close>.\<close>

definition covered :: "nat \<Rightarrow> 'j executor \<Rightarrow> bool" where
  "covered n ex \<longleftrightarrow> length (workqueue ex) \<le> notify_count ex + lost_wakeups ex + n"

lemma spawn_push_simps [simp]:
  "fifo ex \<Longrightarrow> fifo (spawn_push work ex)"
  "workqueue (spawn_push work ex) = workqueue ex @ [work]"
  "covered n ex \<Longrightarrow> covered (Suc n) (spawn_push work ex)"
  by (simp_all add: spawn_push_def fifo_def covered_def)

lemma spawn_notify_fifo [simp]: "fifo (snd (spawn_notify ev ex)) \<longleftrightarrow> fifo ex"
  by (simp add: spawn_notify_def fifo_def split: prod.split)

lemma spawn_notify_queue [simp]: "workqueue (snd (spawn_notify ev ex)) = workqueue ex"
  by (simp add: spawn_notify_def split: prod.split)

lemma spawn_notify_covered:
  assumes "eventfd_laws ev" and "covered (Suc n) ex"
  shows "covered n (snd (spawn_notify ev ex))"
proof -
  have "snd (ev_write ev (notify_count ex)) =
      (if fst (ev_write ev (notify_count ex)) = 0 then notify_count ex + 1 else notify_count ex)"
    using assms(1) by (auto simp: eventfd_laws_def)
  with assms(2) show ?thesis
    by (cases "ev_write ev (notify_count ex)") (auto simp: spawn_notify_def covered_def)
qed

lemma spawn_keeps:
  assumes "eventfd_laws ev" and "fifo ex" and "covered n ex"
  shows "fifo (snd (spawn ev work ex))" and "covered n (snd (spawn ev work ex))"
    and "workqueue (snd (spawn ev work ex)) = workqueue ex @ [work]"
  using assms by (simp_all add: spawn_def spawn_notify_covered)

text \<open>Work only appends to the queue, and only what it spawns.\<close>

lemma run_body_keeps:
  assumes "eventfd_laws ev" and "fifo ex" and "covered n ex" and "run_body ev as (ex, s) = (r, ex', s')"
  shows "fifo ex' \<and> covered n ex' \<and>
    (\<exists>new. workqueue ex' = workqueue ex @ new \<and> set new \<subseteq> {work. Spawn work \<in> set as})"
  using assms(2-4)
proof (induction as arbitrary: ex s)
  case (Cons a as)
  show ?case
  proof (cases a)
    case (Spawn work)
    obtain q ex1 where sp: "spawn ev work ex = (q, ex1)" by fastforce
    note kept = spawn_keeps [OF assms(1) Cons.prems(1,2), of work, unfolded sp snd_conv]
    show ?thesis
    proof (cases q)
      case (Inl e)
      with Cons.prems Spawn sp kept show ?thesis by auto
    next
      case (Inr u)
      with Cons.prems(3) Spawn sp have "run_body ev as (ex1, s) = (r, ex', s')" by simp
      from Cons.IH [OF kept(1,2) this] kept(3) Spawn show ?thesis by auto
    qed
  next
    case (Act f)
    with Cons.prems Cons.IH show ?thesis by (fastforce split: prod.splits sum.splits)
  qed
qed auto

lemma run_work_keeps:
  assumes "eventfd_laws ev" and "fifo ex" and "covered n ex" and "run_work ev body j (ex, s) = (ex', s')"
  shows "fifo ex'" and "covered n ex'"
    and "\<exists>new. workqueue ex' = workqueue ex @ new \<and> set new \<subseteq> {work. Spawn work \<in> set (body j s)}"
proof -
  obtain r ex1 s1 where run: "run_body ev (body j s) (ex, s) = (r, ex1, s1)" by (metis prod_cases3)
  have "workqueue ex' = workqueue ex1 \<and> fifo ex' = fifo ex1 \<and> covered n ex' = covered n ex1"
    using assms(4) run by (auto simp: run_work_def fifo_def covered_def split: sum.splits)
  with run_body_keeps [OF assms(1-3) run]
  show "fifo ex'" and "covered n ex'"
    and "\<exists>new. workqueue ex' = workqueue ex @ new \<and> set new \<subseteq> {work. Spawn work \<in> set (body j s)}"
    by auto
qed

lemma get_work_cases:
  assumes "get_work ex = (work, ex')"
  obtains (none) "workqueue ex = []" "work = None" "ex' = ex"
  | (some) rest where "workqueue ex = work # rest" "ex' = ex\<lparr>workqueue := rest, taken := taken ex @ [work]\<rparr>"
  using assms by (auto simp: get_work_def split: list.splits)

lemma get_work_fifo: "fifo ex \<Longrightarrow> get_work ex = (work, ex') \<Longrightarrow> fifo ex'"
  by (erule get_work_cases) (auto simp: fifo_def)

text \<open>The loop ends at an empty function, and otherwise takes one turn more.\<close>

lemma drain_induct [consumes 1, case_names stop turn]:
  assumes "drain ev body st = Some st'"
    and stop: "\<And>st ex. get_work (fst st) = (None, ex) \<Longrightarrow> P st (ex, snd st)"
    and turn: "\<And>st ex j st'. get_work (fst st) = (Some j, ex) \<Longrightarrow>
      P (run_work ev body j (ex, snd st)) st' \<Longrightarrow> P st st'"
  shows "P st st'"
proof -
  have "e = ev \<Longrightarrow> b = body \<Longrightarrow> P x y" if "drain e b x = Some y" for e b x y
  proof (induction rule: drain.raw_induct [OF _ that])
    case (1 loop e b x y)
    obtain work ex where gw: "get_work (fst x) = (work, ex)" by fastforce
    show ?case
    proof (cases work)
      case None
      with 1(2) gw have "y = (ex, snd x)" by simp
      with stop gw None show ?thesis by blast
    next
      case (Some j)
      with 1(2) gw have "loop e b (run_work e b j (ex, snd x)) = Some y" by simp
      from 1(1) [OF this 1(3,4)] gw Some 1(3,4) show ?thesis by (auto intro: turn)
    qed
  qed
  with assms(1) show ?thesis by simp
qed

lemma drain_keeps:
  assumes "eventfd_laws ev" and "drain ev body st = Some st'" and "fifo (fst st)" and "covered (Suc n) (fst st)"
  shows "fifo (fst st') \<and> covered n (fst st')"
  using assms(2-4)
proof (induction rule: drain_induct)
  case (stop st ex)
  have "fifo ex" using get_work_fifo [OF stop(2,1)] .
  with stop show ?case by (auto simp: covered_def elim!: get_work_cases)
next
  case (turn st ex j st')
  have fifo: "fifo ex" using get_work_fifo [OF turn(3,1)] .
  have cov: "covered n ex" using turn(1,4) by (auto simp: covered_def elim!: get_work_cases)
  obtain ex1 s1 where rw: "run_work ev body j (ex, snd st) = (ex1, s1)" by fastforce
  have "covered (Suc n) ex1"
    using run_work_keeps(2) [OF assms(1) fifo cov rw] by (simp add: covered_def)
  with turn.IH run_work_keeps(1) [OF assms(1) fifo cov rw] show ?case by (simp add: rw)
qed

text \<open>
  The loop ends when work spawns only work of a smaller rank: the multiset of the ranks in the queue
  gets smaller in every turn.
\<close>

definition ranks :: "('j \<Rightarrow> nat) \<Rightarrow> 'j executor \<Rightarrow> nat multiset" where
  "ranks rank ex = image_mset (\<lambda>work. case work of None \<Rightarrow> 0 | Some j \<Rightarrow> Suc (rank j)) (mset (workqueue ex))"

lemma run_work_ranks:
  assumes "set new \<subseteq> {work. Spawn work \<in> set as}" and "\<And>k. Spawn (Some k) \<in> set as \<Longrightarrow> rank k < rank j"
  shows "(image_mset (\<lambda>work. case work of None \<Rightarrow> 0 | Some j \<Rightarrow> Suc (rank j)) (mset (rest @ new)),
          image_mset (\<lambda>work. case work of None \<Rightarrow> 0 | Some j \<Rightarrow> Suc (rank j)) (mset (Some j # rest)))
         \<in> mult {(x, y). x < (y::nat)}"
proof -
  let ?f = "\<lambda>work. case work of None \<Rightarrow> 0 | Some j \<Rightarrow> Suc (rank j)"
  have "?f work < Suc (rank j)" if "work \<in> set new" for work
  proof (cases work)
    case (Some k)
    with that assms(1) have "Spawn (Some k) \<in> set as" by blast
    with assms(2) Some show ?thesis by simp
  qed simp
  then have "(image_mset ?f (mset rest) + image_mset ?f (mset new), image_mset ?f (mset rest) + {#Suc (rank j)#})
      \<in> mult {(x, y). x < (y::nat)}"
    by (intro one_step_implies_mult) (auto simp: image_iff)
  then show ?thesis by simp
qed

lemma drain_terminates:
  assumes laws: "eventfd_laws ev"
    and smaller: "\<And>j s k. Spawn (Some k) \<in> set (body j s) \<Longrightarrow> rank k < (rank j :: nat)"
    and "fifo (fst st)"
  shows "\<exists>st'. drain ev body st = Some st'"
  using assms(3)
proof (induction "ranks rank (fst st)" arbitrary: st
    rule: wf_induct_rule [OF wf_mult, of "{(x, y). x < (y::nat)}"])
  case 1
  then show ?case by (simp add: wf_less)
next
  case 2
  obtain work ex where gw: "get_work (fst st) = (work, ex)" by fastforce
  show ?case
  proof (cases work)
    case None
    then show ?thesis by (subst drain.simps) (simp add: gw)
  next
    case (Some j)
    then obtain rest where q: "workqueue (fst st) = Some j # rest" "workqueue ex = rest"
      using gw by (auto elim: get_work_cases)
    have fifo: "fifo ex" using get_work_fifo [OF 2(2) gw] .
    obtain ex1 s1 where rw: "run_work ev body j (ex, snd st) = (ex1, s1)" by fastforce
    note kept = run_work_keeps [OF laws fifo _ rw, of "length rest"]
    have cov: "covered (length rest) ex" by (simp add: covered_def q)
    obtain new where new: "workqueue ex1 = rest @ new" "set new \<subseteq> {work. Spawn work \<in> set (body j (snd st))}"
      using kept(3) [OF cov] q by auto
    have "(ranks rank ex1, ranks rank (fst st)) \<in> mult {(x, y). x < (y::nat)}"
      unfolding ranks_def q(1) new(1) by (rule run_work_ranks [OF new(2)]) (rule smaller)
    with 2(1) kept(1) [OF cov] obtain st' where "drain ev body (ex1, s1) = Some st'" by fastforce
    with Some gw rw show ?thesis by (subst drain.simps) simp
  qed
qed

text \<open>What the actions of a piece of work do to the state when its spawning succeeds.\<close>

fun run_alone :: "('j, 's) action list \<Rightarrow> 's \<Rightarrow> 's" where
  "run_alone [] s = s"
| "run_alone (Spawn work # as) s = run_alone as s"
| "run_alone (Act f # as) s = (case f s of (Inl e, s) \<Rightarrow> s | (Inr _, s) \<Rightarrow> run_alone as s)"

definition writes_succeed :: "eventfd_ops \<Rightarrow> bool" where
  "writes_succeed ev \<longleftrightarrow> (\<forall>c. fst (ev_write ev c) = 0)"

lemma spawn_succeeds: "writes_succeed ev \<Longrightarrow> \<exists>ex'. spawn ev work ex = (Inr (), ex') \<and> taken ex' = taken ex"
  by (auto simp: writes_succeed_def spawn_def spawn_notify_def spawn_push_def split: prod.split)
     (metis fst_conv)

lemma run_body_alone:
  assumes "writes_succeed ev" and "run_body ev as (ex, s) = (r, ex', s')"
  shows "s' = run_alone as s \<and> taken ex' = taken ex"
  using assms(2)
proof (induction as arbitrary: ex s)
  case (Cons a as)
  show ?case
  proof (cases a)
    case (Spawn work)
    obtain ex1 where "spawn ev work ex = (Inr (), ex1)" "taken ex1 = taken ex"
      using spawn_succeeds [OF assms(1)] by blast
    with Cons Spawn show ?thesis by simp
  next
    case (Act f)
    with Cons show ?thesis by (auto split: prod.splits sum.splits)
  qed
qed simp

lemma run_work_alone:
  assumes "writes_succeed ev" and "run_work ev body j (ex, s) = (ex', s')"
  shows "s' = run_alone (body j s) s" and "taken ex' = taken ex"
proof -
  obtain r ex1 s1 where run: "run_body ev (body j s) (ex, s) = (r, ex1, s1)" by (metis prod_cases3)
  then show "s' = run_alone (body j s) s" and "taken ex' = taken ex"
    using run_body_alone [OF assms(1) run] assms(2) by (auto simp: run_work_def split: sum.splits)
qed

text \<open>Without empty functions the loop runs what is queued and what that spawns, in order.\<close>

lemma drain_runs_all:
  assumes "eventfd_laws ev" and "writes_succeed ev" and "\<And>j s. Spawn None \<notin> set (body j s)"
    and "drain ev body st = Some st'" and "fifo (fst st)" and "None \<notin> set (workqueue (fst st))"
  shows "workqueue (fst st') = [] \<and>
    (\<exists>jobs new. taken (fst st') = taken (fst st) @ map Some jobs \<and> map Some jobs = workqueue (fst st) @ new \<and>
       snd st' = fold (\<lambda>j s. run_alone (body j s) s) jobs (snd st))"
  using assms(4-6)
proof (induction rule: drain_induct)
  case (stop st ex)
  then have "workqueue (fst st) = []" and "ex = fst st" by (auto elim!: get_work_cases)
  then show ?case by (auto intro: exI [of _ "[]"])
next
  case (turn st ex j st')
  obtain rest where q: "workqueue (fst st) = Some j # rest" "workqueue ex = rest" "taken ex = taken (fst st) @ [Some j]"
    using turn(1) by (auto elim: get_work_cases)
  have fifo: "fifo ex" using get_work_fifo [OF turn(3,1)] .
  obtain ex1 s1 where rw: "run_work ev body j (ex, snd st) = (ex1, s1)" by fastforce
  have cov: "covered (length rest) ex" by (simp add: covered_def q)
  note kept = run_work_keeps [OF assms(1) fifo cov rw]
  obtain new where new: "workqueue ex1 = rest @ new" "None \<notin> set new"
    using kept(3) q(2) assms(3) [of j "snd st"] by auto
  from turn(2) kept(1) new turn(4) q obtain jobs new' where
    j: "workqueue (fst st') = []" "taken (fst st') = taken ex1 @ map Some jobs" "map Some jobs = workqueue ex1 @ new'"
      "snd st' = fold (\<lambda>j s. run_alone (body j s) s) jobs s1"
    by (auto simp: rw)
  note alone = run_work_alone [OF assms(2) rw]
  have "taken (fst st') = taken (fst st) @ map Some (j # jobs)" using j(2) alone(2) q(3) by simp
  moreover have "map Some (j # jobs) = workqueue (fst st) @ new @ new'" using j(3) new(1) q(1) by simp
  moreover have "snd st' = fold (\<lambda>j s. run_alone (body j s) s) (j # jobs) (snd st)"
    using j(4) alone(1) by simp
  ultimately show ?case using j(1) by blast
qed

text \<open>The invariant of the system of threads and loop.\<close>

definition system_ok :: "('j, 's) exec_system \<Rightarrow> bool" where
  "system_ok S \<longleftrightarrow> fifo (exec S) \<and> covered (spawners S + of_bool (reading S)) (exec S)"

lemma system_ok_step:
  assumes "eventfd_laws ev" and "exec_step ev body S S'" and "system_ok S"
  shows "system_ok S'"
  using assms(2,3)
proof (induction rule: exec_step.induct)
  case (Push S work)
  then show ?case by (simp add: system_ok_def)
next
  case (Signal S n r ex)
  then show ?case
    using spawn_notify_covered [OF assms(1), of "n + of_bool (reading S)" "exec S"]
      spawn_notify_fifo [of ev "exec S"]
    by (simp add: system_ok_def)
next
  case (Read S)
  then show ?case using assms(1) by (simp add: system_ok_def consume_wakeup_def eventfd_laws_def fifo_def covered_def)
next
  case (Empty S ex s)
  then show ?case using drain_keeps [OF assms(1) Empty(2), of "spawners S"] by (simp add: system_ok_def)
next
  case (Destroy S)
  then show ?case by (simp add: system_ok_def fifo_def covered_def)
qed

lemma system_ok_start: "WaylandExecutor fd err = Inr ex \<Longrightarrow> system_ok (exec_start ex s)"
  by (auto simp: system_ok_def exec_start_def WaylandExecutor_def fifo_def covered_def split: if_splits)

lemma system_ok_steps:
  assumes "eventfd_laws ev" and "(exec_step ev body)\<^sup>*\<^sup>* S S'" and "system_ok S"
  shows "system_ok S'"
  using assms(2,3) by (induction rule: rtranclp_induct) (auto intro: system_ok_step [OF assms(1)])

text \<open>A loop has one executor: asking again gives the same one, until the loop is destroyed.\<close>

lemma find_append_None: "find P xs = None \<Longrightarrow> find P (xs @ ys) = find P ys"
  by (induction xs) (auto split: if_splits)

lemma executor_for_event_loop_again:
  assumes "executor_for_event_loop fresh fd err w = (Inr a, w')"
  shows "executor_for_event_loop fresh' fd' err' w' = (Inr a, w')"
  using assms
  by (auto simp: executor_for_event_loop_def find_append_None split: option.splits sum.splits)

section \<open>Properties\<close>

text \<open>
  Claim C14. Whatever the threads and the event loop of an executor do, no work is lost, run twice
  or reordered on its way through the queue: what was taken from the queue followed by what is in
  it is what was appended, in order. And work in the queue always has its wake-up: unless a write
  to the descriptor failed, a thread is about to write, or the loop is already emptying the queue,
  the descriptor of a queue that is not empty is readable.
\<close>

theorem executor_queue_is_fifo_and_awake:
  assumes "eventfd_laws ev" and "WaylandExecutor fd err = Inr ex" and "(exec_step ev body)\<^sup>*\<^sup>* (exec_start ex s) S"
  shows "submitted (exec S) = taken (exec S) @ workqueue (exec S) \<and>
    (workqueue (exec S) \<noteq> [] \<and> spawners S = 0 \<and> \<not> reading S \<and> lost_wakeups (exec S) = 0 \<longrightarrow>
       0 < notify_count (exec S))"
proof -
  have ok: "system_ok S" using system_ok_steps [OF assms(1,3) system_ok_start [OF assms(2)]] .
  then have "0 < notify_count (exec S)"
    if "workqueue (exec S) \<noteq> []" "spawners S = 0" "\<not> reading S" "lost_wakeups (exec S) = 0"
    using that by (cases "workqueue (exec S)") (simp_all add: system_ok_def covered_def)
  with ok show ?thesis by (auto simp: system_ok_def fifo_def)
qed

definition counting_eventfd :: eventfd_ops where
  "counting_eventfd = \<lparr>ev_write = (\<lambda>c. (0, c + 1)), ev_read = (\<lambda>c. if 0 < c then (0, c - 1) else (-1, 0))\<rparr>"

lemma counting_eventfd_laws: "eventfd_laws counting_eventfd" "writes_succeed counting_eventfd"
  by (simp_all add: eventfd_laws_def writes_succeed_def counting_eventfd_def)

theorem executor_queue_is_fifo_and_awake_witness:
  "\<exists>S. (exec_step counting_eventfd (\<lambda>(j::nat) (s::nat). []))\<^sup>*\<^sup>*
         (exec_start \<lparr>workqueue = [], notify_count = 0, source_active = True, mir_log = [],
            submitted = [], taken = [], lost_wakeups = 0\<rparr> 0) S \<and>
     workqueue (exec S) = [Some 7] \<and> 0 < notify_count (exec S)"
proof -
  let ?ex = "\<lparr>workqueue = [], notify_count = 0, source_active = True, mir_log = [],
    submitted = [], taken = [], lost_wakeups = 0\<rparr> :: nat executor"
  let ?step = "exec_step counting_eventfd (\<lambda>(j::nat) (s::nat). [])"
  let ?S1 = "(exec_start ?ex (0::nat))\<lparr>exec := spawn_push (Some 7) ?ex, spawners := 1\<rparr>"
  let ?S2 = "?S1\<lparr>exec := snd (spawn_notify counting_eventfd (exec ?S1)), spawners := 0\<rparr>"
  have 1: "?step (exec_start ?ex 0) ?S1"
    using exec_step.Push [of counting_eventfd _ "exec_start ?ex (0::nat)" "Some 7"] by (simp add: exec_start_def)
  have 2: "?step ?S1 ?S2"
    by (rule exec_step.Signal [of _ _ _ "fst (spawn_notify counting_eventfd (exec ?S1))"]) (simp_all add: exec_start_def)
  have run: "?step\<^sup>*\<^sup>* (exec_start ?ex 0) ?S2"
    by (rule converse_rtranclp_into_rtranclp [OF 1 r_into_rtranclp [of ?step, OF 2]])
  have start: "WaylandExecutor 5 0 = Inr ?ex" by (simp add: WaylandExecutor_def)
  have q: "workqueue (exec ?S2) = [Some 7]" and "spawners ?S2 = 0" "\<not> reading ?S2" "lost_wakeups (exec ?S2) = 0"
    by (simp_all add: exec_start_def spawn_notify_def spawn_push_def counting_eventfd_def)
  then have "workqueue (exec ?S2) \<noteq> [] \<and> spawners ?S2 = 0 \<and> \<not> reading ?S2 \<and> lost_wakeups (exec ?S2) = 0"
    by (intro conjI) (simp_all only: list.distinct simp_thms)
  with executor_queue_is_fifo_and_awake [OF counting_eventfd_laws(1) start run]
  have "0 < notify_count (exec ?S2)" by (rule mp [OF conjunct2])
  with run q show ?thesis by (intro exI [of _ ?S2] conjI)
qed

text \<open>
  Claim C23. One wake-up is enough for everything: when no empty function is queued or spawned and
  spawned work has a smaller rank than its spawner, \<^verbatim>\<open>on_notify\<close> returns; it runs all the work that
  was queued, and then all the work that was spawned on the way, in the order of the queue, whether
  or not some of it throws, and leaves the queue empty.
\<close>

theorem on_notify_runs_all_work:
  assumes "eventfd_laws ev" and "writes_succeed ev"
    and "\<And>j s k. Spawn (Some k) \<in> set (body j s) \<Longrightarrow> rank k < (rank j :: nat)"
    and "\<And>j s. Spawn None \<notin> set (body j s)" and "None \<notin> set (workqueue ex)"
    and "submitted ex = taken ex @ workqueue ex"
  shows "\<exists>ex' s' jobs new. on_notify ev body (ex, s) = Some (ex', s') \<and> workqueue ex' = [] \<and>
    taken ex' = taken ex @ map Some jobs \<and> map Some jobs = workqueue ex @ new \<and>
    s' = fold (\<lambda>j s. run_alone (body j s) s) jobs s"
proof -
  let ?st = "(consume_wakeup ev ex, s)"
  have same: "workqueue (fst ?st) = workqueue ex" "taken (fst ?st) = taken ex" "fifo (fst ?st)"
    using assms(6) by (auto simp: consume_wakeup_def fifo_def split: prod.split)
  obtain st' where run: "drain ev body ?st = Some st'"
    using drain_terminates [where rank = rank and body = body, OF assms(1) _ same(3)] assms(3) by blast
  from drain_runs_all [OF assms(1,2,4) run same(3)] assms(5) same run show ?thesis
    by (cases st') (auto simp: on_notify_def)
qed

theorem on_notify_runs_all_work_witness:
  "\<exists>ex' s' jobs new.
     on_notify counting_eventfd
       (\<lambda>(j::nat) (s::nat list). if j = 0 then [Act (\<lambda>s. (Inl Bad_optional_access, 0 # s))]
          else [Act (\<lambda>s. (Inr (), j # s)), Spawn (Some 0)])
       (\<lparr>workqueue = [Some 1, Some 2], notify_count = 2, source_active = True, mir_log = [],
          submitted = [Some 1, Some 2], taken = [], lost_wakeups = 0\<rparr>, []) = Some (ex', s') \<and>
     workqueue ex' = [] \<and> map Some jobs = [Some (1::nat), Some 2] @ new"
proof -
  let ?body = "\<lambda>(j::nat) (s::nat list). if j = 0 then [Act (\<lambda>s. (Inl Bad_optional_access, 0 # s))]
    else [Act (\<lambda>s. (Inr (), j # s)), Spawn (Some (0::nat))]"
  let ?ex = "\<lparr>workqueue = [Some (1::nat), Some 2], notify_count = 2, source_active = True, mir_log = [],
    submitted = [Some 1, Some 2], taken = [], lost_wakeups = 0\<rparr>"
  have "\<exists>ex' s' jobs new. on_notify counting_eventfd ?body (?ex, []) = Some (ex', s') \<and> workqueue ex' = [] \<and>
      taken ex' = taken ?ex @ map Some jobs \<and> map Some jobs = workqueue ?ex @ new \<and>
      s' = fold (\<lambda>j s. run_alone (?body j s) s) jobs []"
    by (rule on_notify_runs_all_work [OF counting_eventfd_laws, where rank = "\<lambda>j. j"])
      (auto split: if_splits)
  then show ?thesis unfolding executor.simps by blast
qed

end
