(* ===== verification/Waitable_Mutex.thy ===== *)
theory Waitable_Mutex
  imports Prelude
begin

text \<open>
  \<^verbatim>\<open>Mutex\<close>, \<^verbatim>\<open>MutexGuard\<close> and \<^verbatim>\<open>WaitableMutex\<close> of \<^verbatim>\<open>include/mutex.h\<close>: a mutex that owns the
  data it guards and hands out accessors, and its extension by a condition variable. Threads are
  numbers; each is at one point of the code of the classes, and the points at which a thread can
  be interrupted are separate steps. An operation that has to wait for the lock is not enabled
  (\<open>None\<close>) until the lock is free.
\<close>

section \<open>State\<close>

text \<open>
  Where a thread is: outside, holding a \<^verbatim>\<open>MutexGuard\<close>, asleep in \<^verbatim>\<open>notifier.wait_for\<close> with its
  lock released, or woken there and about to take the lock again (the flag says that its time was
  up). A guard that \<^verbatim>\<open>wait_for\<close> returned is tagged with the predicate it waited for, as long as
  its holder has not changed the data; the tag is a ghost and no operation reads it.
\<close>

datatype 'g phase =
    Outside
  | Guarding "('g \<Rightarrow> bool) option"
  | Sleeping "'g \<Rightarrow> bool"
  | Waking "'g \<Rightarrow> bool" bool

record 'g waitable_mutex =
  lock_owner :: "nat option"
  guarded :: 'g
  phase_of :: "nat \<Rightarrow> 'g phase"

definition set_phase :: "nat \<Rightarrow> 'g phase \<Rightarrow> 'g waitable_mutex \<Rightarrow> 'g waitable_mutex" where
  "set_phase t p m = m\<lparr>phase_of := (phase_of m)(t := p)\<rparr>"

definition Mutex :: "'g \<Rightarrow> 'g waitable_mutex" where
  "Mutex initial_value = \<lparr>lock_owner = None, guarded = initial_value, phase_of = (\<lambda>_. Outside)\<rparr>"

section \<open>Operations\<close>

text \<open>\<^verbatim>\<open>std::unique_lock<std::mutex> lock{mutex}\<close> and \<^verbatim>\<open>lock.unlock()\<close>.\<close>

definition acquire :: "nat \<Rightarrow> 'g waitable_mutex \<Rightarrow> 'g waitable_mutex option" where
  "acquire t m = (if lock_owner m = None then Some (m\<lparr>lock_owner := Some t\<rparr>) else None)"

definition release :: "'g waitable_mutex \<Rightarrow> 'g waitable_mutex" where
  "release m = m\<lparr>lock_owner := None\<rparr>"

definition mutex_lock :: "nat \<Rightarrow> 'g waitable_mutex \<Rightarrow> 'g waitable_mutex option" where
  "mutex_lock t m = map_option (set_phase t (Guarding None)) (acquire t m)"

text \<open>The destructor of a guard; a guard that was moved from does not own the lock.\<close>

definition guard_destructor :: "nat \<Rightarrow> 'g waitable_mutex \<Rightarrow> 'g waitable_mutex" where
  "guard_destructor t m =
     set_phase t Outside (if lock_owner m = Some t then release m else m)"

text \<open>Writing through \<^verbatim>\<open>operator*\<close> or \<^verbatim>\<open>operator->\<close> of a guard.\<close>

definition guard_update :: "nat \<Rightarrow> ('g \<Rightarrow> 'g) \<Rightarrow> 'g waitable_mutex \<Rightarrow> 'g waitable_mutex" where
  "guard_update t f m = set_phase t (Guarding None) (m\<lparr>guarded := f (guarded m)\<rparr>)"

text \<open>
  \<^verbatim>\<open>wait_for\<close>. The wait of a condition variable with a predicate looks at the predicate with the
  lock held; when it does not hold the lock is released and the thread sleeps until it is notified,
  wakes spuriously, or its time is up. It then takes the lock and looks again; after a timeout it
  looks for the last time, and \<^verbatim>\<open>wait_for\<close> throws when the predicate does not hold even then.
\<close>

definition wait_for_enter :: "nat \<Rightarrow> ('g \<Rightarrow> bool) \<Rightarrow> 'g waitable_mutex \<Rightarrow> 'g waitable_mutex option" where
  "wait_for_enter t predicate m =
     map_option
       (\<lambda>m. if predicate (guarded m) then set_phase t (Guarding (Some predicate)) m
            else set_phase t (Sleeping predicate) (release m))
       (acquire t m)"

definition wait_for_wake :: "nat \<Rightarrow> bool \<Rightarrow> 'g waitable_mutex \<Rightarrow> 'g waitable_mutex option" where
  "wait_for_wake t timed_out m =
     (case phase_of m t of
        Sleeping p \<Rightarrow> Some (set_phase t (Waking p timed_out) m)
      | _ \<Rightarrow> None)"

definition wait_for_resume :: "nat \<Rightarrow> 'g waitable_mutex \<Rightarrow> (unit result \<times> 'g waitable_mutex) option" where
  "wait_for_resume t m =
     (case phase_of m t of
        Waking p timed_out \<Rightarrow>
          map_option
            (\<lambda>m. if p (guarded m) then (Inr (), set_phase t (Guarding (Some p)) m)
                 else if timed_out
                 then (Inl (Runtime_error ''Notification timeout''), set_phase t Outside (release m))
                 else (Inr (), set_phase t (Sleeping p) (release m)))
            (acquire t m)
      | _ \<Rightarrow> None)"

definition notify_all :: "'g waitable_mutex \<Rightarrow> 'g waitable_mutex" where
  "notify_all m =
     m\<lparr>phase_of := (\<lambda>t. case phase_of m t of Sleeping p \<Rightarrow> Waking p False | p \<Rightarrow> p)\<rparr>"

section \<open>Steps\<close>

text \<open>
  What the threads of a program do with the mutex: a thread outside locks or starts to wait, a
  thread with a guard writes or drops it, sleepers wake, woken threads go on, and anybody notifies.
\<close>

inductive mutex_step :: "'g waitable_mutex \<Rightarrow> 'g waitable_mutex \<Rightarrow> bool" where
  Lock: "phase_of m t = Outside \<Longrightarrow> mutex_lock t m = Some m' \<Longrightarrow> mutex_step m m'"
| Write: "phase_of m t = Guarding g \<Longrightarrow> mutex_step m (guard_update t f m)"
| Drop: "phase_of m t = Guarding g \<Longrightarrow> mutex_step m (guard_destructor t m)"
| Wait: "phase_of m t = Outside \<Longrightarrow> wait_for_enter t p m = Some m' \<Longrightarrow> mutex_step m m'"
| Wake: "wait_for_wake t timed_out m = Some m' \<Longrightarrow> mutex_step m m'"
| Resume: "wait_for_resume t m = Some (r, m') \<Longrightarrow> mutex_step m m'"
| Notify: "mutex_step m (notify_all m)"

inductive_cases mutex_stepE: "mutex_step m m'"

section \<open>Lemmas\<close>

lemma phase_of_set_phase [simp]: "phase_of (set_phase t p m) = (phase_of m)(t := p)"
  by (simp add: set_phase_def)

lemma owner_set_phase [simp]: "lock_owner (set_phase t p m) = lock_owner m"
  by (simp add: set_phase_def)

lemma guarded_set_phase [simp]: "guarded (set_phase t p m) = guarded m"
  by (simp add: set_phase_def)

text \<open>
  The invariant: the threads with a guard are exactly the owner of the lock, and a guard that
  \<^verbatim>\<open>wait_for\<close> returned still finds its predicate true.
\<close>

definition mutex_ok :: "'g waitable_mutex \<Rightarrow> bool" where
  "mutex_ok m \<longleftrightarrow>
     (\<forall>t. lock_owner m = Some t \<longleftrightarrow> (\<exists>g. phase_of m t = Guarding g)) \<and>
     (\<forall>t p. phase_of m t = Guarding (Some p) \<longrightarrow> p (guarded m))"

lemma mutex_ok_Mutex [simp]: "mutex_ok (Mutex v)"
  by (simp add: mutex_ok_def Mutex_def)

lemma guard_owns: "mutex_ok m \<Longrightarrow> phase_of m t = Guarding g \<Longrightarrow> lock_owner m = Some t"
  by (auto simp: mutex_ok_def)

lemma guard_unique:
  "mutex_ok m \<Longrightarrow> phase_of m t = Guarding g \<Longrightarrow> phase_of m u = Guarding h \<Longrightarrow> u = t"
  using guard_owns [of m t g] guard_owns [of m u h] by simp

lemma mutex_ok_same_guards:
  assumes "mutex_ok m" and "lock_owner m' = lock_owner m" and "guarded m' = guarded m"
    and "\<And>u g. phase_of m' u = Guarding g \<longleftrightarrow> phase_of m u = Guarding g"
  shows "mutex_ok m'"
  using assms(1) unfolding mutex_ok_def assms(2-4) .

lemma mutex_ok_step: "mutex_step m m' \<Longrightarrow> mutex_ok m \<Longrightarrow> mutex_ok m'"
proof (induction rule: mutex_step.induct)
  case (Lock m t m')
  then show ?case by (auto simp: mutex_ok_def mutex_lock_def acquire_def split: if_splits)
next
  case (Write m t g f)
  then have own: "lock_owner m = Some t" and other: "u \<noteq> t \<Longrightarrow> phase_of m u \<noteq> Guarding h" for u h
    using guard_owns guard_unique by blast+
  have "lock_owner m = Some u \<longleftrightarrow> (\<exists>g. (if u = t then Guarding None else phase_of m u) = Guarding g)" for u
    using own other by auto
  then show ?case using other by (simp add: mutex_ok_def guard_update_def fun_upd_def)
next
  case (Drop m t g)
  then have "lock_owner m = Some t" and "u \<noteq> t \<Longrightarrow> phase_of m u \<noteq> Guarding h" for u h
    using guard_owns guard_unique by blast+
  then show ?case by (simp add: mutex_ok_def guard_destructor_def release_def)
next
  case (Wait m t p m')
  then show ?case by (auto simp: mutex_ok_def wait_for_enter_def acquire_def release_def split: if_splits)
next
  case (Wake t timed_out m m')
  then show ?case
    by (intro mutex_ok_same_guards [OF Wake.prems]) (auto simp: wait_for_wake_def split: phase.splits if_splits)
next
  case (Resume t m r m')
  then show ?case
    by (auto simp: mutex_ok_def wait_for_resume_def acquire_def release_def split: phase.splits if_splits)
next
  case (Notify m)
  have "(case phase_of m t of Sleeping p \<Rightarrow> Waking p False | p \<Rightarrow> p) = Guarding g \<longleftrightarrow> phase_of m t = Guarding g" for t g
    by (cases "phase_of m t") auto
  then show ?case by (intro mutex_ok_same_guards [OF Notify]) (simp_all add: notify_all_def)
qed

lemma mutex_ok_steps: "mutex_step\<^sup>*\<^sup>* m m' \<Longrightarrow> mutex_ok m \<Longrightarrow> mutex_ok m'"
  by (induction rule: rtranclp_induct) (auto intro: mutex_ok_step)

text \<open>While a thread keeps its guard, no other thread's step changes the data.\<close>

lemma guard_is_exclusive:
  assumes "mutex_ok m" and "mutex_step m m'" and "phase_of m t = Guarding g" and "phase_of m' t = Guarding g"
  shows "guarded m' = guarded m \<or> (\<exists>f. m' = guard_update t f m)"
  using assms(2)
proof cases
  case (Write u h f)
  then have "u = t" using guard_unique [OF assms(1,3)] by simp
  with Write show ?thesis by auto
qed (auto simp: mutex_lock_def acquire_def guard_destructor_def release_def wait_for_enter_def
      wait_for_wake_def wait_for_resume_def notify_all_def split: phase.splits if_splits)

section \<open>Critical sections\<close>

text \<open>
  What the users of a mutex with data rely on. \<open>free t m\<close>: the lock is free and the thread \<open>t\<close> is
  outside; \<open>held t m\<close>: \<open>t\<close> has a guard. Locking a free mutex gives a guard on the same data, nobody
  else can lock while it is held, and dropping the guard after a write leaves the mutex as it was,
  with the new data in it.
\<close>

locale data_mutex =
  fixes lock :: "nat \<Rightarrow> 'm \<Rightarrow> 'm option"
    and unlock :: "nat \<Rightarrow> 'm \<Rightarrow> 'm"
    and assign :: "nat \<Rightarrow> ('g \<Rightarrow> 'g) \<Rightarrow> 'm \<Rightarrow> 'm"
    and data :: "'m \<Rightarrow> 'g"
    and put :: "'g \<Rightarrow> 'm \<Rightarrow> 'm"
    and free :: "nat \<Rightarrow> 'm \<Rightarrow> bool"
    and held :: "nat \<Rightarrow> 'm \<Rightarrow> bool"
  assumes lock_free: "free t m \<Longrightarrow> \<exists>m1. lock t m = Some m1 \<and> held t m1 \<and> data m1 = data m \<and>
      (\<forall>f. unlock t (assign t f m1) = put (f (data m)) m)"
    and lock_held: "held t m \<Longrightarrow> lock u m = None"
    and data_put: "data (put v m) = v"
    and put_put: "put v (put w m) = put v m"
    and free_put: "free t (put v m) \<longleftrightarrow> free t m"
begin

text \<open>A block that locks, reads and writes the data, and drops its guard.\<close>

definition critical :: "nat \<Rightarrow> ('g \<Rightarrow> 'r \<times> 'g) \<Rightarrow> 'm \<Rightarrow> ('r \<times> 'm) option" where
  "critical t body m =
     (case lock t m of
        None \<Rightarrow> None
      | Some m1 \<Rightarrow> (case body (data m1) of (r, g) \<Rightarrow> Some (r, unlock t (assign t (\<lambda>_. g) m1))))"

lemma critical_free:
  "free t m \<Longrightarrow> critical t body m = Some (fst (body (data m)), put (snd (body (data m))) m)"
  using lock_free [of t m] by (auto simp: critical_def split_beta)

lemma critical_held: "held t m \<Longrightarrow> critical u body m = None"
  by (simp add: critical_def lock_held)

text \<open>Critical sections one after the other are the bodies one after the other.\<close>

fun criticals :: "(nat \<times> ('g \<Rightarrow> 'r \<times> 'g)) list \<Rightarrow> 'm \<Rightarrow> ('r list \<times> 'm) option" where
  "criticals [] m = Some ([], m)"
| "criticals ((t, body) # cs) m =
     (case critical t body m of
        None \<Rightarrow> None
      | Some (r, m) \<Rightarrow> map_option (\<lambda>(rs, m). (r # rs, m)) (criticals cs m))"

fun bodies :: "(nat \<times> ('g \<Rightarrow> 'r \<times> 'g)) list \<Rightarrow> 'g \<Rightarrow> 'r list \<times> 'g" where
  "bodies [] g = ([], g)"
| "bodies ((_, body) # cs) g = (case body g of (r, g) \<Rightarrow> (case bodies cs g of (rs, g) \<Rightarrow> (r # rs, g)))"

lemma criticals_serial:
  assumes "\<forall>(t, _) \<in> set cs. free t m" and "cs \<noteq> []"
  shows "criticals cs m = Some (fst (bodies cs (data m)), put (snd (bodies cs (data m))) m)"
  using assms
proof (induction cs arbitrary: m)
  case (Cons c cs)
  obtain t body where c: "c = (t, body)" by (cases c)
  let ?m = "put (snd (body (data m))) m"
  have "critical t body m = Some (fst (body (data m)), ?m)" using Cons.prems by (simp add: c critical_free)
  moreover have "criticals cs ?m = Some (fst (bodies cs (data ?m)), put (snd (bodies cs (data ?m))) ?m)"
    if "cs \<noteq> []" using Cons.IH [of ?m] Cons.prems that by (auto simp: free_put)
  ultimately show ?case by (cases "cs = []") (auto simp: c data_put put_put split_beta)
qed simp

end

definition outside :: "nat \<Rightarrow> 'g waitable_mutex \<Rightarrow> bool" where
  "outside t m \<longleftrightarrow> lock_owner m = None \<and> phase_of m t = Outside"

definition guarding :: "nat \<Rightarrow> 'g waitable_mutex \<Rightarrow> bool" where
  "guarding t m \<longleftrightarrow> lock_owner m = Some t \<and> (\<exists>g. phase_of m t = Guarding g)"

definition put_guarded :: "'g \<Rightarrow> 'g waitable_mutex \<Rightarrow> 'g waitable_mutex" where
  "put_guarded g m = m\<lparr>guarded := g\<rparr>"

interpretation wm: data_mutex mutex_lock guard_destructor guard_update guarded put_guarded outside guarding
  by unfold_locales
    (auto simp: mutex_lock_def acquire_def guard_update_def guard_destructor_def release_def set_phase_def
      outside_def guarding_def put_guarded_def fun_upd_idem)

text \<open>A sleeper whose condition became true before a notification returns once it runs.\<close>

lemma notified_waiter_returns:
  assumes "phase_of m t = Sleeping p" and "p (guarded m)" and "lock_owner m = None"
  shows "\<exists>m'. wait_for_resume t (notify_all m) = Some (Inr (), m') \<and>
           phase_of m' t = Guarding (Some p) \<and> lock_owner m' = Some t \<and> guarded m' = guarded m"
  using assms by (simp add: wait_for_resume_def notify_all_def acquire_def)

section \<open>Properties\<close>

text \<open>
  Claim C22. A guard gives exclusive access: in every state that threads can reach from a new
  mutex, at most one thread holds a guard; as long as it keeps the guard, a step changes the
  data only when it is a write through that guard; and a guard that \<^verbatim>\<open>wait_for\<close> returned finds its
  predicate true, for as long as its holder has not written.
\<close>

theorem guards_are_exclusive:
  assumes "mutex_step\<^sup>*\<^sup>* (Mutex v) m" and "phase_of m t = Guarding g"
  shows "(phase_of m u = Guarding h \<longrightarrow> u = t) \<and>
    (mutex_step m m' \<and> phase_of m' t = Guarding g \<longrightarrow> guarded m' = guarded m \<or> (\<exists>f. m' = guard_update t f m)) \<and>
    (g = Some p \<longrightarrow> p (guarded m))"
proof -
  have ok: "mutex_ok m" using mutex_ok_steps [OF assms(1)] by simp
  then have "g = Some p \<longrightarrow> p (guarded m)" using assms(2) by (auto simp: mutex_ok_def)
  with guard_is_exclusive [OF ok _ assms(2)] guard_unique [OF ok assms(2)] show ?thesis by blast
qed

theorem guards_are_exclusive_witness:
  "\<exists>m. mutex_step\<^sup>*\<^sup>* (Mutex (3::nat)) m \<and> phase_of m 0 = Guarding (Some (\<lambda>n. 2 < n)) \<and>
     (\<forall>u h. phase_of m u = Guarding h \<longrightarrow> u = 0) \<and> 2 < guarded m"
proof -
  let ?p = "\<lambda>n::nat. 2 < n"
  let ?m = "(Mutex (3::nat))\<lparr>lock_owner := Some 0, phase_of := (\<lambda>_. Outside)(0 := Guarding (Some ?p))\<rparr>"
  have "mutex_step (Mutex 3) ?m"
    by (rule mutex_step.Wait [of _ 0 ?p])
      (simp_all add: Mutex_def wait_for_enter_def acquire_def set_phase_def)
  then have *: "mutex_step\<^sup>*\<^sup>* (Mutex 3) ?m" by simp
  have g: "phase_of ?m 0 = Guarding (Some ?p)" by simp
  note excl = guards_are_exclusive [OF * g, where p = ?p and m' = ?m]
  have "u = 0" if "phase_of ?m u = Guarding h" for u h using excl [of u h] that by blast
  moreover have "2 < guarded ?m" using excl by blast
  ultimately show ?thesis using * g by blast
qed

end
