(* ===== verification/Mir_Resource_Mapper.thy ===== *)
theory Mir_Resource_Mapper
  imports Waitable_Mutex
begin

text \<open>
  \<^verbatim>\<open>ResourceMapper\<close> of \<^verbatim>\<open>example/mir_integration.cpp\<close> and the two requests of the integration that
  rest on it, \<^verbatim>\<open>wlcs_server_create_client_socket\<close> and
  \<^verbatim>\<open>wlcs_server_position_window_absolute\<close>. Mir tells the mapper about surfaces and buffer streams,
  libwayland about clients and resources; from the order of these events the mapper finds the Mir
  surface of a \<^verbatim>\<open>wl_surface\<close>. Clients, resources, streams, surfaces and threads are numbers;
  what libwayland and Mir know about them are parameters.
\<close>

section \<open>State\<close>

record mapper_state =
  wayland_thread :: "nat option"
  surface_map :: "nat \<rightharpoonup> nat"
  stream_map :: "nat \<rightharpoonup> nat"
  latest_client :: "nat option"
  client_session_map :: "int \<rightharpoonup> nat"
  resource_listener :: "nat list"

text \<open>
  \<^verbatim>\<open>Listeners\<close>, with the calls that registered listeners with libwayland: the display's listener,
  and the clients that got a listener for their resources.
\<close>

record mapper_listeners =
  last_wl_surface :: handle
  last_wl_window :: handle
  client_listener_added :: bool
  resource_listeners_added :: "nat list"

type_synonym resource_mapper = "mapper_state waitable_mutex \<times> mapper_listeners"

definition ResourceMapper :: resource_mapper where
  "ResourceMapper =
     (Mutex \<lparr>wayland_thread = None, surface_map = Map.empty, stream_map = Map.empty, latest_client = None,
             client_session_map = Map.empty, resource_listener = []\<rparr>,
      \<lparr>last_wl_surface = nullptr, last_wl_window = nullptr, client_listener_added = False,
       resource_listeners_added = []\<rparr>)"

text \<open>A method that holds the lock for its whole body; \<open>None\<close> while another thread holds it.\<close>

definition locked ::
    "nat \<Rightarrow> (mapper_state \<Rightarrow> mapper_listeners \<Rightarrow> 'a result \<times> mapper_state \<times> mapper_listeners) \<Rightarrow>
     resource_mapper \<Rightarrow> ('a result \<times> resource_mapper) option" where
  "locked t body rm =
     (case mutex_lock t (fst rm) of
        None \<Rightarrow> None
      | Some m \<Rightarrow>
          (case body (guarded m) (snd rm) of (r, g, l) \<Rightarrow>
             Some (r, guard_destructor t (guard_update t (\<lambda>_. g) m), l)))"

section \<open>The session listener\<close>

definition surface_created ::
    "nat \<Rightarrow> nat \<Rightarrow> nat \<Rightarrow> mapper_state \<Rightarrow> mapper_listeners \<Rightarrow> unit result \<times> mapper_state \<times> mapper_listeners" where
  "surface_created this_thread surface primary_buffer_stream st ls =
     (if wayland_thread st = Some this_thread
      then if last_wl_window ls = nullptr
           then (Inl (Runtime_error ''Called Shell::create_surface() without first creating a wl_shell_surface?''), st, ls)
           else (case stream_map st primary_buffer_stream of
                   None \<Rightarrow> (Inl (Out_of_range ''stream_map.at''), st, ls)
                 | Some wl_surface \<Rightarrow>
                     (Inr (), st\<lparr>surface_map := (surface_map st)(wl_surface \<mapsto> surface)\<rparr>, ls))
      else (Inr (), st, ls))"

definition buffer_stream_created ::
    "nat \<Rightarrow> nat \<Rightarrow> mapper_state \<Rightarrow> mapper_listeners \<Rightarrow> unit result \<times> mapper_state \<times> mapper_listeners" where
  "buffer_stream_created this_thread stream st ls =
     (if wayland_thread st = Some this_thread
      then (case last_wl_surface ls of
              None \<Rightarrow> (Inl (Runtime_error ''BufferStream created without first constructing a wl_surface?''), st, ls)
            | Some r \<Rightarrow>
                (Inr (), st\<lparr>stream_map := (stream_map st)(stream \<mapsto> r)\<rparr>, ls\<lparr>last_wl_surface := nullptr\<rparr>))
      else (Inr (), st, ls))"

definition buffer_stream_destroyed ::
    "nat \<Rightarrow> mapper_state \<Rightarrow> mapper_listeners \<Rightarrow> unit result \<times> mapper_state \<times> mapper_listeners" where
  "buffer_stream_destroyed stream st ls =
     (Inr (), st\<lparr>stream_map := (stream_map st)(stream := None)\<rparr>, ls)"

text \<open>The other callbacks have empty bodies and do not lock.\<close>

datatype session_event =
    Starting | Stopping | Focused | Unfocused
  | Surface_created nat nat
  | Destroying_surface nat
  | Buffer_stream_created nat
  | Buffer_stream_destroyed nat

fun session_listener :: "nat \<Rightarrow> session_event \<Rightarrow> resource_mapper \<Rightarrow> (unit result \<times> resource_mapper) option" where
  "session_listener t Starting rm = Some (Inr (), rm)"
| "session_listener t Stopping rm = Some (Inr (), rm)"
| "session_listener t Focused rm = Some (Inr (), rm)"
| "session_listener t Unfocused rm = Some (Inr (), rm)"
| "session_listener t (Surface_created surface stream) rm = locked t (surface_created t surface stream) rm"
| "session_listener t (Destroying_surface surface) rm = Some (Inr (), rm)"
| "session_listener t (Buffer_stream_created stream) rm = locked t (buffer_stream_created t stream) rm"
| "session_listener t (Buffer_stream_destroyed stream) rm = locked t (buffer_stream_destroyed stream) rm"

section \<open>The listeners of libwayland\<close>

definition mapper_init :: "nat \<Rightarrow> resource_mapper \<Rightarrow> (unit result \<times> resource_mapper) option" where
  "mapper_init this_thread rm =
     locked this_thread (\<lambda>st ls. (Inr (), st\<lparr>wayland_thread := Some this_thread\<rparr>, ls\<lparr>client_listener_added := True\<rparr>)) rm"

definition is_surface :: "string \<Rightarrow> bool" where
  "is_surface cls \<longleftrightarrow> cls = ''wl_surface''"

definition is_window :: "string \<Rightarrow> bool" where
  "is_window cls \<longleftrightarrow> cls = ''wl_shell_surface'' \<or> cls = ''zxdg_surface_v6''"

definition resource_created :: "(nat \<Rightarrow> string) \<Rightarrow> nat \<Rightarrow> resource_mapper \<Rightarrow> resource_mapper" where
  "resource_created wl_resource_get_class resource rm =
     (fst rm,
      (if is_surface (wl_resource_get_class resource) then (snd rm)\<lparr>last_wl_surface := Some resource\<rparr>
       else if is_window (wl_resource_get_class resource) then (snd rm)\<lparr>last_wl_window := Some resource\<rparr>
       else snd rm))"

text \<open>
  \<^verbatim>\<open>emplace\<close> keeps an entry that is there. The waiters are notified after the lock was released,
  and the listener is registered with the client after that.
\<close>

definition client_created_locked ::
    "nat \<Rightarrow> mapper_state \<Rightarrow> mapper_listeners \<Rightarrow> unit result \<times> mapper_state \<times> mapper_listeners" where
  "client_created_locked client st ls =
     (Inr (), st\<lparr>latest_client := Some client,
                 resource_listener := (if client \<in> set (resource_listener st) then resource_listener st
                                       else resource_listener st @ [client])\<rparr>, ls)"

definition client_created :: "nat \<Rightarrow> nat \<Rightarrow> resource_mapper \<Rightarrow> resource_mapper option" where
  "client_created this_thread client rm =
     map_option
       (\<lambda>(_, m, ls). (notify_all m, ls\<lparr>resource_listeners_added := resource_listeners_added ls @ [client]\<rparr>))
       (locked this_thread (client_created_locked client) rm)"

section \<open>Queries\<close>

definition surface_for_resource ::
    "(nat \<Rightarrow> string) \<Rightarrow> nat \<Rightarrow> nat \<Rightarrow> resource_mapper \<Rightarrow> (nat result \<times> resource_mapper) option" where
  "surface_for_resource wl_resource_get_class this_thread resource rm =
     (if wl_resource_get_class resource \<noteq> ''wl_surface''
      then Some (Inl (Logic_error (''Expected a wl_surface, got: '' @ wl_resource_get_class resource)), rm)
      else locked this_thread
             (\<lambda>st ls. (case surface_map st resource of
                         None \<Rightarrow> Inl (Out_of_range ''surface_map.at'')
                       | Some surface \<Rightarrow> Inr surface, st, ls)) rm)"

definition client_for_fd :: "nat \<Rightarrow> int \<Rightarrow> resource_mapper \<Rightarrow> (nat result \<times> resource_mapper) option" where
  "client_for_fd this_thread client_socket rm =
     locked this_thread
       (\<lambda>st ls. (case client_session_map st client_socket of
                   None \<Rightarrow> Inl (Out_of_range ''client_session_map.at'')
                 | Some client \<Rightarrow> Inr client, st, ls)) rm"

text \<open>
  \<^verbatim>\<open>associate_client_socket\<close> waits until a client has been announced. \<open>meanwhile\<close> is what the other
  threads and the clock do while the thread sleeps, up to the moment at which it is woken and goes
  on; the result is \<open>None\<close> when it is still waiting after that.
\<close>

definition has_latest_client :: "mapper_state \<Rightarrow> bool" where
  "has_latest_client st \<longleftrightarrow> latest_client st \<noteq> None"

definition store_client :: "nat \<Rightarrow> int \<Rightarrow> mapper_state waitable_mutex \<Rightarrow> mapper_state waitable_mutex" where
  "store_client t client_socket m =
     guard_destructor t
       (guard_update t
          (\<lambda>st. st\<lparr>client_session_map := (client_session_map st)(client_socket := latest_client st),
                   latest_client := None\<rparr>) m)"

definition associate_client_socket ::
    "nat \<Rightarrow> int \<Rightarrow> (resource_mapper \<Rightarrow> resource_mapper) \<Rightarrow> resource_mapper \<Rightarrow>
     (unit result \<times> resource_mapper) option" where
  "associate_client_socket t client_socket meanwhile rm =
     (case wait_for_enter t has_latest_client (fst rm) of
        None \<Rightarrow> None
      | Some m \<Rightarrow>
          (if lock_owner m = Some t then Some (Inr (), store_client t client_socket m, snd rm)
           else case meanwhile (m, snd rm) of (m, ls) \<Rightarrow>
             (case wait_for_resume t m of
                None \<Rightarrow> None
              | Some (Inl e, m) \<Rightarrow> Some (Inl e, m, ls)
              | Some (Inr _, m) \<Rightarrow>
                  (if lock_owner m = Some t then Some (Inr (), store_client t client_socket m, ls) else None))))"

section \<open>The requests of the integration\<close>

text \<open>
  \<open>opened\<close> is what Mir's \<^verbatim>\<open>open_wayland_client_socket\<close> returned or threw and \<open>dup_fd\<close> the
  duplicate that \<^verbatim>\<open>fcntl\<close> made of it, -1 when that failed. Every \<^verbatim>\<open>std::exception\<close> is logged.
\<close>

definition wlcs_server_create_client_socket ::
    "nat \<Rightarrow> int result \<Rightarrow> (int \<Rightarrow> int) \<Rightarrow> (resource_mapper \<Rightarrow> resource_mapper) \<Rightarrow> resource_mapper \<Rightarrow>
     (int \<times> resource_mapper) option" where
  "wlcs_server_create_client_socket t opened dup_fd meanwhile rm =
     (case opened of
        Inl e \<Rightarrow> Some (-1, rm)
      | Inr fd \<Rightarrow>
          (case associate_client_socket t (dup_fd fd) meanwhile rm of
             None \<Rightarrow> None
           | Some (Inl e, rm) \<Rightarrow> Some (-1, rm)
           | Some (Inr _, rm) \<Rightarrow> Some (dup_fd fd, rm)))"

text \<open>
  Positioning a window ends with the window moved, with \<^verbatim>\<open>abort()\<close>, or with an exception that
  leaves the function. \<open>get_object\<close> is \<^verbatim>\<open>wl_client_get_object\<close>, \<open>alive\<close> says whether the weak
  pointer to a surface can be locked.
\<close>

datatype positioning = Moved nat int int | Aborted | Escaped exn

definition wlcs_server_position_window_absolute ::
    "(nat \<Rightarrow> string) \<Rightarrow> (nat \<Rightarrow> u32 \<Rightarrow> handle) \<Rightarrow> (nat \<Rightarrow> bool) \<Rightarrow> nat \<Rightarrow> int \<Rightarrow> u32 \<Rightarrow> int \<Rightarrow> int \<Rightarrow>
     resource_mapper \<Rightarrow> (positioning \<times> resource_mapper) option" where
  "wlcs_server_position_window_absolute cls get_object alive t fd obj_id x y rm =
     (case client_for_fd t fd rm of
        None \<Rightarrow> None
      | Some (Inl e, rm) \<Rightarrow> Some (case e of Out_of_range _ \<Rightarrow> Aborted | _ \<Rightarrow> Escaped e, rm)
      | Some (Inr client, rm) \<Rightarrow>
          (case get_object client obj_id of
             None \<Rightarrow> Some (Escaped (Undefined_behaviour ''class of a null resource''), rm)
           | Some resource \<Rightarrow>
               (case surface_for_resource cls t resource rm of
                  None \<Rightarrow> None
                | Some (Inl e, rm) \<Rightarrow> Some (case e of Out_of_range _ \<Rightarrow> Aborted | _ \<Rightarrow> Escaped e, rm)
                | Some (Inr surface, rm) \<Rightarrow> Some (if alive surface then Moved surface x y else Aborted, rm))))"

section \<open>Runs of the Wayland thread\<close>

text \<open>What the Wayland thread does with the mapper, as long as nothing throws.\<close>

datatype mir_event = Resource nat | Client nat | Session session_event

fun handle_event :: "(nat \<Rightarrow> string) \<Rightarrow> nat \<Rightarrow> mir_event \<Rightarrow> resource_mapper \<Rightarrow> resource_mapper option" where
  "handle_event cls w (Resource r) rm = Some (resource_created cls r rm)"
| "handle_event cls w (Client c) rm = client_created w c rm"
| "handle_event cls w (Session e) rm =
     (case session_listener w e rm of Some (Inr _, rm) \<Rightarrow> Some rm | _ \<Rightarrow> None)"

fun wayland_run :: "(nat \<Rightarrow> string) \<Rightarrow> nat \<Rightarrow> mir_event list \<Rightarrow> resource_mapper \<Rightarrow> resource_mapper option" where
  "wayland_run cls w [] rm = Some rm"
| "wayland_run cls w (e # es) rm = Option.bind (handle_event cls w e rm) (wayland_run cls w es)"

lemma wayland_run_append:
  "wayland_run cls w (es @ fs) rm = Option.bind (wayland_run cls w es rm) (wayland_run cls w fs)"
  by (induction es arbitrary: rm) (auto split: bind_splits)

section \<open>Lemmas\<close>

definition quiet :: "nat \<Rightarrow> resource_mapper \<Rightarrow> bool" where
  "quiet t rm \<longleftrightarrow> lock_owner (fst rm) = None \<and> phase_of (fst rm) t = Outside"

lemma quiet_outside: "quiet t rm \<longleftrightarrow> outside t (fst rm)"
  by (simp add: quiet_def outside_def)

text \<open>A method that finds the lock free is a critical section of the mutex.\<close>

lemma locked_quiet:
  assumes "quiet t rm"
  shows "locked t body rm =
    (case body (guarded (fst rm)) (snd rm) of (r, g, l) \<Rightarrow> Some (r, (fst rm)\<lparr>guarded := g\<rparr>, l))"
  using wm.lock_free [of t "fst rm"] assms
  by (auto simp: quiet_outside locked_def put_guarded_def split: prod.split)

text \<open>While a thread holds a guard, a method called by any other thread waits.\<close>

lemma locked_held: "guarding u (fst rm) \<Longrightarrow> locked t body rm = None"
  by (simp add: locked_def wm.lock_held)

text \<open>The effect of the events on the maps and listeners, without the lock.\<close>

fun session_effect ::
    "nat \<Rightarrow> session_event \<Rightarrow> mapper_state \<Rightarrow> mapper_listeners \<Rightarrow> unit result \<times> mapper_state \<times> mapper_listeners" where
  "session_effect w (Surface_created surface stream) st ls = surface_created w surface stream st ls"
| "session_effect w (Buffer_stream_created stream) st ls = buffer_stream_created w stream st ls"
| "session_effect w (Buffer_stream_destroyed stream) st ls = buffer_stream_destroyed stream st ls"
| "session_effect w _ st ls = (Inr (), st, ls)"

lemma session_listener_quiet:
  assumes "quiet w rm"
  shows "session_listener w e rm =
    (case session_effect w e (guarded (fst rm)) (snd rm) of (r, g, l) \<Rightarrow> Some (r, (fst rm)\<lparr>guarded := g\<rparr>, l))"
  by (cases e) (simp_all add: locked_quiet [OF assms])

fun event_effect ::
    "(nat \<Rightarrow> string) \<Rightarrow> nat \<Rightarrow> mir_event \<Rightarrow> mapper_state \<times> mapper_listeners \<Rightarrow> (mapper_state \<times> mapper_listeners) option" where
  "event_effect cls w (Resource r) (st, ls) =
     Some (st, if is_surface (cls r) then ls\<lparr>last_wl_surface := Some r\<rparr>
               else if is_window (cls r) then ls\<lparr>last_wl_window := Some r\<rparr> else ls)"
| "event_effect cls w (Client c) (st, ls) =
     (case client_created_locked c st ls of (_, st, ls) \<Rightarrow>
        Some (st, ls\<lparr>resource_listeners_added := resource_listeners_added ls @ [c]\<rparr>))"
| "event_effect cls w (Session e) (st, ls) =
     (case session_effect w e st ls of (Inl _, _) \<Rightarrow> None | (Inr _, st, ls) \<Rightarrow> Some (st, ls))"

definition mapper_view :: "resource_mapper \<Rightarrow> mapper_state \<times> mapper_listeners" where
  "mapper_view rm = (guarded (fst rm), snd rm)"

lemma quiet_guarded [simp]: "quiet t (m\<lparr>guarded := g\<rparr>, l) \<longleftrightarrow> quiet t (m, l')"
  by (simp add: quiet_def)

lemma quiet_notify [simp]: "quiet t (m, l) \<Longrightarrow> quiet t (notify_all m, l')"
  by (simp add: quiet_def notify_all_def)

lemma handle_event_quiet:
  assumes "quiet w rm" and "handle_event cls w e rm = Some rm'"
  shows "quiet w rm' \<and> event_effect cls w e (mapper_view rm) = Some (mapper_view rm')"
proof (cases e)
  case (Resource r)
  with assms show ?thesis by (auto simp: resource_created_def mapper_view_def quiet_def)
next
  case (Client c)
  obtain m l where rm: "rm = (m, l)" by (cases rm)
  have "rm' = (notify_all (m\<lparr>guarded := fst (snd (client_created_locked c (guarded m) l))\<rparr>),
      l\<lparr>resource_listeners_added := resource_listeners_added l @ [c]\<rparr>)"
    using assms Client by (simp add: rm client_created_def client_created_locked_def locked_quiet)
  then show ?thesis
    using assms(1) Client by (simp add: rm mapper_view_def client_created_locked_def notify_all_def quiet_def)
next
  case (Session ev)
  obtain m l where rm: "rm = (m, l)" by (cases rm)
  obtain r g l' where eff: "session_effect w ev (guarded m) l = (r, g, l')" by (metis prod_cases3)
  show ?thesis
    using assms Session eff by (cases r) (auto simp: rm session_listener_quiet mapper_view_def quiet_def)
qed

text \<open>A property that every admitted event keeps holds after a run of such events.\<close>

lemma wayland_run_invariant:
  assumes "\<And>e v v'. e \<in> set es \<Longrightarrow> P v \<Longrightarrow> event_effect cls w e v = Some v' \<Longrightarrow> P v'"
    and "quiet w rm" and "P (mapper_view rm)" and "wayland_run cls w es rm = Some rm'"
  shows "quiet w rm' \<and> P (mapper_view rm')"
  using assms
proof (induction es arbitrary: rm)
  case (Cons e es)
  then obtain rm1 where 1: "handle_event cls w e rm = Some rm1" "wayland_run cls w es rm1 = Some rm'"
    by (auto split: bind_splits)
  from handle_event_quiet [OF Cons.prems(2) 1(1)] have q: "quiet w rm1"
    and "event_effect cls w e (mapper_view rm) = Some (mapper_view rm1)" by auto
  then have "P (mapper_view rm1)" using Cons.prems(1) [of e "mapper_view rm" "mapper_view rm1"] Cons.prems(3) by simp
  from Cons.IH [OF _ q this 1(2)] show ?case using Cons.prems(1) by (meson list.set_intros(2))
qed simp

text \<open>
  What is known of a \<^verbatim>\<open>wl_surface\<close> resource: that it is waiting for its stream, that the stream is
  the only one of the resource, and that the Mir surface is known too.
\<close>

definition awaits_stream :: "nat \<Rightarrow> nat \<Rightarrow> mapper_state \<times> mapper_listeners \<Rightarrow> bool" where
  "awaits_stream w r v \<longleftrightarrow> wayland_thread (fst v) = Some w \<and> last_wl_surface (snd v) = Some r \<and>
     r \<notin> ran (stream_map (fst v))"

definition has_stream :: "nat \<Rightarrow> nat \<Rightarrow> nat \<Rightarrow> mapper_state \<times> mapper_listeners \<Rightarrow> bool" where
  "has_stream w r s v \<longleftrightarrow> wayland_thread (fst v) = Some w \<and> last_wl_surface (snd v) \<noteq> Some r \<and>
     (\<forall>s'. stream_map (fst v) s' = Some r \<longleftrightarrow> s' = s)"

definition has_surface :: "nat \<Rightarrow> nat \<Rightarrow> nat \<Rightarrow> nat \<Rightarrow> mapper_state \<times> mapper_listeners \<Rightarrow> bool" where
  "has_surface w r s f v \<longleftrightarrow> wayland_thread (fst v) = Some w \<and> last_wl_surface (snd v) \<noteq> Some r \<and>
     (\<forall>s'. stream_map (fst v) s' = Some r \<longrightarrow> s' = s) \<and> surface_map (fst v) r = Some f"

text \<open>How one event changes the three relevant fields, by cases.\<close>

lemma event_effect_cases:
  assumes "event_effect cls w e (st, ls) = Some (st', ls')" and "wayland_thread st = Some w"
  obtains
    (res) r where "e = Resource r" "st' = st" "is_surface (cls r)" "last_wl_surface ls' = Some r"
  | (stream) s r where "e = Session (Buffer_stream_created s)" "last_wl_surface ls = Some r"
      "st' = st\<lparr>stream_map := (stream_map st)(s \<mapsto> r)\<rparr>" "last_wl_surface ls' = nullptr"
  | (gone) s where "e = Session (Buffer_stream_destroyed s)"
      "st' = st\<lparr>stream_map := (stream_map st)(s := None)\<rparr>" "last_wl_surface ls' = last_wl_surface ls"
  | (surface) f s r where "e = Session (Surface_created f s)" "stream_map st s = Some r"
      "st' = st\<lparr>surface_map := (surface_map st)(r \<mapsto> f)\<rparr>" "last_wl_surface ls' = last_wl_surface ls"
  | (other) "wayland_thread st' = wayland_thread st" "surface_map st' = surface_map st"
      "stream_map st' = stream_map st" "last_wl_surface ls' = last_wl_surface ls"
proof (cases e)
  case (Resource r)
  show ?thesis
  proof (cases "is_surface (cls r)")
    case True
    with assms(1) Resource show ?thesis by (intro res [of r]) auto
  next
    case False
    with assms(1) Resource show ?thesis by (intro other) (auto split: if_splits)
  qed
next
  case (Client c)
  with assms(1) show ?thesis by (intro other) (auto simp: client_created_locked_def)
next
  case (Session ev)
  note eff = assms(1) [unfolded Session event_effect.simps]
  show ?thesis
  proof (cases ev)
    case (Surface_created f s)
    with eff assms(2) obtain r where "stream_map st s = Some r" "st' = st\<lparr>surface_map := (surface_map st)(r \<mapsto> f)\<rparr>" "ls' = ls"
      by (auto simp: surface_created_def split: if_splits option.splits)
    with Session Surface_created show ?thesis by (intro surface) auto
  next
    case (Buffer_stream_created s)
    with eff assms(2) obtain r where "last_wl_surface ls = Some r" "st' = st\<lparr>stream_map := (stream_map st)(s \<mapsto> r)\<rparr>"
        "last_wl_surface ls' = nullptr"
      by (auto simp: buffer_stream_created_def split: if_splits option.splits)
    with Session Buffer_stream_created show ?thesis by (intro stream) auto
  next
    case (Buffer_stream_destroyed s)
    with eff Session show ?thesis by (intro gone) (auto simp: buffer_stream_destroyed_def)
  qed (use eff in \<open>auto intro!: other\<close>)
qed

definition no_stream_for :: "(nat \<Rightarrow> string) \<Rightarrow> mir_event \<Rightarrow> bool" where
  "no_stream_for cls e =
     (case e of
        Resource r \<Rightarrow> \<not> is_surface (cls r)
      | Session (Buffer_stream_created s) \<Rightarrow> False
      | _ \<Rightarrow> True)"

definition keeps_stream :: "nat \<Rightarrow> nat \<Rightarrow> mir_event \<Rightarrow> bool" where
  "keeps_stream r s e \<longleftrightarrow>
     e \<noteq> Resource r \<and> e \<noteq> Session (Buffer_stream_created s) \<and> e \<noteq> Session (Buffer_stream_destroyed s)"

definition keeps_surface :: "nat \<Rightarrow> nat \<Rightarrow> mir_event \<Rightarrow> bool" where
  "keeps_surface r s e = (case e of Resource r' \<Rightarrow> r' \<noteq> r | Session (Surface_created f s') \<Rightarrow> s' \<noteq> s | _ \<Rightarrow> True)"

lemma awaits_stream_keeps:
  assumes "no_stream_for cls e" and "awaits_stream w r v" and "event_effect cls w e v = Some v'"
  shows "awaits_stream w r v'"
proof -
  obtain st ls st' ls' where v: "v = (st, ls)" "v' = (st', ls')" by fastforce
  have "wayland_thread st = Some w" using assms(2) v by (simp add: awaits_stream_def)
  from assms(3) [unfolded v] this show ?thesis
    by (cases rule: event_effect_cases)
      (use assms(1,2) v in \<open>auto simp: awaits_stream_def no_stream_for_def ran_def split: if_splits\<close>)
qed

lemma has_stream_keeps:
  assumes "keeps_stream r s e" and "has_stream w r s v" and "event_effect cls w e v = Some v'"
  shows "has_stream w r s v'"
proof -
  obtain st ls st' ls' where v: "v = (st, ls)" "v' = (st', ls')" by fastforce
  have "wayland_thread st = Some w" using assms(2) v by (simp add: has_stream_def)
  from assms(3) [unfolded v] this show ?thesis
    by (cases rule: event_effect_cases)
      (use assms(1,2) v in \<open>auto simp: has_stream_def keeps_stream_def split: if_splits\<close>)
qed

lemma has_surface_keeps:
  assumes "keeps_surface r s e" and "has_surface w r s f v" and "event_effect cls w e v = Some v'"
  shows "has_surface w r s f v'"
proof -
  obtain st ls st' ls' where v: "v = (st, ls)" "v' = (st', ls')" by fastforce
  have "wayland_thread st = Some w" using assms(2) v by (simp add: has_surface_def)
  from assms(3) [unfolded v] this show ?thesis
    by (cases rule: event_effect_cases)
      (use assms(1,2) v in \<open>auto simp: has_surface_def keeps_surface_def split: if_splits\<close>)
qed

lemma wayland_runE:
  assumes "wayland_run cls w (es @ fs) rm = Some rm''"
  obtains rm' where "wayland_run cls w es rm = Some rm'" and "wayland_run cls w fs rm' = Some rm''"
  using assms by (auto simp: wayland_run_append split: bind_splits)

text \<open>Events that keep \<open>P\<close>, and then one event that leads from \<open>P\<close> to \<open>Q\<close>.\<close>

lemma wayland_run_phase:
  assumes "quiet w rm" and "P (mapper_view rm)" and "wayland_run cls w (es @ e # fs) rm = Some rm''"
    and "\<And>e v v'. e \<in> set es \<Longrightarrow> P v \<Longrightarrow> event_effect cls w e v = Some v' \<Longrightarrow> P v'"
    and "\<And>v v'. P v \<Longrightarrow> event_effect cls w e v = Some v' \<Longrightarrow> Q v'"
  obtains rm' where "quiet w rm'" and "Q (mapper_view rm')" and "wayland_run cls w fs rm' = Some rm''"
proof -
  obtain rm1 where 1: "wayland_run cls w es rm = Some rm1" and 2: "wayland_run cls w (e # fs) rm1 = Some rm''"
    using wayland_runE [OF assms(3)] .
  have q: "quiet w rm1" and p: "P (mapper_view rm1)"
    using wayland_run_invariant [where P = P, OF assms(4) assms(1,2) 1] by auto
  obtain rm2 where 3: "handle_event cls w e rm1 = Some rm2" and 4: "wayland_run cls w fs rm2 = Some rm''"
    using 2 by (auto split: bind_splits)
  from handle_event_quiet [OF q 3] assms(5) [OF p] 4 show ?thesis by (intro that [of rm2]) auto
qed

lemma stream_transition:
  "awaits_stream w r v \<Longrightarrow> event_effect cls w (Session (Buffer_stream_created s)) v = Some v' \<Longrightarrow> has_stream w r s v'"
  by (cases v) (auto simp: awaits_stream_def has_stream_def buffer_stream_created_def ran_def split: if_splits)

lemma surface_transition:
  assumes "has_stream w r s v" and "event_effect cls w (Session (Surface_created f s)) v = Some v'"
  shows "has_surface w r s f v'"
proof -
  obtain st ls st' ls' where v: "v = (st, ls)" "v' = (st', ls')" by fastforce
  have "stream_map st s = Some r" "wayland_thread st = Some w" using assms(1) v by (simp_all add: has_stream_def)
  then have "st' = st\<lparr>surface_map := (surface_map st)(r \<mapsto> f)\<rparr>" and "ls' = ls"
    using assms(2) v by (auto simp: surface_created_def split: if_splits)
  with assms(1) v show ?thesis by (simp add: has_stream_def has_surface_def)
qed

text \<open>The surface of a resource is found after its creation, its stream's and its own.\<close>

lemma surface_is_mapped:
  assumes q: "quiet w rm" and wt: "wayland_thread (guarded (fst rm)) = Some w"
    and fresh: "r \<notin> ran (stream_map (guarded (fst rm)))" and cls: "cls r = ''wl_surface''"
    and run: "wayland_run cls w (Resource r # es1 @ Session (Buffer_stream_created s) # es2 @
      Session (Surface_created f s) # es3) rm = Some rm'"
    and es1: "\<forall>e \<in> set es1. no_stream_for cls e" and es2: "\<forall>e \<in> set es2. keeps_stream r s e"
    and es3: "\<forall>e \<in> set es3. keeps_surface r s e"
  shows "quiet w rm' \<and> surface_map (guarded (fst rm')) r = Some f"
proof -
  let ?rm1 = "resource_created cls r rm"
  have q1: "quiet w ?rm1" and a1: "awaits_stream w r (mapper_view ?rm1)"
    using q wt fresh cls by (simp_all add: resource_created_def quiet_def awaits_stream_def mapper_view_def is_surface_def)
  have r1: "wayland_run cls w (es1 @ Session (Buffer_stream_created s) # es2 @ Session (Surface_created f s) # es3) ?rm1 = Some rm'"
    using run by simp
  obtain rm2 where q2: "quiet w rm2" and a2: "has_stream w r s (mapper_view rm2)"
    and r2: "wayland_run cls w (es2 @ Session (Surface_created f s) # es3) rm2 = Some rm'"
    using wayland_run_phase [where P = "awaits_stream w r" and Q = "has_stream w r s", OF q1 a1 r1]
      awaits_stream_keeps stream_transition es1 by blast
  obtain rm3 where q3: "quiet w rm3" and a3: "has_surface w r s f (mapper_view rm3)"
    and r3: "wayland_run cls w es3 rm3 = Some rm'"
    using wayland_run_phase [where P = "has_stream w r s" and Q = "has_surface w r s f", OF q2 a2 r2]
      has_stream_keeps surface_transition es2 by blast
  have "quiet w rm' \<and> has_surface w r s f (mapper_view rm')"
    using wayland_run_invariant [where P = "has_surface w r s f", OF _ q3 a3 r3] has_surface_keeps es3 by blast
  then show ?thesis by (simp add: has_surface_def mapper_view_def)
qed

text \<open>Associating a socket with the announced client, in the three orders of events.\<close>

lemma associate_announced:
  assumes "quiet t rm" and "latest_client (guarded (fst rm)) = Some c"
  shows "associate_client_socket t fd meanwhile rm =
    Some (Inr (), (fst rm)\<lparr>guarded := (guarded (fst rm))\<lparr>client_session_map := (client_session_map (guarded (fst rm)))(fd \<mapsto> c),
      latest_client := None\<rparr>\<rparr>, snd rm)"
  using assms
  by (simp add: associate_client_socket_def wait_for_enter_def acquire_def quiet_def has_latest_client_def
      store_client_def guard_update_def guard_destructor_def release_def set_phase_def fun_upd_idem)

definition asleep :: "nat \<Rightarrow> resource_mapper \<Rightarrow> resource_mapper" where
  "asleep t rm = (set_phase t (Sleeping has_latest_client) (fst rm), snd rm)"

lemma asleep_simps [simp]:
  "snd (asleep t rm) = snd rm" "guarded (fst (asleep t rm)) = guarded (fst rm)"
  "lock_owner (fst (asleep t rm)) = lock_owner (fst rm)"
  "phase_of (fst (asleep t rm)) t = Sleeping has_latest_client"
  "quiet w rm \<Longrightarrow> w \<noteq> t \<Longrightarrow> quiet w (asleep t rm)"
  by (simp_all add: asleep_def quiet_def)

lemma associate_waits:
  assumes "quiet t rm" and "latest_client (guarded (fst rm)) = None"
  shows "associate_client_socket t fd meanwhile rm =
    (case meanwhile (asleep t rm) of (m, ls) \<Rightarrow>
       (case wait_for_resume t m of
          None \<Rightarrow> None
        | Some (Inl e, m) \<Rightarrow> Some (Inl e, m, ls)
        | Some (Inr _, m) \<Rightarrow> (if lock_owner m = Some t then Some (Inr (), store_client t fd m, ls) else None)))"
proof -
  have "wait_for_enter t has_latest_client (fst rm) = Some (fst (asleep t rm))"
    using assms by (simp add: wait_for_enter_def acquire_def quiet_def has_latest_client_def release_def
        asleep_def set_phase_def)
  moreover have "lock_owner (fst (asleep t rm)) \<noteq> Some t" using assms(1) by (simp add: quiet_def)
  ultimately show ?thesis by (simp add: associate_client_socket_def asleep_def)
qed

lemma client_created_quiet:
  assumes "quiet w rm"
  shows "client_created w c rm =
    Some (notify_all ((fst rm)\<lparr>guarded := fst (snd (client_created_locked c (guarded (fst rm)) (snd rm)))\<rparr>),
          (snd rm)\<lparr>resource_listeners_added := resource_listeners_added (snd rm) @ [c]\<rparr>)"
  by (simp add: client_created_def locked_quiet [OF assms] client_created_locked_def)

lemma associate_after_announcement:
  assumes "quiet t rm" and "quiet w rm" and "w \<noteq> t" and "latest_client (guarded (fst rm)) = None"
  shows "\<exists>rm'. associate_client_socket t fd (\<lambda>rm. the (client_created w c rm)) rm = Some (Inr (), rm') \<and>
    client_session_map (guarded (fst rm')) = (client_session_map (guarded (fst rm)))(fd \<mapsto> c) \<and>
    latest_client (guarded (fst rm')) = None \<and> quiet t rm'"
proof -
  have "quiet w (asleep t rm)" using assms(2,3) by simp
  from client_created_quiet [OF this] assms(1) show ?thesis
    by (simp add: associate_waits [OF assms(1,4)] wait_for_resume_def
        notify_all_def acquire_def client_created_locked_def has_latest_client_def store_client_def
        guard_update_def guard_destructor_def release_def quiet_def)
qed

lemma associate_times_out:
  assumes "quiet t rm" and "latest_client (guarded (fst rm)) = None"
  shows "\<exists>rm'. associate_client_socket t fd (\<lambda>rm. (the (wait_for_wake t True (fst rm)), snd rm)) rm =
      Some (Inl (Runtime_error ''Notification timeout''), rm') \<and> mapper_view rm' = mapper_view rm \<and> quiet t rm'"
  using assms
  by (simp add: associate_waits [OF assms] wait_for_wake_def wait_for_resume_def acquire_def
      has_latest_client_def release_def quiet_def mapper_view_def)

section \<open>Properties\<close>

text \<open>
  Claim C20. A request to position a window reaches the right Mir surface. Let the Wayland thread
  see a new \<^verbatim>\<open>wl_surface\<close>, then its buffer stream before any other \<^verbatim>\<open>wl_surface\<close> or stream, then the
  Mir surface that shows the stream, among arbitrary other events. If the socket of the client was
  associated with the client, \<^verbatim>\<open>wlcs_server_position_window_absolute\<close> for that \<^verbatim>\<open>wl_surface\<close> moves
  exactly that Mir surface to the given position, or aborts when it is gone, and changes no map.
\<close>

theorem position_window_moves_the_right_surface:
  assumes "quiet w rm" and "wayland_thread (guarded (fst rm)) = Some w"
    and "r \<notin> ran (stream_map (guarded (fst rm)))" and "cls r = ''wl_surface''"
    and "wayland_run cls w (Resource r # es1 @ Session (Buffer_stream_created s) # es2 @
      Session (Surface_created f s) # es3) rm = Some rm'"
    and "\<forall>e \<in> set es1. no_stream_for cls e" and "\<forall>e \<in> set es2. keeps_stream r s e"
    and "\<forall>e \<in> set es3. keeps_surface r s e"
    and "quiet t rm'" and "client_session_map (guarded (fst rm')) fd = Some c" and "get_object c obj_id = Some r"
  shows "wlcs_server_position_window_absolute cls get_object alive t fd obj_id x y rm' =
    Some (if alive f then Moved f x y else Aborted, rm')"
proof -
  have "surface_map (guarded (fst rm')) r = Some f"
    using surface_is_mapped [OF assms(1-8)] by simp
  then show ?thesis
    using assms(4,10,11)
    by (simp add: wlcs_server_position_window_absolute_def client_for_fd_def surface_for_resource_def
        locked_quiet [OF assms(9)])
qed

text \<open>A mapper whose Wayland thread is 1 and whose socket 5 belongs to client 3.\<close>

definition example_state :: mapper_state where
  "example_state = \<lparr>wayland_thread = Some 1, surface_map = Map.empty, stream_map = Map.empty, latest_client = None,
     client_session_map = [5 \<mapsto> 3], resource_listener = [3]\<rparr>"

definition example_listeners :: mapper_listeners where
  "example_listeners = \<lparr>last_wl_surface = nullptr, last_wl_window = nullptr, client_listener_added = True,
     resource_listeners_added = [3]\<rparr>"

definition example_class :: "nat \<Rightarrow> string" where
  "example_class r = (if r = 10 then ''wl_surface'' else ''wl_shell_surface'')"

lemma quiet_Mutex [simp]: "quiet t (Mutex st, ls)"
  by (simp add: quiet_def Mutex_def)

lemma example_run:
  "wayland_run example_class 1
     (Resource 10 # [Resource 11] @ Session (Buffer_stream_created 30) # [] @ Session (Surface_created 20 30) # [])
     (Mutex example_state, example_listeners) =
   Some (Mutex (example_state\<lparr>stream_map := [30 \<mapsto> 10], surface_map := [10 \<mapsto> 20]\<rparr>),
         example_listeners\<lparr>last_wl_window := Some 11\<rparr>)"
  by (simp add: resource_created_def example_class_def is_surface_def is_window_def locked_quiet
      quiet_def Mutex_def buffer_stream_created_def surface_created_def example_state_def example_listeners_def)

theorem position_window_moves_the_right_surface_witness:
  "wlcs_server_position_window_absolute example_class (\<lambda>c i. Some 10) (\<lambda>_. True) 0 5 7 100 200
     (Mutex (example_state\<lparr>stream_map := [30 \<mapsto> 10], surface_map := [10 \<mapsto> 20]\<rparr>),
      example_listeners\<lparr>last_wl_window := Some 11\<rparr>) =
   Some (Moved 20 100 200, Mutex (example_state\<lparr>stream_map := [30 \<mapsto> 10], surface_map := [10 \<mapsto> 20]\<rparr>),
         example_listeners\<lparr>last_wl_window := Some 11\<rparr>)"
  by (subst position_window_moves_the_right_surface
        [where w = 1 and rm = "(Mutex example_state, example_listeners)" and r = 10 and s = 30 and f = 20
          and c = 3, OF _ _ _ _ example_run])
    (simp_all add: example_class_def Mutex_def example_state_def no_stream_for_def is_surface_def quiet_def)

text \<open>
  A client socket is associated with the client that connected through it: whether the
  Wayland thread announces the client before the test waits for it or wakes the waiting test, the
  socket that \<^verbatim>\<open>wlcs_server_create_client_socket\<close> returns is mapped to that client and the
  announcement is consumed, so that it serves one socket only; and when no client is announced in
  time, the result is -1 and the maps are unchanged.
\<close>

theorem client_sockets_are_associated:
  assumes "quiet t rm" and "quiet w rm" and "w \<noteq> t"
  shows "case latest_client (guarded (fst rm)) of
      Some c \<Rightarrow>
        (\<exists>rm'. wlcs_server_create_client_socket t (Inr fd) dup_fd meanwhile rm = Some (dup_fd fd, rm') \<and>
           client_session_map (guarded (fst rm')) = (client_session_map (guarded (fst rm)))(dup_fd fd \<mapsto> c) \<and>
           latest_client (guarded (fst rm')) = None \<and> quiet t rm')
    | None \<Rightarrow>
        (\<exists>rm'. wlcs_server_create_client_socket t (Inr fd) dup_fd (\<lambda>rm. the (client_created w c rm)) rm = Some (dup_fd fd, rm') \<and>
           client_session_map (guarded (fst rm')) = (client_session_map (guarded (fst rm)))(dup_fd fd \<mapsto> c) \<and>
           latest_client (guarded (fst rm')) = None \<and> quiet t rm') \<and>
        (\<exists>rm'. wlcs_server_create_client_socket t (Inr fd) dup_fd
             (\<lambda>rm. (the (wait_for_wake t True (fst rm)), snd rm)) rm = Some (-1, rm') \<and>
           mapper_view rm' = mapper_view rm \<and> quiet t rm')"
proof (cases "latest_client (guarded (fst rm))")
  case None
  with associate_after_announcement [OF assms None, of "dup_fd fd" c]
    associate_times_out [OF assms(1) None, of "dup_fd fd"]
  show ?thesis by (auto simp: wlcs_server_create_client_socket_def)
next
  case (Some c)
  with associate_announced [OF assms(1) Some] assms(1) show ?thesis
    by (simp add: wlcs_server_create_client_socket_def quiet_def)
qed

theorem client_sockets_are_associated_witness:
  "(\<exists>rm'. wlcs_server_create_client_socket 0 (Inr 4) (\<lambda>_. 6) (\<lambda>rm. the (client_created 1 9 rm))
      (Mutex example_state, example_listeners) = Some (6, rm') \<and>
     client_session_map (guarded (fst rm')) 6 = Some 9)"
  using client_sockets_are_associated
    [where t = 0 and w = 1 and rm = "(Mutex example_state, example_listeners)" and fd = 4 and dup_fd = "\<lambda>_. 6"
      and c = 9]
  by (auto simp: Mutex_def example_state_def quiet_def)

end
