(* ===== verification/Mir_Integration.thy ===== *)
theory Mir_Integration
  imports Complex_Main Mir_Executor Mir_Resource_Mapper "HOL-Library.Signed_Division"
begin

text \<open>
  The rest of \<^verbatim>\<open>example/mir_integration.cpp\<close>: \<^verbatim>\<open>InputEventListener\<close>, which tells a test when an
  event it emitted has been dispatched, the fake pointer and touch screen, and the creation and
  start of the server. Mir is not part of the repository: the calls that go to it are recorded in
  order, and what it does while a function of the integration waits is a parameter.
\<close>

section \<open>State\<close>

datatype touch_action = Tap | Move | Release

text \<open>The events the integration synthesises.\<close>

datatype synthesized =
    Pointer_motion int int
  | Pointer_button_down int
  | Pointer_button_up int
  | Touch_event touch_action int int

text \<open>
  \<^verbatim>\<open>InputEventListener\<close>: the expected events with their signals, and the signals that were raised.
  Signals are numbered in the order in which they are made.
\<close>

record event_listener =
  expected_events :: "int \<rightharpoonup> nat"
  raised :: "nat list"
  next_signal :: nat

text \<open>\<^verbatim>\<open>DeviceObserver\<close> with its signal \<^verbatim>\<open>done\<close>.\<close>

record device_observer =
  observed_uid :: string
  seen_device :: bool
  done_raised :: bool

datatype capability = Cap_pointer | Cap_multitouch

text \<open>The calls to Mir.\<close>

datatype mir_call =
    Add_to_environment string string
  | Override_compositor_factory
  | Override_session_listener
  | Set_command_line "string list"
  | Add_init_callback
  | Wrap_cursor_listener
  | Register_interest
  | Start_server
  | Stop_server
  | Add_observer nat
  | Remove_observer nat
  | Add_fake_input_device string string capability
  | Emit_event nat synthesized int
  | Cursor_moved_to rat rat

text \<open>Work for the executor: removing an observer.\<close>

datatype mir_job = Remove_observer_job nat

record mir_runner =
  runner_mapper :: resource_mapper
  runner_listener :: event_listener
  runner_loop :: "mir_job loop_world"
  runner_executor :: "nat option"
  cursor_x :: rat
  cursor_y :: rat
  started :: bool
  observers :: "nat \<rightharpoonup> device_observer"
  mir_calls :: "mir_call list"
  failures :: "string list"

definition mir_call :: "mir_call \<Rightarrow> mir_runner \<Rightarrow> mir_runner" where
  "mir_call c runner = runner\<lparr>mir_calls := mir_calls runner @ [c]\<rparr>"

section \<open>\<^verbatim>\<open>InputEventListener\<close>\<close>

definition InputEventListener :: event_listener where
  "InputEventListener = \<lparr>expected_events = Map.empty, raised = [], next_signal = 0\<rparr>"

text \<open>\<^verbatim>\<open>insert\<close> does not replace an entry.\<close>

definition expect_event_with_time :: "int \<Rightarrow> event_listener \<Rightarrow> nat \<times> event_listener" where
  "expect_event_with_time event_time l =
     (let done_signal = next_signal l in
      (done_signal,
       l\<lparr>expected_events := (case expected_events l event_time of
                                None \<Rightarrow> (expected_events l)(event_time \<mapsto> done_signal)
                              | Some _ \<Rightarrow> expected_events l),
         next_signal := next_signal l + 1\<rparr>))"

definition seat_dispatch_event :: "int \<Rightarrow> event_listener \<Rightarrow> event_listener" where
  "seat_dispatch_event event_time l =
     (case expected_events l event_time of
        None \<Rightarrow> l
      | Some s \<Rightarrow> l\<lparr>raised := raised l @ [s], expected_events := (expected_events l)(event_time := None)\<rparr>)"

definition seat_set_cursor_position :: "rat \<Rightarrow> rat \<Rightarrow> mir_runner \<Rightarrow> mir_runner" where
  "seat_set_cursor_position x y runner = runner\<lparr>cursor_x := x, cursor_y := y\<rparr>"

text \<open>The observations of the seat; the ones that are not listed above have empty bodies.\<close>

datatype seat_observation =
    Seat_add_device nat | Seat_remove_device nat
  | Seat_dispatch_event int
  | Seat_set_key_state nat "u32 list" | Seat_set_pointer_state nat u32
  | Seat_set_cursor_position rat rat
  | Seat_set_confinement_region_called | Seat_reset_confinement_regions

fun seat_observer :: "seat_observation \<Rightarrow> mir_runner \<Rightarrow> mir_runner" where
  "seat_observer (Seat_add_device d) runner = runner"
| "seat_observer (Seat_remove_device d) runner = runner"
| "seat_observer (Seat_dispatch_event t) runner =
     runner\<lparr>runner_listener := seat_dispatch_event t (runner_listener runner)\<rparr>"
| "seat_observer (Seat_set_key_state d scan_codes) runner = runner"
| "seat_observer (Seat_set_pointer_state d buttons) runner = runner"
| "seat_observer (Seat_set_cursor_position x y) runner = seat_set_cursor_position x y runner"
| "seat_observer Seat_set_confinement_region_called runner = runner"
| "seat_observer Seat_reset_confinement_regions runner = runner"

text \<open>
  \<^verbatim>\<open>emit_mir_event\<close> at the time \<open>now\<close>: a signal that is not raised while it waits is a test failure,
  and nothing more.
\<close>

definition emit_mir_event ::
    "int \<Rightarrow> (mir_runner \<Rightarrow> mir_runner) \<Rightarrow> nat \<Rightarrow> synthesized \<Rightarrow> mir_runner \<Rightarrow> mir_runner" where
  "emit_mir_event now meanwhile emitter event runner =
     (let (event_sent, l) = expect_event_with_time now (runner_listener runner);
          runner = mir_call (Emit_event emitter event now) (runner\<lparr>runner_listener := l\<rparr>);
          runner = meanwhile runner
      in if event_sent \<in> set (raised (runner_listener runner)) then runner
         else runner\<lparr>failures := failures runner @ [''fake event failed to go through'']\<rparr>)"

section \<open>The fake pointer\<close>

text \<open>
  The conversions of \<^verbatim>\<open>wl_fixed_t\<close> of libwayland and the subtraction of doubles are parameters; the
  values of doubles are rational numbers.
\<close>

record fixed_ops =
  fixed_to_int :: "int \<Rightarrow> int"
  fixed_to_double :: "int \<Rightarrow> rat"
  fixed_from_double :: "rat \<Rightarrow> int"
  double_minus :: "rat \<Rightarrow> rat \<Rightarrow> rat"

definition wlcs_pointer_move_relative ::
    "fixed_ops \<Rightarrow> int \<Rightarrow> (mir_runner \<Rightarrow> mir_runner) \<Rightarrow> nat \<Rightarrow> int \<Rightarrow> int \<Rightarrow> mir_runner \<Rightarrow> mir_runner" where
  "wlcs_pointer_move_relative fx now meanwhile device x y =
     emit_mir_event now meanwhile device (Pointer_motion (fixed_to_int fx x) (fixed_to_int fx y))"

definition wlcs_pointer_move_absolute ::
    "fixed_ops \<Rightarrow> int \<Rightarrow> (mir_runner \<Rightarrow> mir_runner) \<Rightarrow> nat \<Rightarrow> int \<Rightarrow> int \<Rightarrow> mir_runner \<Rightarrow> mir_runner" where
  "wlcs_pointer_move_absolute fx now meanwhile device x y runner =
     (let rel_x = double_minus fx (fixed_to_double fx x) (cursor_x runner);
          rel_y = double_minus fx (fixed_to_double fx y) (cursor_y runner)
      in wlcs_pointer_move_relative fx now meanwhile device
           (fixed_from_double fx rel_x) (fixed_from_double fx rel_y) runner)"

definition wlcs_pointer_button_down ::
    "int \<Rightarrow> (mir_runner \<Rightarrow> mir_runner) \<Rightarrow> nat \<Rightarrow> int \<Rightarrow> mir_runner \<Rightarrow> mir_runner" where
  "wlcs_pointer_button_down now meanwhile device button =
     emit_mir_event now meanwhile device (Pointer_button_down button)"

definition wlcs_pointer_button_up ::
    "int \<Rightarrow> (mir_runner \<Rightarrow> mir_runner) \<Rightarrow> nat \<Rightarrow> int \<Rightarrow> mir_runner \<Rightarrow> mir_runner" where
  "wlcs_pointer_button_up now meanwhile device button =
     emit_mir_event now meanwhile device (Pointer_button_up button)"

section \<open>The fake touch screen\<close>

record fake_touch =
  touch_device :: nat
  last_x :: int
  last_y :: int

definition wlcs_touch_down ::
    "int \<Rightarrow> (mir_runner \<Rightarrow> mir_runner) \<Rightarrow> int \<Rightarrow> int \<Rightarrow> fake_touch \<times> mir_runner \<Rightarrow> fake_touch \<times> mir_runner" where
  "wlcs_touch_down now meanwhile x y st =
     (let device = (fst st)\<lparr>last_x := x, last_y := y\<rparr>
      in (device, emit_mir_event now meanwhile (touch_device device) (Touch_event Tap x y) (snd st)))"

definition wlcs_touch_move ::
    "int \<Rightarrow> (mir_runner \<Rightarrow> mir_runner) \<Rightarrow> int \<Rightarrow> int \<Rightarrow> fake_touch \<times> mir_runner \<Rightarrow> fake_touch \<times> mir_runner" where
  "wlcs_touch_move now meanwhile x y st =
     (let device = (fst st)\<lparr>last_x := x, last_y := y\<rparr>
      in (device, emit_mir_event now meanwhile (touch_device device) (Touch_event Move x y) (snd st)))"

definition wlcs_touch_up ::
    "int \<Rightarrow> (mir_runner \<Rightarrow> mir_runner) \<Rightarrow> fake_touch \<times> mir_runner \<Rightarrow> fake_touch \<times> mir_runner" where
  "wlcs_touch_up now meanwhile st =
     (let device = fst st
      in (device, emit_mir_event now meanwhile (touch_device device)
                    (Touch_event Release (last_x device) (last_y device)) (snd st)))"

section \<open>Creating devices\<close>

datatype hub_event = Device_added string | Device_changed string | Device_removed string | Changes_complete

fun observe_device :: "hub_event \<Rightarrow> device_observer \<Rightarrow> device_observer" where
  "observe_device (Device_added uid) o1 =
     (if uid = observed_uid o1 then o1\<lparr>seen_device := True\<rparr> else o1)"
| "observe_device (Device_changed uid) o1 = o1"
| "observe_device (Device_removed uid) o1 = o1"
| "observe_device Changes_complete o1 = (if seen_device o1 then o1\<lparr>done_raised := True\<rparr> else o1)"

text \<open>
  What the two functions that create a device have in common; the observer gets the address \<open>fresh\<close>.
  Whether its signal is raised in time is not looked at.
\<close>

definition create_device ::
    "eventfd_ops \<Rightarrow> string \<Rightarrow> string \<Rightarrow> capability \<Rightarrow> nat \<Rightarrow> (mir_runner \<Rightarrow> mir_runner) \<Rightarrow> (mir_runner, unit) eff" where
  "create_device ev name uid cap fresh meanwhile runner =
     (let runner = runner\<lparr>observers := (observers runner)
            (fresh \<mapsto> \<lparr>observed_uid = uid, seen_device = False, done_raised = False\<rparr>)\<rparr>;
          runner = mir_call (Add_observer fresh) runner;
          runner = mir_call (Add_fake_input_device name uid cap) runner;
          runner = meanwhile runner
      in case Option.bind (runner_executor runner) (executor_at (runner_loop runner)) of
           None \<Rightarrow> (Inl (Undefined_behaviour ''spawn on a null executor''), runner)
         | Some ex \<Rightarrow>
             (case spawn ev (Some (Remove_observer_job fresh)) ex of (r, ex) \<Rightarrow>
                (r, runner\<lparr>runner_loop := (runner_loop runner)
                       \<lparr>executor_at := (executor_at (runner_loop runner))(the (runner_executor runner) \<mapsto> ex)\<rparr>\<rparr>)))"

definition wlcs_server_create_pointer ::
    "eventfd_ops \<Rightarrow> nat \<Rightarrow> nat \<Rightarrow> (mir_runner \<Rightarrow> mir_runner) \<Rightarrow> (mir_runner, nat) eff" where
  "wlcs_server_create_pointer ev device fresh meanwhile =
     bindE (create_device ev ''mouse'' ''mouse-uid'' Cap_pointer fresh meanwhile) (\<lambda>_. retE device)"

definition wlcs_server_create_touch ::
    "eventfd_ops \<Rightarrow> nat \<Rightarrow> nat \<Rightarrow> (mir_runner \<Rightarrow> mir_runner) \<Rightarrow> (mir_runner, fake_touch) eff" where
  "wlcs_server_create_touch ev device fresh meanwhile =
     bindE (create_device ev ''touch'' ''touch-uid'' Cap_multitouch fresh meanwhile)
       (\<lambda>_. retE \<lparr>touch_device = device, last_x = 0, last_y = 0\<rparr>)"

text \<open>The work that \<open>create_device\<close> spawns, for the executor.\<close>

definition remove_observer :: "nat \<Rightarrow> mir_runner \<Rightarrow> mir_runner" where
  "remove_observer i runner = mir_call (Remove_observer i) (runner\<lparr>observers := (observers runner)(i := None)\<rparr>)"

fun mir_job_body :: "mir_job \<Rightarrow> mir_runner \<Rightarrow> (mir_job, mir_runner) action list" where
  "mir_job_body (Remove_observer_job i) runner = [Act (\<lambda>runner. (Inr (), remove_observer i runner))]"

section \<open>The server\<close>

text \<open>\<open>server_platform\<close> is the path that Mir's test framework gives to a platform library.\<close>

definition wlcs_create_server :: "(string \<Rightarrow> string) \<Rightarrow> string list \<Rightarrow> mir_runner" where
  "wlcs_create_server server_platform args =
     \<lparr>runner_mapper = ResourceMapper, runner_listener = InputEventListener,
      runner_loop = \<lparr>executor_at = Map.empty, destroy_listeners = []\<rparr>, runner_executor = None,
      cursor_x = 0, cursor_y = 0, started = False, observers = Map.empty,
      mir_calls =
        [Add_to_environment ''MIR_SERVER_PLATFORM_GRAPHICS_LIB'' (server_platform ''graphics-dummy.so''),
         Add_to_environment ''MIR_SERVER_PLATFORM_INPUT_LIB'' (server_platform ''input-stub.so''),
         Add_to_environment ''MIR_SERVER_ENABLE_KEY_REPEAT'' ''false'',
         Add_to_environment ''MIR_SERVER_NO_FILE'' [],
         Add_to_environment ''MIR_SERVER_WAYLAND_SOCKET_NAME'' ''wlcs-tests'',
         Add_to_environment ''WAYLAND_DISPLAY'' ''wlcs-tests'',
         Override_compositor_factory, Override_session_listener,
         Set_command_line args, Add_init_callback, Wrap_cursor_listener],
      failures = []\<rparr>"

text \<open>
  The callback that Mir runs on the Wayland thread \<open>w\<close>; \<open>fresh\<close>, \<open>fd\<close> and \<open>err\<close> are the address of a
  new executor and what \<^verbatim>\<open>eventfd\<close> gives. \<open>None\<close>: another thread holds the lock of the mapper.
\<close>

definition init_callback :: "nat \<Rightarrow> nat \<Rightarrow> int \<Rightarrow> int \<Rightarrow> mir_runner \<Rightarrow> (unit result \<times> mir_runner) option" where
  "init_callback w fresh fd err runner =
     (case mapper_init w (runner_mapper runner) of
        None \<Rightarrow> None
      | Some (_, rm) \<Rightarrow>
          (case executor_for_event_loop fresh fd err (runner_loop runner) of
             (Inl e, loop) \<Rightarrow> Some (Inl e, runner\<lparr>runner_mapper := rm, runner_loop := loop\<rparr>)
           | (Inr a, loop) \<Rightarrow>
               Some (Inr (), (mir_call Register_interest
                 (runner\<lparr>runner_mapper := rm, runner_loop := loop, runner_executor := Some a\<rparr>))\<lparr>started := True\<rparr>)))"

definition wlcs_server_start :: "(mir_runner \<Rightarrow> mir_runner) \<Rightarrow> mir_runner \<Rightarrow> mir_runner" where
  "wlcs_server_start meanwhile runner = meanwhile (mir_call Start_server runner)"

definition wlcs_server_stop :: "mir_runner \<Rightarrow> mir_runner" where
  "wlcs_server_stop runner = mir_call Stop_server runner"

text \<open>\<^verbatim>\<open>ListenerWrapper\<close>: the cursor is remembered and the wrapped listener is told.\<close>

definition cursor_moved_to :: "rat \<Rightarrow> rat \<Rightarrow> mir_runner \<Rightarrow> mir_runner" where
  "cursor_moved_to abs_x abs_y runner =
     mir_call (Cursor_moved_to abs_x abs_y) (runner\<lparr>cursor_x := abs_x, cursor_y := abs_y\<rparr>)"

section \<open>Lemmas\<close>

lemma emit_mir_event_calls:
  assumes "\<And>r. mir_calls (meanwhile r) = mir_calls r"
  shows "mir_calls (emit_mir_event now meanwhile d e runner) = mir_calls runner @ [Emit_event d e now]"
  using assms by (simp add: emit_mir_event_def expect_event_with_time_def Let_def mir_call_def)

text \<open>An emitted event that Mir dispatches raises its own signal and no other.\<close>

lemma emit_dispatched:
  assumes "expected_events (runner_listener runner) now = None"
  shows "failures (emit_mir_event now (seat_observer (Seat_dispatch_event now)) d e runner) = failures runner"
    and "expected_events (runner_listener (emit_mir_event now (seat_observer (Seat_dispatch_event now)) d e runner)) =
           expected_events (runner_listener runner)"
  using assms
  by (simp_all add: emit_mir_event_def expect_event_with_time_def seat_dispatch_event_def Let_def mir_call_def fun_upd_idem)

definition signals_ok :: "event_listener \<Rightarrow> bool" where
  "signals_ok l \<longleftrightarrow> (\<forall>s \<in> set (raised l) \<union> ran (expected_events l). s < next_signal l)"

text \<open>Two events of the same time: the second is reported as lost, although it is dispatched.\<close>

lemma emit_same_time_fails:
  assumes "signals_ok (runner_listener runner)" and "expected_events (runner_listener runner) now = Some s"
  shows "failures (emit_mir_event now (seat_observer (Seat_dispatch_event now)) d e runner) =
    failures runner @ [''fake event failed to go through'']"
proof -
  have "s < next_signal (runner_listener runner)" "next_signal (runner_listener runner) \<notin> set (raised (runner_listener runner))"
    using assms by (auto simp: signals_ok_def ran_def)
  with assms(2) show ?thesis
    by (simp add: emit_mir_event_def expect_event_with_time_def seat_dispatch_event_def Let_def mir_call_def)
qed

text \<open>A waiting event that Mir does not dispatch is reported, and stays expected.\<close>

lemma emit_lost:
  assumes "signals_ok (runner_listener runner)" and "expected_events (runner_listener runner) now = None"
  shows "failures (emit_mir_event now (\<lambda>r. r) d e runner) = failures runner @ [''fake event failed to go through'']"
    and "expected_events (runner_listener (emit_mir_event now (\<lambda>r. r) d e runner)) now \<noteq> None"
proof -
  have "next_signal (runner_listener runner) \<notin> set (raised (runner_listener runner))"
    using assms by (auto simp: signals_ok_def)
  with assms(2) show "failures (emit_mir_event now (\<lambda>r. r) d e runner) = failures runner @ [''fake event failed to go through'']"
    and "expected_events (runner_listener (emit_mir_event now (\<lambda>r. r) d e runner)) now \<noteq> None"
    by (simp_all add: emit_mir_event_def expect_event_with_time_def Let_def mir_call_def)
qed

text \<open>The observer's signal is raised by the first completion after its device was added.\<close>

lemma observe_device_seen: "seen_device o1 \<Longrightarrow> seen_device (observe_device e o1)"
  by (cases e) auto

lemma observe_device_uid [simp]: "observed_uid (observe_device e o1) = observed_uid o1"
  by (cases e) auto

lemma observe_device_done: "done_raised o1 \<Longrightarrow> done_raised (fold observe_device es o1)"
proof (induction es arbitrary: o1)
  case (Cons e es)
  then show ?case by (cases e) auto
qed simp

lemma observer_signals_added_device:
  assumes "\<not> seen_device o1" and "\<not> done_raised o1" and "observed_uid o1 = uid"
  shows "done_raised (fold observe_device es o1) \<longleftrightarrow>
    (\<exists>xs ys. es = xs @ Device_added uid # ys \<and> Changes_complete \<in> set ys)"
proof -
  have seen: "done_raised (fold observe_device ys o2) \<longleftrightarrow> Changes_complete \<in> set ys \<or> done_raised o2"
    if "seen_device o2" for ys o2
    using that
  proof (induction ys arbitrary: o2)
    case (Cons e ys)
    then show ?case by (cases e) (auto simp: observe_device_done)
  qed simp
  show ?thesis
    using assms
  proof (induction es arbitrary: o1)
    case (Cons e es)
    show ?case
    proof (cases "e = Device_added uid")
      case True
      with Cons.prems seen [of "observe_device e o1" es] have "done_raised (fold observe_device (e # es) o1) \<longleftrightarrow> Changes_complete \<in> set es"
        by simp
      moreover have "Changes_complete \<in> set es \<longleftrightarrow> (\<exists>xs ys. e # es = xs @ Device_added uid # ys \<and> Changes_complete \<in> set ys)"
        using True by (auto simp: Cons_eq_append_conv)
      ultimately show ?thesis by simp
    next
      case False
      then have "observe_device e o1 = o1" using Cons.prems by (cases e) auto
      with Cons.IH [OF Cons.prems] False show ?thesis by (auto simp: Cons_eq_append_conv)
    qed
  qed simp
qed

text \<open>What the conversions of libwayland document, and that differences of fixed numbers are exact doubles.\<close>

definition fixed_laws :: "fixed_ops \<Rightarrow> bool" where
  "fixed_laws fx \<longleftrightarrow>
     (\<forall>n. fixed_to_int fx n = n sdiv 256) \<and>
     (\<forall>n. fixed_to_double fx n = of_int n / 256) \<and>
     (\<forall>n. \<bar>n\<bar> < 2 ^ 31 \<longrightarrow> fixed_from_double fx (of_int n / 256) = n) \<and>
     (\<forall>m n. \<bar>m\<bar> < 2 ^ 31 \<and> \<bar>n\<bar> < 2 ^ 31 \<longrightarrow> double_minus fx (of_int m / 256) (of_int n / 256) = of_int (m - n) / 256)"

lemma sdiv_256_error: "\<bar>n - 256 * (n sdiv 256)\<bar> < (256 :: int)"
proof -
  have "n sdiv 256 = sgn n * (\<bar>n\<bar> div 256)" by (simp add: signed_divide_int_def)
  moreover have "\<bar>n\<bar> = 256 * (\<bar>n\<bar> div 256) + \<bar>n\<bar> mod 256" "0 \<le> \<bar>n\<bar> mod 256" "\<bar>n\<bar> mod 256 < 256" by auto
  ultimately show ?thesis by (cases "n \<ge> 0"; cases "n = 0") auto
qed

lemma sdiv_256_exact: "256 * k sdiv 256 = (k :: int)"
  by (cases "k \<ge> 0"; cases "k = 0") (simp_all add: signed_divide_int_def sgn_mult abs_mult)

text \<open>One axis of an absolute movement.\<close>

definition axis_motion :: "fixed_ops \<Rightarrow> int \<Rightarrow> rat \<Rightarrow> int" where
  "axis_motion fx x cursor = fixed_to_int fx (fixed_from_double fx (double_minus fx (fixed_to_double fx x) cursor))"

lemma axis_motion_error:
  assumes "fixed_laws fx" and "cursor = of_int c / 256" and "\<bar>x\<bar> < 2 ^ 30" and "\<bar>c\<bar> < 2 ^ 30"
  shows "axis_motion fx x cursor = (x - c) sdiv 256"
    and "\<bar>of_int x / 256 - (cursor + of_int (axis_motion fx x cursor))\<bar> < (1::rat)"
proof -
  have range: "\<bar>x - c\<bar> < 2 ^ 31" "\<bar>x\<bar> < 2 ^ 31" "\<bar>c\<bar> < 2 ^ 31" using assms(3,4) by simp_all
  have laws: "fixed_to_double fx x = of_int x / 256" "fixed_to_int fx (x - c) = (x - c) sdiv 256"
    using assms(1) unfolding fixed_laws_def by blast+
  have minus: "double_minus fx (of_int x / 256) (of_int c / 256) = of_int (x - c) / 256"
    "fixed_from_double fx (of_int (x - c) / 256) = x - c"
    using assms(1) range unfolding fixed_laws_def by blast+
  show eq: "axis_motion fx x cursor = (x - c) sdiv 256"
    unfolding axis_motion_def assms(2) laws(1) minus laws(2) ..
  let ?e = "(x - c) - 256 * ((x - c) sdiv 256)"
  have "of_int x / 256 - (cursor + of_int (axis_motion fx x cursor)) = (of_int ?e / 256 :: rat)"
    unfolding eq unfolding assms(2) by (simp add: field_simps)
  moreover have "\<bar>of_int ?e :: rat\<bar> < 256"
    using sdiv_256_error [of "x - c"] by (metis of_int_abs of_int_less_numeral_iff)
  ultimately show "\<bar>of_int x / 256 - (cursor + of_int (axis_motion fx x cursor))\<bar> < (1::rat)"
    by (simp add: abs_divide)
qed

lemma move_absolute_calls:
  assumes "\<And>r. mir_calls (meanwhile r) = mir_calls r"
  shows "mir_calls (wlcs_pointer_move_absolute fx now meanwhile device x y runner) =
    mir_calls runner @ [Emit_event device
      (Pointer_motion (axis_motion fx x (cursor_x runner)) (axis_motion fx y (cursor_y runner))) now]"
  by (simp add: wlcs_pointer_move_absolute_def wlcs_pointer_move_relative_def Let_def axis_motion_def
      emit_mir_event_calls assms)

text \<open>A touch that goes down, is moved along positions, and goes up.\<close>

definition touch_session ::
    "int \<Rightarrow> (mir_runner \<Rightarrow> mir_runner) \<Rightarrow> int \<times> int \<Rightarrow> (int \<times> int) list \<Rightarrow> fake_touch \<times> mir_runner \<Rightarrow> fake_touch \<times> mir_runner" where
  "touch_session now meanwhile start positions st =
     wlcs_touch_up now meanwhile
       (fold (\<lambda>p. wlcs_touch_move now meanwhile (fst p) (snd p)) positions
          (wlcs_touch_down now meanwhile (fst start) (snd start) st))"

lemma touch_moves:
  assumes "\<And>r. mir_calls (meanwhile r) = mir_calls r"
  shows "mir_calls (snd (fold (\<lambda>p. wlcs_touch_move now meanwhile (fst p) (snd p)) ps (d, runner))) =
      mir_calls runner @ map (\<lambda>p. Emit_event (touch_device d) (Touch_event Move (fst p) (snd p)) now) ps"
    and "touch_device (fst (fold (\<lambda>p. wlcs_touch_move now meanwhile (fst p) (snd p)) ps (d, runner))) = touch_device d"
    and "(last_x (fst (fold (\<lambda>p. wlcs_touch_move now meanwhile (fst p) (snd p)) ps (d, runner))),
          last_y (fst (fold (\<lambda>p. wlcs_touch_move now meanwhile (fst p) (snd p)) ps (d, runner)))) =
         last ((last_x d, last_y d) # ps)"
  by (induction ps arbitrary: d runner)
    (auto simp: wlcs_touch_move_def Let_def emit_mir_event_calls [OF assms])

lemma touch_session_calls:
  assumes "\<And>r. mir_calls (meanwhile r) = mir_calls r"
  shows "mir_calls (snd (touch_session now meanwhile start ps (d, runner))) = mir_calls runner @
    Emit_event (touch_device d) (Touch_event Tap (fst start) (snd start)) now #
    map (\<lambda>p. Emit_event (touch_device d) (Touch_event Move (fst p) (snd p)) now) ps @
    [Emit_event (touch_device d) (Touch_event Release (fst (last (start # ps))) (snd (last (start # ps)))) now]"
proof -
  let ?d = "d\<lparr>last_x := fst start, last_y := snd start\<rparr>"
  let ?r = "emit_mir_event now meanwhile (touch_device d) (Touch_event Tap (fst start) (snd start)) runner"
  let ?st = "fold (\<lambda>p. wlcs_touch_move now meanwhile (fst p) (snd p)) ps (?d, ?r)"
  note moves = touch_moves [where now = now and ps = ps and d = ?d and runner = ?r, OF assms]
  have last: "last_x (fst ?st) = fst (last (start # ps))" "last_y (fst ?st) = snd (last (start # ps))"
    using arg_cong [OF moves(3), of fst] arg_cong [OF moves(3), of snd] by (simp_all split: if_splits)
  have down: "wlcs_touch_down now meanwhile (fst start) (snd start) (d, runner) = (?d, ?r)"
    by (simp add: wlcs_touch_down_def Let_def)
  show ?thesis
    unfolding touch_session_def down
    by (simp add: wlcs_touch_up_def Let_def emit_mir_event_calls [OF assms] moves(1,2) last)
qed

text \<open>The event loop handles a wake-up of the runner's executor.\<close>

definition loop_notify :: "eventfd_ops \<Rightarrow> nat \<Rightarrow> mir_job executor \<Rightarrow> mir_runner \<Rightarrow> mir_runner option" where
  "loop_notify ev a ex runner =
     map_option
       (\<lambda>(ex, runner). runner\<lparr>runner_loop := (runner_loop runner)\<lparr>executor_at := (executor_at (runner_loop runner))(a \<mapsto> ex)\<rparr>\<rparr>)
       (on_notify ev mir_job_body (ex, runner))"

lemma no_spawn: "Spawn w \<notin> set (mir_job_body j s)"
  by (cases j) simp

fun job_observer :: "mir_job \<Rightarrow> nat" where
  "job_observer (Remove_observer_job i) = i"

lemma run_jobs_observers:
  "observers (fold (\<lambda>j s. run_alone (mir_job_body j s) s) jobs runner) = observers runner |` (- set (map job_observer jobs))"
proof (induction jobs arbitrary: runner)
  case Nil
  show ?case by (simp add: restrict_map_def)
next
  case (Cons j jobs)
  show ?case
    by (cases j) (auto simp: Cons.IH remove_observer_def mir_call_def restrict_map_def fun_eq_iff)
qed

lemma loop_notify_removes:
  assumes "eventfd_laws ev" and "writes_succeed ev" and "fifo ex" and "None \<notin> set (workqueue ex)"
    and "Some (Remove_observer_job i) \<in> set (workqueue ex)"
  shows "\<exists>runner'. loop_notify ev a ex runner = Some runner' \<and> observers runner' i = None"
proof -
  let ?st = "(consume_wakeup ev ex, runner)"
  have same: "workqueue (fst ?st) = workqueue ex" "fifo (fst ?st)"
    using assms(3) by (auto simp: consume_wakeup_def fifo_def split: prod.split)
  obtain st' where run: "drain ev mir_job_body ?st = Some st'"
    using drain_terminates [where rank = "\<lambda>_. 0" and body = mir_job_body, OF assms(1) _ same(2)] no_spawn by blast
  from drain_runs_all [OF assms(1,2) no_spawn run same(2)] same(1) assms(4)
  obtain js new where js: "map Some js = workqueue ex @ new"
    and st': "snd st' = fold (\<lambda>j s. run_alone (mir_job_body j s) s) js runner" by auto
  have "Some (Remove_observer_job i) \<in> set (map Some js)" unfolding js using assms(5) by simp
  then have "i \<in> job_observer ` set js" by (auto intro: rev_image_eqI)
  then have "observers (snd st') i = None" by (simp add: st' run_jobs_observers restrict_map_def)
  with run show ?thesis by (cases st') (simp add: loop_notify_def on_notify_def)
qed

text \<open>Creating a device leaves work in the queue that removes its observer.\<close>

lemma create_device_queues:
  assumes "writes_succeed ev" and "eventfd_laws ev" and "fifo ex"
    and "\<And>r. runner_executor (meanwhile r) = runner_executor r" and "\<And>r. runner_loop (meanwhile r) = runner_loop r"
    and "runner_executor runner = Some a" and "executor_at (runner_loop runner) a = Some ex"
  shows "\<exists>runner' ex'. create_device ev name uid cap fresh meanwhile runner = (Inr (), runner') \<and>
    executor_at (runner_loop runner') a = Some ex' \<and> fifo ex' \<and>
    workqueue ex' = workqueue ex @ [Some (Remove_observer_job fresh)]"
proof -
  obtain ex' where sp: "spawn ev (Some (Remove_observer_job fresh)) ex = (Inr (), ex')"
    using spawn_succeeds [OF assms(1)] by blast
  have "covered (length (workqueue ex)) ex" by (simp add: covered_def)
  from spawn_keeps [OF assms(2,3) this, of "Some (Remove_observer_job fresh)"]
  have "fifo ex'" "workqueue ex' = workqueue ex @ [Some (Remove_observer_job fresh)]" by (simp_all add: sp)
  with sp show ?thesis by (simp add: create_device_def Let_def assms(4-7) mir_call_def)
qed

section \<open>Properties\<close>


definition exact_fixed_ops :: fixed_ops where
  "exact_fixed_ops =
     \<lparr>fixed_to_int = (\<lambda>n. n sdiv 256), fixed_to_double = (\<lambda>n. of_int n / 256),
      fixed_from_double = (\<lambda>d. round (d * 256)), double_minus = (\<lambda>a b. a - b)\<rparr>"

lemma exact_fixed_laws: "fixed_laws exact_fixed_ops"
  by (simp add: fixed_laws_def exact_fixed_ops_def diff_divide_distrib)


text \<open>
  A touch that goes down, moves and goes up is emitted as such, each event once and in
  order, and it is released where it was last moved to, or where it went down.
\<close>

theorem touch_released_where_it_was_last:
  assumes "\<And>r. mir_calls (meanwhile r) = mir_calls r"
  shows "mir_calls (snd (touch_session now meanwhile start ps (d, runner))) = mir_calls runner @
    Emit_event (touch_device d) (Touch_event Tap (fst start) (snd start)) now #
    map (\<lambda>p. Emit_event (touch_device d) (Touch_event Move (fst p) (snd p)) now) ps @
    [Emit_event (touch_device d) (Touch_event Release (fst (last (start # ps))) (snd (last (start # ps)))) now]"
  by (rule touch_session_calls [OF assms])

theorem touch_released_where_it_was_last_witness:
  "mir_calls (snd (touch_session 4 (\<lambda>r. r) (1, 2) [(3, 5), (8, 13)]
     (\<lparr>touch_device = 6, last_x = 0, last_y = 0\<rparr>, (wlcs_create_server (\<lambda>s. s) [])\<lparr>mir_calls := []\<rparr>))) =
   [Emit_event 6 (Touch_event Tap 1 2) 4, Emit_event 6 (Touch_event Move 3 5) 4,
    Emit_event 6 (Touch_event Move 8 13) 4, Emit_event 6 (Touch_event Release 8 13) 4]"
  by (subst touch_released_where_it_was_last) simp_all

text \<open>
  The observer that waits for a new device does not stay behind: creating a pointer
  succeeds with a wake-up for the event loop queued, and when the loop handles its next wake-up it
  runs the queued work to the end and the hub no longer has the observer.
\<close>

theorem device_observer_is_removed:
  assumes "eventfd_laws ev" and "writes_succeed ev"
    and "\<And>r. runner_executor (meanwhile r) = runner_executor r" and "\<And>r. runner_loop (meanwhile r) = runner_loop r"
    and "runner_executor runner = Some a" and "executor_at (runner_loop runner) a = Some ex"
    and "submitted ex = taken ex @ workqueue ex" and "None \<notin> set (workqueue ex)"
  shows "\<exists>runner' ex' runner''. wlcs_server_create_pointer ev device fresh meanwhile runner = (Inr device, runner') \<and>
    executor_at (runner_loop runner') a = Some ex' \<and>
    loop_notify ev a ex' runner' = Some runner'' \<and> observers runner'' fresh = None"
proof -
  have "fifo ex" using assms(7) by (simp add: fifo_def)
  from create_device_queues [OF assms(2,1) this assms(3-6)] obtain runner' ex' where
    made: "create_device ev ''mouse'' ''mouse-uid'' Cap_pointer fresh meanwhile runner = (Inr (), runner')"
    and at: "executor_at (runner_loop runner') a = Some ex'" and "fifo ex'"
    and "workqueue ex' = workqueue ex @ [Some (Remove_observer_job fresh)]" by blast
  with loop_notify_removes [OF assms(1,2) \<open>fifo ex'\<close>, of fresh] assms(8) obtain runner'' where
    "loop_notify ev a ex' runner' = Some runner''" "observers runner'' fresh = None" by auto
  with made at show ?thesis by (auto simp: wlcs_server_create_pointer_def bindE_def retE_def)
qed

theorem device_observer_is_removed_witness:
  "\<exists>runner' ex' runner''. wlcs_server_create_pointer counting_eventfd 3 7 (\<lambda>r. r)
      ((wlcs_create_server (\<lambda>s. s) [])\<lparr>runner_executor := Some 0,
        runner_loop := \<lparr>executor_at = [0 \<mapsto> \<lparr>workqueue = [], notify_count = 0, source_active = True, mir_log = [],
          submitted = [], taken = [], lost_wakeups = 0\<rparr>], destroy_listeners = []\<rparr>\<rparr>) = (Inr 3, runner') \<and>
     executor_at (runner_loop runner') 0 = Some ex' \<and>
     loop_notify counting_eventfd 0 ex' runner' = Some runner'' \<and> observers runner'' 7 = None"
  by (rule device_observer_is_removed [OF counting_eventfd_laws]) (simp_all, simp_all)

end
