(* ===== verification/Mir_Objects.thy ===== *)
theory Mir_Objects
  imports Mir_Integration
begin

text \<open>
  The objects of \<^verbatim>\<open>example/mir_integration.cpp\<close> behind the opaque pointers of the C interface. The
  functions cast a \<^verbatim>\<open>WlcsDisplayServer*\<close>, \<^verbatim>\<open>WlcsPointer*\<close> or \<^verbatim>\<open>WlcsTouch*\<close> back to the object they
  made with \<^verbatim>\<open>new\<close>, and a device keeps a raw pointer to its server. The heap is explicit here, so that
  the use of an object after \<^verbatim>\<open>delete\<close> is visible as undefined behaviour.
\<close>

section \<open>State\<close>

text \<open>\<^verbatim>\<open>FakePointer\<close>; a \<^verbatim>\<open>FakeTouch\<close> is kept with its member \<^verbatim>\<open>runner\<close>.\<close>

record fake_pointer =
  pointer_device :: nat
  pointer_runner :: nat

record mir_heap =
  server_at :: "nat \<rightharpoonup> mir_runner"
  pointer_at :: "nat \<rightharpoonup> fake_pointer"
  touch_at :: "nat \<rightharpoonup> fake_touch \<times> nat"

section \<open>Servers\<close>

definition dangling :: exn where
  "dangling = Undefined_behaviour ''pointer to no object''"

text \<open>\<^verbatim>\<open>delete\<close> of an object at \<open>p\<close> in the part of the heap \<open>m\<close>: a null pointer is ignored.\<close>

definition delete_at :: "handle \<Rightarrow> (nat \<rightharpoonup> 'a) \<Rightarrow> (nat \<rightharpoonup> 'a) result" where
  "delete_at p m =
     (case p of None \<Rightarrow> Inr m | Some a \<Rightarrow> (case m a of None \<Rightarrow> Inl dangling | Some _ \<Rightarrow> Inr (m(a := None))))"

definition new_server :: "(string \<Rightarrow> string) \<Rightarrow> string list \<Rightarrow> nat \<Rightarrow> mir_heap \<Rightarrow> mir_heap" where
  "new_server server_platform args a h = h\<lparr>server_at := (server_at h)(a \<mapsto> wlcs_create_server server_platform args)\<rparr>"

definition wlcs_destroy_server :: "handle \<Rightarrow> (mir_heap, unit) eff" where
  "wlcs_destroy_server server h =
     (case delete_at server (server_at h) of Inl e \<Rightarrow> (Inl e, h) | Inr m \<Rightarrow> (Inr (), h\<lparr>server_at := m\<rparr>))"

text \<open>\<^verbatim>\<open>reinterpret_cast<MirWlcsDisplayServer*>(server)->\<close>\<close>

definition on_server :: "nat \<Rightarrow> (mir_runner, 'a) eff \<Rightarrow> (mir_heap, 'a) eff" where
  "on_server a f h =
     (case server_at h a of
        None \<Rightarrow> (Inl dangling, h)
      | Some runner \<Rightarrow> (case f runner of (r, runner) \<Rightarrow> (r, h\<lparr>server_at := (server_at h)(a \<mapsto> runner)\<rparr>)))"

section \<open>Pointers\<close>

text \<open>The new object gets the address \<open>p\<close>; it is made after the device was added to Mir.\<close>

definition new_pointer ::
    "eventfd_ops \<Rightarrow> nat \<Rightarrow> nat \<Rightarrow> (mir_runner \<Rightarrow> mir_runner) \<Rightarrow> nat \<Rightarrow> nat \<Rightarrow> (mir_heap, unit) eff" where
  "new_pointer ev device fresh meanwhile a p =
     bindE (on_server a (wlcs_server_create_pointer ev device fresh meanwhile))
       (\<lambda>d h. (Inr (), h\<lparr>pointer_at := (pointer_at h)(p \<mapsto> \<lparr>pointer_device = d, pointer_runner = a\<rparr>)\<rparr>))"

definition wlcs_destroy_pointer :: "handle \<Rightarrow> (mir_heap, unit) eff" where
  "wlcs_destroy_pointer pointer h =
     (case delete_at pointer (pointer_at h) of Inl e \<Rightarrow> (Inl e, h) | Inr m \<Rightarrow> (Inr (), h\<lparr>pointer_at := m\<rparr>))"

definition on_pointer :: "nat \<Rightarrow> (nat \<Rightarrow> mir_runner \<Rightarrow> mir_runner) \<Rightarrow> (mir_heap, unit) eff" where
  "on_pointer p f h =
     (case pointer_at h p of
        None \<Rightarrow> (Inl dangling, h)
      | Some d \<Rightarrow> on_server (pointer_runner d) (\<lambda>runner. (Inr (), f (pointer_device d) runner)) h)"

section \<open>Touch screens\<close>

definition new_touch ::
    "eventfd_ops \<Rightarrow> nat \<Rightarrow> nat \<Rightarrow> (mir_runner \<Rightarrow> mir_runner) \<Rightarrow> nat \<Rightarrow> nat \<Rightarrow> (mir_heap, unit) eff" where
  "new_touch ev device fresh meanwhile a p =
     bindE (on_server a (wlcs_server_create_touch ev device fresh meanwhile))
       (\<lambda>d h. (Inr (), h\<lparr>touch_at := (touch_at h)(p \<mapsto> (d, a))\<rparr>))"

definition wlcs_destroy_touch :: "handle \<Rightarrow> (mir_heap, unit) eff" where
  "wlcs_destroy_touch touch h =
     (case delete_at touch (touch_at h) of Inl e \<Rightarrow> (Inl e, h) | Inr m \<Rightarrow> (Inr (), h\<lparr>touch_at := m\<rparr>))"

definition on_touch :: "nat \<Rightarrow> (fake_touch \<times> mir_runner \<Rightarrow> fake_touch \<times> mir_runner) \<Rightarrow> (mir_heap, unit) eff" where
  "on_touch p f h =
     (case touch_at h p of
        None \<Rightarrow> (Inl dangling, h)
      | Some (d, a) \<Rightarrow>
          bindE (on_server a (\<lambda>runner. case f (d, runner) of (d, runner) \<Rightarrow> (Inr d, runner)))
            (\<lambda>d h. (Inr (), h\<lparr>touch_at := (touch_at h)(p \<mapsto> (d, a))\<rparr>)) h)"

section \<open>The interface as a whole\<close>

text \<open>The calls a test suite makes; \<open>f\<close> is one of the functions of \<open>Mir_Integration\<close> with its arguments.\<close>

datatype object_call =
    Create_server "string list" nat
  | Destroy_server nat
  | Use_server nat "mir_runner \<Rightarrow> mir_runner"
  | Create_pointer nat nat nat nat
  | Destroy_pointer nat
  | Use_pointer nat "nat \<Rightarrow> mir_runner \<Rightarrow> mir_runner"
  | Create_touch nat nat nat nat
  | Destroy_touch nat
  | Use_touch nat "fake_touch \<times> mir_runner \<Rightarrow> fake_touch \<times> mir_runner"

fun call_object ::
    "eventfd_ops \<Rightarrow> (string \<Rightarrow> string) \<Rightarrow> (mir_runner \<Rightarrow> mir_runner) \<Rightarrow> object_call \<Rightarrow> (mir_heap, unit) eff" where
  "call_object ev platform meanwhile (Create_server args a) h = (Inr (), new_server platform args a h)"
| "call_object ev platform meanwhile (Destroy_server a) h = wlcs_destroy_server (Some a) h"
| "call_object ev platform meanwhile (Use_server a f) h = on_server a (\<lambda>runner. (Inr (), f runner)) h"
| "call_object ev platform meanwhile (Create_pointer device fresh a p) h = new_pointer ev device fresh meanwhile a p h"
| "call_object ev platform meanwhile (Destroy_pointer p) h = wlcs_destroy_pointer (Some p) h"
| "call_object ev platform meanwhile (Use_pointer p f) h = on_pointer p f h"
| "call_object ev platform meanwhile (Create_touch device fresh a p) h = new_touch ev device fresh meanwhile a p h"
| "call_object ev platform meanwhile (Destroy_touch p) h = wlcs_destroy_touch (Some p) h"
| "call_object ev platform meanwhile (Use_touch p f) h = on_touch p f h"

text \<open>
  What the caller sees to: new objects get unused addresses, an object is used and destroyed only
  while it exists, and a server is destroyed after the devices that were made with it.
\<close>

definition runners :: "mir_heap \<Rightarrow> nat set" where
  "runners h = pointer_runner ` ran (pointer_at h) \<union> snd ` ran (touch_at h)"

fun in_order :: "object_call \<Rightarrow> mir_heap \<Rightarrow> bool" where
  "in_order (Create_server args a) h \<longleftrightarrow> server_at h a = None"
| "in_order (Destroy_server a) h \<longleftrightarrow> server_at h a \<noteq> None \<and> a \<notin> runners h"
| "in_order (Use_server a f) h \<longleftrightarrow> server_at h a \<noteq> None"
| "in_order (Create_pointer device fresh a p) h \<longleftrightarrow> server_at h a \<noteq> None \<and> pointer_at h p = None"
| "in_order (Destroy_pointer p) h \<longleftrightarrow> pointer_at h p \<noteq> None"
| "in_order (Use_pointer p f) h \<longleftrightarrow> pointer_at h p \<noteq> None"
| "in_order (Create_touch device fresh a p) h \<longleftrightarrow> server_at h a \<noteq> None \<and> touch_at h p = None"
| "in_order (Destroy_touch p) h \<longleftrightarrow> touch_at h p \<noteq> None"
| "in_order (Use_touch p f) h \<longleftrightarrow> touch_at h p \<noteq> None"

inductive object_calls :: "eventfd_ops \<Rightarrow> (string \<Rightarrow> string) \<Rightarrow> (mir_runner \<Rightarrow> mir_runner) \<Rightarrow> mir_heap \<Rightarrow> bool"
  for ev platform meanwhile where
  start: "object_calls ev platform meanwhile \<lparr>server_at = Map.empty, pointer_at = Map.empty, touch_at = Map.empty\<rparr>"
| call: "object_calls ev platform meanwhile h \<Longrightarrow> in_order c h \<Longrightarrow>
    call_object ev platform meanwhile c h = (r, h') \<Longrightarrow> object_calls ev platform meanwhile h'"

section \<open>Lemmas\<close>

lemma on_server_heap:
  assumes "on_server a f h = (r, h')"
  shows "pointer_at h' = pointer_at h" "touch_at h' = touch_at h" "dom (server_at h') = dom (server_at h)"
  using assms by (auto simp: on_server_def split: option.splits prod.splits if_splits)

definition heap_ok :: "mir_heap \<Rightarrow> bool" where
  "heap_ok h \<longleftrightarrow> runners h \<subseteq> dom (server_at h)"

lemma ran_upd_subset: "ran (m(k \<mapsto> v)) \<subseteq> insert v (ran m)" "ran (m(k := None)) \<subseteq> ran m"
  by (auto simp: ran_def split: if_splits)

lemma runners_upd:
  assumes "touch_at h' = touch_at h" and "pointer_at h' = (pointer_at h)(p \<mapsto> d)"
  shows "runners h' \<subseteq> insert (pointer_runner d) (runners h)"
  using assms ran_upd_subset(1) [of "pointer_at h" p d] by (auto simp: runners_def)

lemma runners_upd_touch:
  assumes "pointer_at h' = pointer_at h" and "touch_at h' = (touch_at h)(p \<mapsto> d)"
  shows "runners h' \<subseteq> insert (snd d) (runners h)"
  using assms ran_upd_subset(1) [of "touch_at h" p d] by (fastforce simp: runners_def)

lemma runners_same: "pointer_at h' = pointer_at h \<Longrightarrow> touch_at h' = touch_at h \<Longrightarrow> runners h' = runners h"
  by (simp add: runners_def)

lemma heap_ok_pointer: "heap_ok h \<Longrightarrow> pointer_at h p = Some d \<Longrightarrow> server_at h (pointer_runner d) \<noteq> None"
  by (force simp: heap_ok_def runners_def ran_def)

lemma heap_ok_touch: "heap_ok h \<Longrightarrow> touch_at h p = Some (d, a) \<Longrightarrow> server_at h a \<noteq> None"
  by (force simp: heap_ok_def runners_def ran_def)


lemma heap_okI:
  assumes "heap_ok h" and "runners h' \<subseteq> insert a (runners h)" and "a \<in> dom (server_at h)"
    and "dom (server_at h) \<subseteq> dom (server_at h')"
  shows "heap_ok h'"
  using assms unfolding heap_ok_def by blast

lemma new_device_ok:
  assumes "heap_ok h" and "server_at h a \<noteq> None" and "on_server a f h = (r, h1)"
  shows "heap_ok h1" and "heap_ok (h1\<lparr>pointer_at := (pointer_at h1)(p \<mapsto> \<lparr>pointer_device = x, pointer_runner = a\<rparr>)\<rparr>)"
    and "heap_ok (h1\<lparr>touch_at := (touch_at h1)(p \<mapsto> (y, a))\<rparr>)"
proof -
  note s = on_server_heap(1-3) [OF assms(3)]
  have a: "a \<in> dom (server_at h)" using assms(2) by blast
  show ok: "heap_ok h1" using assms(1) runners_same [OF s(1,2)] s(3) by (simp add: heap_ok_def)
  show "heap_ok (h1\<lparr>pointer_at := (pointer_at h1)(p \<mapsto> \<lparr>pointer_device = x, pointer_runner = a\<rparr>)\<rparr>)"
    using runners_upd [of "h1\<lparr>pointer_at := (pointer_at h1)(p \<mapsto> \<lparr>pointer_device = x, pointer_runner = a\<rparr>)\<rparr>" h1 p
        "\<lparr>pointer_device = x, pointer_runner = a\<rparr>"] a s(3)
    by (intro heap_okI [OF ok, where a = a]) simp_all
  show "heap_ok (h1\<lparr>touch_at := (touch_at h1)(p \<mapsto> (y, a))\<rparr>)"
    using runners_upd_touch [of "h1\<lparr>touch_at := (touch_at h1)(p \<mapsto> (y, a))\<rparr>" h1 p "(y, a)"] a s(3)
    by (intro heap_okI [OF ok, where a = a]) simp_all
qed

lemma destroy_device_ok:
  assumes "heap_ok h"
  shows "heap_ok (h\<lparr>pointer_at := (pointer_at h)(p := None)\<rparr>)" "heap_ok (h\<lparr>touch_at := (touch_at h)(p := None)\<rparr>)"
proof -
  have "runners (h\<lparr>pointer_at := (pointer_at h)(p := None)\<rparr>) \<subseteq> runners h"
    unfolding runners_def using image_mono [OF ran_upd_subset(2) [of "pointer_at h" p], of pointer_runner] by auto
  then show "heap_ok (h\<lparr>pointer_at := (pointer_at h)(p := None)\<rparr>)" using assms by (simp add: heap_ok_def)
  have "runners (h\<lparr>touch_at := (touch_at h)(p := None)\<rparr>) \<subseteq> runners h"
    unfolding runners_def using image_mono [OF ran_upd_subset(2) [of "touch_at h" p], of snd] by auto
  then show "heap_ok (h\<lparr>touch_at := (touch_at h)(p := None)\<rparr>)" using assms by (simp add: heap_ok_def)
qed

lemma call_object_ok:
  assumes ok: "heap_ok h" and c: "in_order c h" and run: "call_object ev platform meanwhile c h = (r, h')"
  shows "heap_ok h'"
proof (cases c)
  case (Create_server args a)
  moreover have "runners (new_server platform args a h) = runners h"
    by (rule runners_same) (simp_all add: new_server_def)
  ultimately show ?thesis using ok run by (auto simp: heap_ok_def new_server_def)
next
  case (Destroy_server a)
  moreover have "runners (h\<lparr>server_at := m\<rparr>) = runners h" for m by (rule runners_same) simp_all
  ultimately show ?thesis
    using ok c run by (auto simp: wlcs_destroy_server_def delete_at_def heap_ok_def split: option.splits)
next
  case (Use_server a f)
  with c run show ?thesis using new_device_ok(1) [OF ok, of a "\<lambda>runner. (Inr (), f runner)"] by simp
next
  case (Create_pointer device fresh a p)
  with c have a: "server_at h a \<noteq> None" by simp
  obtain q h1 where q: "on_server a (wlcs_server_create_pointer ev device fresh meanwhile) h = (q, h1)" by fastforce
  from Create_pointer run q new_device_ok(1,2) [OF ok a q] show ?thesis
    by (cases q) (auto simp: new_pointer_def bindE_def)
next
  case (Destroy_pointer p)
  with run destroy_device_ok(1) [OF ok, of p] ok show ?thesis
    by (auto simp: wlcs_destroy_pointer_def delete_at_def split: option.splits)
next
  case (Use_pointer p f)
  with c obtain d where d: "pointer_at h p = Some d" by auto
  from Use_pointer run d new_device_ok(1) [OF ok heap_ok_pointer [OF ok d]] show ?thesis
    by (auto simp: on_pointer_def)
next
  case (Create_touch device fresh a p)
  with c have a: "server_at h a \<noteq> None" by simp
  obtain q h1 where q: "on_server a (wlcs_server_create_touch ev device fresh meanwhile) h = (q, h1)" by fastforce
  from Create_touch run q new_device_ok(1,3) [OF ok a q] show ?thesis
    by (cases q) (auto simp: new_touch_def bindE_def)
next
  case (Destroy_touch p)
  with run destroy_device_ok(2) [OF ok, of p] ok show ?thesis
    by (auto simp: wlcs_destroy_touch_def delete_at_def split: option.splits)
next
  case (Use_touch p f)
  with c obtain d a where d: "touch_at h p = Some (d, a)" by auto
  obtain q h1 where q: "on_server a (\<lambda>runner. case f (d, runner) of (d, runner) \<Rightarrow> (Inr d, runner)) h = (q, h1)" by fastforce
  from Use_touch run d q new_device_ok(1,3) [OF ok heap_ok_touch [OF ok d] q] show ?thesis
    by (cases q) (auto simp: on_touch_def bindE_def)
qed

lemma object_calls_ok: "object_calls ev platform meanwhile h \<Longrightarrow> heap_ok h"
proof (induction rule: object_calls.induct)
  case start
  show ?case by (simp add: heap_ok_def runners_def)
next
  case (call h c r h')
  then show ?case using call_object_ok by blast
qed

lemma create_device_not_dangling: "fst (create_device ev name uid cap fresh meanwhile runner) \<noteq> Inl dangling"
proof -
  have "r \<noteq> Inl dangling" if "spawn ev w ex = (r, ex')" for w r and ex ex' :: "mir_job executor"
    using that by (auto simp: spawn_def spawn_notify_def dangling_def Let_def split: prod.splits if_splits)
  then show ?thesis
    by (auto simp: create_device_def dangling_def Let_def split: option.splits prod.splits)
qed

lemma create_device_dangling: "create_device ev name uid cap fresh meanwhile runner \<noteq> (Inl dangling, runner')"
  using create_device_not_dangling by (metis fst_conv)

section \<open>Properties\<close>

text \<open>
  No pointer of the interface dangles: as long as the caller destroys a server after the devices made
  with it, no function reaches an object that was deleted, neither the one it was called with nor
  the server behind a device.
\<close>

theorem no_dangling_objects:
  assumes "object_calls ev platform meanwhile h" and "in_order c h"
  shows "fst (call_object ev platform meanwhile c h) \<noteq> Inl dangling"
proof -
  note ok = object_calls_ok [OF assms(1)]
  show ?thesis
  proof (cases c)
    case (Create_pointer device fresh a p)
    with assms(2) show ?thesis
      by (auto simp: create_device_dangling new_pointer_def bindE_def on_server_def wlcs_server_create_pointer_def retE_def split: prod.splits sum.splits)
  next
    case (Create_touch device fresh a p)
    with assms(2) show ?thesis
      by (auto simp: create_device_dangling new_touch_def bindE_def on_server_def wlcs_server_create_touch_def retE_def split: prod.splits sum.splits)
  next
    case (Use_pointer p f)
    with assms(2) obtain d where d: "pointer_at h p = Some d" by auto
    with heap_ok_pointer [OF ok d] Use_pointer show ?thesis by (auto simp: on_pointer_def on_server_def)
  next
    case (Use_touch p f)
    with assms(2) obtain d a where d: "touch_at h p = Some (d, a)" by auto
    with heap_ok_touch [OF ok d] Use_touch show ?thesis
      by (auto simp: on_touch_def on_server_def bindE_def split: prod.splits)
  qed (use assms(2) in \<open>auto simp: wlcs_destroy_server_def wlcs_destroy_pointer_def wlcs_destroy_touch_def
        delete_at_def on_server_def split: option.splits\<close>)
qed

text \<open>
  The order matters: destroying the server first leaves its devices with a dangling pointer; they
  can still be destroyed, but any other use of them is undefined.
\<close>

theorem device_outlives_server:
  assumes "pointer_at h p = Some d" and "server_at h (pointer_runner d) \<noteq> None"
    and "wlcs_destroy_server (Some (pointer_runner d)) h = (Inr (), h')"
  shows "fst (on_pointer p f h') = Inl dangling \<and> fst (wlcs_destroy_pointer (Some p) h') = Inr ()"
  using assms
  by (auto simp: wlcs_destroy_server_def wlcs_destroy_pointer_def delete_at_def on_pointer_def on_server_def
      split: option.splits)

end
