(* ===== verification/Spec2Isabelle.thy ===== *)
theory Spec2Isabelle
  imports Input_Method Client_Composition Xdg_Output_Objects Surface_Builder Surface_Objects Copy_Cut_Paste
    Protocol_Objects Listeners Wl_Handle Shared_Owner Geometry_Print Test_Runner Test_Support Module_Lifetime
    Mir_Objects
begin

text \<open>
  \<^bold>\<open>A verification of wlcs, the Wayland conformance suite.\<close>

  wlcs runs tests against a Wayland compositor that is loaded into the test process as a plug-in.
  Its library part, which this development models, lies between the test bodies and the two things
  they drive: the compositor's integration module (a table of C functions) and libwayland's client
  side.

  \<^bold>\<open>The parts and how they interact.\<close> \<^verbatim>\<open>main\<close> (\<^verbatim>\<open>src/main.cpp\<close>) loads the module, publishes its
  entry point and runs the tests under a listener that turns recorded reasons into skipped tests.
  A test owns a \<^verbatim>\<open>Server\<close>, which calls the module either directly or, for modules that must be
  called on their own event loop, through a \<^verbatim>\<open>ThreadProxy\<close>; from it come \<^verbatim>\<open>Pointer\<close>,
  \<^verbatim>\<open>Touch\<close> and \<^verbatim>\<open>Keyboard\<close>, fake input devices, which \<^verbatim>\<open>InputMethod\<close> puts behind one interface.
  A \<^verbatim>\<open>Client\<close> is a connection to the compositor: it follows the registry, binds globals, keeps the
  input state that events describe, and waits for events with \<^verbatim>\<open>dispatch_until\<close>. On it tests make
  \<^verbatim>\<open>Surface\<close>s, \<^verbatim>\<open>Subsurface\<close>s and \<^verbatim>\<open>ShmBuffer\<close>s, directly or with a \<^verbatim>\<open>SurfaceBuilder\<close>, which
  also asks the server to place the window. \<^verbatim>\<open>example/mir_integration.cpp\<close> is an integration module
  for Mir: the other side of the interface that \<^verbatim>\<open>Server\<close> calls.

  \<^bold>\<open>Theories, sources and results.\<close> Definitions keep the names of the source where they can.

  \<^item> \<open>Prelude\<close>: machine integers, object handles, exceptions as the datatype \<open>exn\<close> (with
    \<open>Undefined_behaviour\<close> for points at which C++ defines nothing), computations on a state that may
    throw (\<open>eff\<close>), \<^verbatim>\<open>std::map\<close> and \<^verbatim>\<open>std::set\<close> in iteration order with the locale
    \<open>std_map\<close>, vectors of callbacks, decimal numerals.
  \<^item> \<open>Version_Specifier\<close> (\<^verbatim>\<open>src/version_specifier.cpp\<close>): the version that is bound is the
    greatest one that both sides know and the specifier admits; when selection throws.
  \<^item> \<open>Client_Input\<close> (the keyboard, pointer and touch handlers of \<^verbatim>\<open>Client::Impl\<close>,
    \<^verbatim>\<open>src/in_process_server.cpp\<close>): an invariant of every reachable input state, and that buffering
    events until the frame implements the protocols applied event by event, with the two cases in
    which it does not.
  \<^item> \<open>Thread_Proxy\<close> (\<^verbatim>\<open>src/thread_proxy.h\<close>): marshalling, registration, sending, serving and
    replying. Calls of several threads are interleaved step by step in an inductive relation; they
    are linearizable and never stuck. The locale \<open>proxy_contract\<close> states what the users of a proxy
    rely on; it is interpreted for the thread proxy on a reliable socket and for the null proxy.
  \<^item> \<open>Devices\<close>, \<open>Server\<close> (\<^verbatim>\<open>Pointer\<close>, \<^verbatim>\<open>Touch\<close>, \<^verbatim>\<open>Keyboard\<close>, \<^verbatim>\<open>Server::Impl\<close>): proved
    once over the contract of the proxy: which function of the module runs, on which thread, with
    which arguments; when construction is refused and what is destroyed then.
  \<^item> \<open>Input_Method\<close> (\<^verbatim>\<open>src/input_method.cpp\<close>): the locale \<open>input_device\<close> is the contract of a
    device; pointer and touch satisfy it and so perform every sequence of gestures like the same
    state machine.
  \<^item> \<open>Outputs\<close> (\<^verbatim>\<open>Output\<close> and \<^verbatim>\<open>src/xdg_output_v1.cpp\<close>): double-buffered output state refines the
    events up to the last \<^verbatim>\<open>done\<close>.
  \<^item> \<open>Client_Registry\<close>, \<open>Client_Dispatch\<close> (the rest of \<^verbatim>\<open>Client::Impl\<close>): announcing, binding
    and removing globals, the destructor, and \<^verbatim>\<open>dispatch_until\<close>, which returns for every predicate and
    keeps the bookkeeping of announced reads, except after one kind of timeout.
  \<^item> \<open>Client_Composition\<close> (\<^verbatim>\<open>Client\<close> with all its listeners): registry, seat, outputs and input on one
    state, where handlers dispatch further events before they return, and the public methods. The
    specification is a function of the list of events alone; nested handlers refine it, and so
    does everything a test can do with a client from its construction on.
  \<^item> \<open>Xdg_Output_Objects\<close> (\<^verbatim>\<open>src/xdg_output_v1.cpp\<close> with the client's outputs): objects made and destroyed
    while notifiers with weak pointers to them stay behind; a \<^verbatim>\<open>done\<close> event reaches exactly the
    objects of its output.
  \<^item> \<open>Shm_Buffer\<close> (\<^verbatim>\<open>src/helpers.cpp\<close>, \<^verbatim>\<open>ShmBuffer\<close>): anonymous files and buffers leak no
    descriptor on any path; what a release event does to the notifiers.
  \<^item> \<open>Surfaces\<close> (\<^verbatim>\<open>Surface\<close>, \<^verbatim>\<open>Subsurface\<close>, the creation of visible surfaces, the surfaces of
    \<^verbatim>\<open>src/xdg_shell_v6.cpp\<close> and \<^verbatim>\<open>src/xdg_shell_stable.cpp\<close>): with an explicit heap, frame events
    never touch a freed closure; waiting for a frame; committing the ancestry of a subsurface.
  \<^item> \<open>Surface_Objects\<close> (the classes \<^verbatim>\<open>Surface\<close> and \<^verbatim>\<open>Subsurface\<close> around them): objects that can be moved,
    with the reference of a subsurface to its parent object; every \<^verbatim>\<open>Impl\<close> has one owner, and the commit
    loop over objects is the one over \<^verbatim>\<open>Impl\<close>s as long as no parent of a live subsurface is moved.
  \<^item> \<open>Surface_Builder\<close> (\<^verbatim>\<open>src/surface_builder.cpp\<close>): client and server composed; a successful build
    is exactly one placement on the server, at the right position.
  \<^item> \<open>Copy_Cut_Paste\<close> (\<^verbatim>\<open>include/copy_cut_paste.h\<close>): the fixtures, what they ask for, and the order in which
    their members and the client are destroyed, also when a constructor throws.
  \<^item> \<open>Listeners\<close> (\<^verbatim>\<open>include/active_listeners.h\<close>, the listener classes of data devices and primary
    selections): events reach live listeners only (locale \<open>address_set\<close>).
  \<^item> \<open>Wl_Handle\<close> (\<^verbatim>\<open>include/wl_handle.h\<close>): every object has one owner or was destroyed once.
    \<open>Shared_Owner\<close> (the wrappers of \<^verbatim>\<open>include/data_device.h\<close>, \<^verbatim>\<open>include/primary_selection.h\<close> and
    \<^verbatim>\<open>include/gtk_primary_selection.h\<close>): along every history of constructing, copying, moving,
    assigning, resetting and destroying wrappers, a shared object is destroyed once, by its last owner.
  \<^item> \<open>Protocol_Objects\<close> (toplevel states, positioners, popups, layer surfaces, dmabuf feedback,
    pointer constraints, relative pointers, decorations): the states of a configure event are read
    as they were encoded; device numbers of dmabuf feedback are not.
  \<^item> \<open>Geometry\<close> (\<^verbatim>\<open>include/geometry\<close>): the \<^verbatim>\<open>int\<close> instance with checked arithmetic; rectangles
    are sets of points; whatever is built from \<^verbatim>\<open>int\<close>s is representable in every component.
    \<open>Geometry_Print\<close>: the stream output, from which the printed value can be read back.
  \<^item> \<open>Test_Runner\<close> (\<^verbatim>\<open>src/main.cpp\<close>, \<^verbatim>\<open>src/xfail_supporting_test_listener.cpp\<close>,
    \<^verbatim>\<open>src/shared_library.cpp\<close>): the exit status and the report for every run of the framework.
  \<^item> \<open>Module_Lifetime\<close> (\<^verbatim>\<open>main\<close>, \<^verbatim>\<open>Server\<close>, \<^verbatim>\<open>Pointer\<close>, \<^verbatim>\<open>Touch\<close> and \<^verbatim>\<open>Keyboard\<close> as owners of the loaded library): every
    call into the module happens while it is loaded, whatever is moved and in whatever order the objects
    are destroyed, except that a server must not be the last owner.
  \<^item> \<open>Test_Support\<close> (the mock objects of the text input and input method protocols,
    \<^verbatim>\<open>include/expect_protocol_error.h\<close>, \<^verbatim>\<open>include/gtest_helpers.h\<close>): the mocks report what was sent;
    when a test that expects a protocol error passes; printed times can be read back.
  \<^item> \<open>Waitable_Mutex\<close> (\<^verbatim>\<open>include/mutex.h\<close>): threads that lock, wait and notify, interleaved step by
    step; a guard is exclusive, and one that \<^verbatim>\<open>wait_for\<close> returned finds its predicate true. The locale
    \<open>data_mutex\<close> states what the users of a mutex rely on, and that critical sections are serial.
  \<^item> \<open>Mir_Executor\<close> (\<^verbatim>\<open>WaylandExecutor\<close> of \<^verbatim>\<open>example/mir_integration.cpp\<close>): under every interleaving
    of spawning threads and the event loop no work is lost, reordered or left without a wake-up, and
    emptying the queue ends.
  \<^item> \<open>Mir_Resource_Mapper\<close> (\<^verbatim>\<open>ResourceMapper\<close> there, on a \<^verbatim>\<open>WaitableMutex\<close>): sockets are associated
    with the clients behind them and windows with the surfaces made for them.
  \<^item> \<open>Mir_Integration\<close> (the rest of that file): the fake devices, the observers and the server; how
    far an absolute pointer movement can miss its target. \<open>Mir_Objects\<close>: the heap behind the opaque
    pointers of its interface; no pointer dangles as long as a server outlives its devices.

  \<^bold>\<open>Conventions.\<close> The state of a class is a record and a method a function on it; exceptions are
  values; a call that blocks for ever is \<open>None\<close>. Requests to libwayland are recorded in order in the
  field \<open>calls\<close> of a client. libwayland, the operating system, GoogleTest and the compositor's module
  are parameters; what a theorem needs of them (\<open>reliable\<close>, \<open>timely\<close>, \<open>read_protocol\<close>, \<open>fd_laws\<close>,
  \<open>properties_grow\<close>, \<open>eventfd_laws\<close>, \<open>writes_succeed\<close>, \<open>fixed_laws\<close>, \<open>event_driven\<close>) is a hypothesis that states documented behaviour, and every such theorem has a witness
  with concrete functions. Numbers in memory are little-endian.

  \<^bold>\<open>Loops.\<close> No loop has fuel. Loops over containers are structural; \<^verbatim>\<open>dispatch_until\<close>, the commit
  loop of \<^verbatim>\<open>Subsurface::create_visible\<close> and the loop of \<^verbatim>\<open>WaylandExecutor::on_notify\<close> are partial
  functions whose termination is a theorem; the thread proxy, the mutex and the executor are step
  relations, in which each point at which a thread can be interrupted is a step.

  \<^bold>\<open>Not modelled.\<close> The \<^verbatim>\<open>float\<close> instances of the geometry types; what GoogleMock does with a recorded call;
  the parts of template metaprogramming in \<^verbatim>\<open>src/thread_proxy.h\<close> and \<^verbatim>\<open>include/wl_interface_descriptor.h\<close> that only
  select types; methods of \<^verbatim>\<open>Client\<close> and \<^verbatim>\<open>ShmBuffer\<close> that only call the modelled method of the same
  name of their \<^verbatim>\<open>Impl\<close> to make a surface or reach a buffer; exceptions that leave a handler through libwayland's
  own code, which is not defined there: the model of a client keeps the state such a handler left. Mir,
  libwayland and the compositor are parameters. Not part of the library are the vendored \<^verbatim>\<open>src/termcolor.hpp\<close>, code
  generated from the protocol files, and the test bodies.
\<close>

end
